(* ===== verification/Prelude.thy ===== *)
theory Prelude
  imports
    Main
    "HOL-Library.Word"
    "HOL-Library.Char_ord"
    "HOL-Library.List_Lexorder"
    "HOL-Library.Product_Lexorder"
begin

text \<open>
  Shared vocabulary of the development: machine integers, the two time types of the Rust
  standard library, the iterator and string functions the sources use, and the generic
  facts about them that the component theories rest on.

  \<^item> A \<open>Duration\<close> is a natural number of nanoseconds; its largest value is
    \<open>duration_max\<close> (\<open>u64::MAX\<close> seconds and 999999999 nanoseconds). The saturating
    multiplication of the standard library stops there.
  \<^item> An \<open>Instant\<close> is a natural number of nanoseconds on the monotonic clock. Adding a
    duration panics when the seconds leave the range of an \<open>i64\<close>, the representation
    the standard library uses on Unix; the panic is the value \<open>None\<close>.
  \<^item> A Rust string is its list of UTF-8 bytes.
\<close>

section \<open>Collections of facts\<close>

named_theorems wf_intros \<open>operations that keep the well-formedness of the pools\<close>
named_theorems frame_simps \<open>what an operation leaves unchanged\<close>
named_theorems time_defs \<open>definitions of the time arithmetic\<close>

section \<open>Machine integers and time\<close>

type_synonym u8 = "8 word"
type_synonym u16 = "16 word"
type_synonym u32 = "32 word"
type_synonym u64 = "64 word"

type_synonym duration = nat
type_synonym instant = nat

definition nanos_per_sec :: nat where
  [time_defs]: "nanos_per_sec = 1000000000"

definition nanos_per_milli :: nat where
  [time_defs]: "nanos_per_milli = 1000000"

definition u64_max :: nat where
  [time_defs]: "u64_max = 2 ^ 64 - 1"

definition duration_max :: duration where
  [time_defs]: "duration_max = u64_max * nanos_per_sec + 999999999"

definition instant_max :: instant where
  [time_defs]: "instant_max = (2 ^ 63 - 1) * nanos_per_sec + 999999999"

definition from_secs :: "u64 \<Rightarrow> duration" where
  "from_secs s = unat s * nanos_per_sec"

definition from_millis :: "u64 \<Rightarrow> duration" where
  "from_millis m = unat m * nanos_per_milli"

definition as_secs :: "duration \<Rightarrow> nat" where
  "as_secs d = d div nanos_per_sec"

definition as_millis :: "duration \<Rightarrow> nat" where
  "as_millis d = d div nanos_per_milli"

definition saturating_mul :: "duration \<Rightarrow> nat \<Rightarrow> duration" where
  "saturating_mul d k = min (d * k) duration_max"

text \<open>\<open>u64::try_from(n).unwrap_or(u64::MAX)\<close> on a wider integer.\<close>

definition u64_saturate :: "nat \<Rightarrow> u64" where
  "u64_saturate n = (if n \<le> u64_max then of_nat n else of_nat u64_max)"

definition instant_add :: "instant \<Rightarrow> duration \<Rightarrow> instant option" where
  "instant_add t d = (if t + d \<le> instant_max then Some (t + d) else None)"

text \<open>\<open>duration_since\<close> and \<open>saturating_duration_since\<close> both stop at zero.\<close>

definition duration_since :: "instant \<Rightarrow> instant \<Rightarrow> duration" where
  "duration_since later earlier = later - earlier"

lemma instant_add_SomeD: "instant_add t d = Some u \<Longrightarrow> u = t + d"
  by (simp add: instant_add_def split: if_splits)

lemma unat_u64_saturate: "unat (u64_saturate n) = min n u64_max"
  by (auto simp: u64_saturate_def u64_max_def unat_of_nat)

lemma from_secs_pos [simp]: "0 < from_secs s \<longleftrightarrow> s \<noteq> 0"
  by (simp add: from_secs_def nanos_per_sec_def unat_gt_0)

lemma from_millis_pos [simp]: "0 < from_millis m \<longleftrightarrow> m \<noteq> 0"
  by (simp add: from_millis_def nanos_per_milli_def unat_gt_0)

lemma from_millis_le_iff [simp]: "from_millis a \<le> from_millis b \<longleftrightarrow> a \<le> b"
  by (simp add: from_millis_def nanos_per_milli_def word_le_nat_alt)

section \<open>Iterators\<close>

text \<open>\<open>Iterator::min_by_key\<close>: of several least elements the first one.\<close>

fun min_by_key :: "('a \<Rightarrow> 'k::linorder) \<Rightarrow> 'a list \<Rightarrow> 'a option" where
  "min_by_key f [] = None"
| "min_by_key f (x # xs) =
     (case min_by_key f xs of
        None \<Rightarrow> Some x
      | Some y \<Rightarrow> if f x \<le> f y then Some x else Some y)"

lemma min_by_key_None [simp]: "min_by_key f xs = None \<longleftrightarrow> xs = []"
  by (cases xs) (auto split: option.splits if_splits)

lemma min_by_key_SomeD:
  "min_by_key f xs = Some x \<Longrightarrow>
     \<exists>ys zs. xs = ys @ x # zs \<and> (\<forall>y\<in>set ys. f x < f y) \<and> (\<forall>z\<in>set zs. f x \<le> f z)"
proof (induction xs arbitrary: x)
  case Nil
  then show ?case by simp
next
  case (Cons a xs)
  show ?case
  proof (cases "min_by_key f xs")
    case None
    with Cons.prems have "x = a" "xs = []" by simp_all
    then show ?thesis by (intro exI[of _ "[]"]) auto
  next
    case (Some m)
    then obtain ys zs where split: "xs = ys @ m # zs"
      "\<forall>y\<in>set ys. f m < f y" "\<forall>z\<in>set zs. f m \<le> f z"
      using Cons.IH by blast
    show ?thesis
    proof (cases "f a \<le> f m")
      case True
      with Some Cons.prems have "x = a" by simp
      with True split show ?thesis
        by (intro exI[of _ "[]"] exI[of _ xs]) (auto intro: order_trans less_imp_le)
    next
      case False
      with Some Cons.prems have "x = m" by simp
      with False split show ?thesis
        by (intro exI[of _ "a # ys"] exI[of _ zs]) auto
    qed
  qed
qed

lemma min_by_key_mem: "min_by_key f xs = Some x \<Longrightarrow> x \<in> set xs"
  by (drule min_by_key_SomeD) auto

lemma min_by_key_least: "min_by_key f xs = Some x \<Longrightarrow> y \<in> set xs \<Longrightarrow> f x \<le> f y"
  by (drule min_by_key_SomeD) force

lemma min_by_key_filterD: "min_by_key f (filter P xs) = Some x \<Longrightarrow> x \<in> set xs \<and> P x"
  by (drule min_by_key_mem) simp

lemma min_by_key_append:
  "min_by_key f (xs @ ys) =
     (case min_by_key f xs of
        None \<Rightarrow> min_by_key f ys
      | Some x \<Rightarrow> (case min_by_key f ys of
                   None \<Rightarrow> Some x
                 | Some y \<Rightarrow> if f x \<le> f y then Some x else Some y))"
  by (induction xs) (auto split: option.splits if_splits)

lemma min_by_key_map: "min_by_key f (map g xs) = map_option g (min_by_key (f \<circ> g) xs)"
  by (induction xs) (auto split: option.splits)

lemma min_by_key_cong:
  "(\<And>x y. x \<in> set xs \<Longrightarrow> y \<in> set xs \<Longrightarrow> f x \<le> f y \<longleftrightarrow> g x \<le> g y) \<Longrightarrow>
     min_by_key f xs = min_by_key g xs"
proof (induction xs)
  case (Cons a xs)
  then have "min_by_key f xs = min_by_key g xs" by simp
  moreover have "f a \<le> f y \<longleftrightarrow> g a \<le> g y" if "min_by_key g xs = Some y" for y
    using Cons.prems min_by_key_mem[OF that] by simp
  ultimately show ?case by (auto split: option.splits)
qed simp

text \<open>\<open>Option::or_else\<close> and \<open>Option::or\<close>.\<close>

fun or_else :: "'a option \<Rightarrow> 'a option \<Rightarrow> 'a option" where
  "or_else (Some x) _ = Some x"
| "or_else None y = y"

lemma or_else_None_iff [simp]: "or_else a b = None \<longleftrightarrow> a = None \<and> b = None"
  by (cases a) auto

lemma or_else_Some_iff: "or_else a b = Some x \<longleftrightarrow> a = Some x \<or> (a = None \<and> b = Some x)"
  by (cases a) auto

lemma or_else_None_right [simp]: "or_else a None = a"
  by (cases a) auto

lemma find_SomeD: "find P xs = Some x \<Longrightarrow> x \<in> set xs \<and> P x"
  by (induction xs) (auto split: if_splits)

lemma find_None_iff_ball: "find P xs = None \<longleftrightarrow> (\<forall>x\<in>set xs. \<not> P x)"
  by (induction xs) auto

section \<open>Results\<close>

text \<open>
  A \<open>Result\<close> is a sum, \<open>Inl\<close> the error; \<open>and_then\<close> is the \<open>?\<close> operator, and
  \<open>bail_if\<close> is an \<open>if ... { bail!(...) }\<close> that lets the rest run otherwise.
\<close>

fun and_then :: "'e + 'a \<Rightarrow> ('a \<Rightarrow> 'e + 'b) \<Rightarrow> 'e + 'b" where
  "and_then (Inl e) f = Inl e"
| "and_then (Inr x) f = f x"

definition bail_if :: "bool \<Rightarrow> 'e \<Rightarrow> 'e + 'b \<Rightarrow> 'e + 'b" where
  "bail_if b e rest = (if b then Inl e else rest)"

lemma and_then_Inr_iff: "and_then m f = Inr y \<longleftrightarrow> (\<exists>x. m = Inr x \<and> f x = Inr y)"
  by (cases m) auto

lemma bail_if_Inr_iff: "bail_if b e r = Inr y \<longleftrightarrow> \<not> b \<and> r = Inr y"
  by (simp add: bail_if_def)

lemma bail_if_simps [simp]:
  "bail_if True e r = Inl e" "bail_if False e r = r"
  by (simp_all add: bail_if_def)

section \<open>Strings\<close>

definition starts_with :: "string \<Rightarrow> string \<Rightarrow> bool" where
  "starts_with p s \<longleftrightarrow> take (length p) s = p"

lemma starts_with_iff: "starts_with p s \<longleftrightarrow> (\<exists>r. s = p @ r)"
proof
  assume "starts_with p s"
  then show "\<exists>r. s = p @ r"
    unfolding starts_with_def by (metis append_take_drop_id)
qed (auto simp: starts_with_def)

fun str_contains :: "string \<Rightarrow> string \<Rightarrow> bool" where
  "str_contains p [] \<longleftrightarrow> p = []"
| "str_contains p (c # cs) \<longleftrightarrow> starts_with p (c # cs) \<or> str_contains p cs"

lemma str_contains_iff: "str_contains p s \<longleftrightarrow> (\<exists>a b. s = a @ p @ b)"
proof (induction s)
  case (Cons c cs)
  show ?case
  proof
    assume "str_contains p (c # cs)"
    then consider "starts_with p (c # cs)" | "str_contains p cs" by auto
    then show "\<exists>a b. c # cs = a @ p @ b"
    proof cases
      case 1
      then show ?thesis unfolding starts_with_iff by (metis append_Nil)
    next
      case 2
      then show ?thesis using Cons.IH by (metis append_Cons)
    qed
  next
    assume "\<exists>a b. c # cs = a @ p @ b"
    then obtain a b where ab: "c # cs = a @ p @ b" by blast
    show "str_contains p (c # cs)"
    proof (cases a)
      case Nil
      with ab have "starts_with p (c # cs)" unfolding starts_with_iff by auto
      then show ?thesis by simp
    next
      case (Cons d ds)
      with ab Cons.IH show ?thesis by auto
    qed
  qed
qed simp

text \<open>\<open>str::split_once\<close> at the first occurrence of a character.\<close>

fun split_once :: "char \<Rightarrow> string \<Rightarrow> (string \<times> string) option" where
  "split_once c [] = None"
| "split_once c (d # ds) =
     (if d = c then Some ([], ds)
      else map_option (\<lambda>(a, b). (d # a, b)) (split_once c ds))"

lemma split_once_None: "split_once c s = None \<longleftrightarrow> c \<notin> set s"
  by (induction s) auto

lemma split_once_Some:
  "split_once c s = Some (a, b) \<longleftrightarrow> s = a @ c # b \<and> c \<notin> set a"
proof (induction s arbitrary: a)
  case (Cons d ds)
  show ?case
  proof (cases a)
    case Nil
    then show ?thesis by auto
  next
    case (Cons e es)
    then show ?thesis using Cons.IH[of es] by auto
  qed
qed simp

definition ascii_lower :: "char \<Rightarrow> char" where
  "ascii_lower c =
     (if of_char c \<ge> (65 :: nat) \<and> of_char c \<le> (90 :: nat)
      then char_of (of_char c + 32 :: nat) else c)"

section \<open>Decimal numbers\<close>

definition digit_char :: "nat \<Rightarrow> char" where
  "digit_char d = char_of (48 + d)"

definition digit_val :: "char \<Rightarrow> nat option" where
  "digit_val c =
     (let n = of_char c :: nat in if 48 \<le> n \<and> n \<le> 57 then Some (n - 48) else None)"

fun show_nat :: "nat \<Rightarrow> string" where
  "show_nat n = (if n < 10 then [digit_char n] else show_nat (n div 10) @ [digit_char (n mod 10)])"

declare show_nat.simps [simp del]

text \<open>
  \<open>str::parse::<u64>\<close>: an optional leading \<open>+\<close>, at least one decimal digit, and an
  error as soon as the value leaves the range of the type.
\<close>

fun parse_digits :: "nat \<Rightarrow> string \<Rightarrow> nat option" where
  "parse_digits acc [] = Some acc"
| "parse_digits acc (c # cs) =
     (case digit_val c of
        None \<Rightarrow> None
      | Some d \<Rightarrow>
          (if acc * 10 + d \<le> u64_max then parse_digits (acc * 10 + d) cs else None))"

fun str_parse_u64 :: "string \<Rightarrow> u64 option" where
  "str_parse_u64 [] = None"
| "str_parse_u64 (c # cs) =
     (if c = CHR ''+''
      then (if cs = [] then None else map_option of_nat (parse_digits 0 cs))
      else map_option of_nat (parse_digits 0 (c # cs)))"

lemma digit_val_digit_char [simp]: "d < 10 \<Longrightarrow> digit_val (digit_char d) = Some d"
  by (simp add: digit_val_def digit_char_def)

lemma digit_char_not_plus [simp]: "d < 10 \<Longrightarrow> digit_char d \<noteq> CHR ''+''"
proof
  assume "d < 10" and "digit_char d = CHR ''+''"
  then have "digit_val (CHR ''+'') = Some d" by (metis digit_val_digit_char)
  then show False by (simp add: digit_val_def)
qed

lemma parse_digits_append:
  "parse_digits acc (xs @ ys) = Option.bind (parse_digits acc xs) (\<lambda>a. parse_digits a ys)"
  by (induction acc xs rule: parse_digits.induct) (auto split: option.splits)

lemma parse_digits_show_nat: "n \<le> u64_max \<Longrightarrow> parse_digits 0 (show_nat n) = Some n"
proof (induction n rule: show_nat.induct)
  case (1 n)
  show ?case
  proof (cases "n < 10")
    case True
    then show ?thesis using "1.prems" by (simp add: show_nat.simps[of n])
  next
    case False
    moreover have "n div 10 \<le> u64_max" using "1.prems" by linarith
    ultimately have "parse_digits 0 (show_nat (n div 10)) = Some (n div 10)"
      using "1.IH" by blast
    moreover have "n div 10 * 10 + n mod 10 = n" by simp
    ultimately show ?thesis using False "1.prems"
      by (simp add: show_nat.simps[of n] parse_digits_append)
  qed
qed

lemma show_nat_shape: "\<exists>d ds. show_nat n = digit_char d # ds \<and> d < 10"
proof (induction n rule: show_nat.induct)
  case (1 n)
  show ?case
  proof (cases "n < 10")
    case False
    with "1.IH" obtain d ds where "show_nat (n div 10) = digit_char d # ds" "d < 10" by blast
    with False show ?thesis by (auto simp: show_nat.simps[of n])
  qed (auto simp: show_nat.simps[of n])
qed

lemma str_parse_u64_show_nat: "n \<le> u64_max \<Longrightarrow> str_parse_u64 (show_nat n) = Some (of_nat n)"
  using show_nat_shape[of n] parse_digits_show_nat[of n] by auto

lemma show_nat_inj: "m \<le> u64_max \<Longrightarrow> n \<le> u64_max \<Longrightarrow> show_nat m = show_nat n \<Longrightarrow> m = n"
  by (metis option.inject parse_digits_show_nat)

end
