(* ===== verification/Async.thy ===== *)
theory Async
  imports Prelude
begin

text \<open>
  The asynchronous computations of the sources, as far as the runtime determines them.

  An \<open>async\<close> computation started at an instant yields a \<open>timeline\<close>: the effects it
  performs with their instants, and the instant and value of its completion (\<open>None\<close> when
  it never completes). \<open>await\<close> is \<open>.await\<close> followed by the rest of the block,
  \<open>sleep\<close> is \<open>tokio::time::sleep\<close>, \<open>timeout\<close> is \<open>tokio::time::timeout\<close>: the
  inner future is polled before the deadline is looked at, so a future that is ready at the
  deadline still counts, and a future that is not is dropped and performs no later effect.
  The model polls a future at the very instant at which it can make progress.
\<close>

section \<open>Timelines\<close>

type_synonym ('e, 'r) timeline = "(instant \<times> 'e) list \<times> (instant \<times> 'r) option"
type_synonym ('e, 'r) async = "instant \<Rightarrow> ('e, 'r) timeline"

definition ready :: "'r \<Rightarrow> ('e, 'r) async" where
  "ready r t = ([], Some (t, r))"

definition emit :: "'e \<Rightarrow> ('e, unit) async" where
  "emit e t = ([(t, e)], Some (t, ()))"

definition sleep :: "duration \<Rightarrow> ('e, unit) async" where
  "sleep d t = ([], Some (t + d, ()))"

definition await :: "('e, 'a) async \<Rightarrow> ('a \<Rightarrow> ('e, 'b) async) \<Rightarrow> ('e, 'b) async" where
  "await m k t =
     (case snd (m t) of
        None \<Rightarrow> (fst (m t), None)
      | Some (t', r) \<Rightarrow> (fst (m t) @ fst (k r t'), snd (k r t')))"

text \<open>The effects up to an instant, and those strictly before it.\<close>

definition effects_until :: "instant \<Rightarrow> (instant \<times> 'e) list \<Rightarrow> (instant \<times> 'e) list" where
  "effects_until T es = filter (\<lambda>(s, _). s \<le> T) es"

definition effects_before :: "instant \<Rightarrow> (instant \<times> 'e) list \<Rightarrow> (instant \<times> 'e) list" where
  "effects_before T es = filter (\<lambda>(s, _). s < T) es"

definition effects_from :: "instant \<Rightarrow> (instant \<times> 'e) list \<Rightarrow> (instant \<times> 'e) list" where
  "effects_from T es = filter (\<lambda>(s, _). T \<le> s) es"

definition effects_after :: "instant \<Rightarrow> (instant \<times> 'e) list \<Rightarrow> (instant \<times> 'e) list" where
  "effects_after T es = filter (\<lambda>(s, _). T < s) es"

definition timeout :: "duration \<Rightarrow> ('e, 'r) async \<Rightarrow> ('e, 'r option) async" where
  "timeout d m t =
     (case snd (m t) of
        Some (t', r) \<Rightarrow>
          (if t' \<le> t + d then (fst (m t), Some (t', Some r))
           else (effects_until (t + d) (fst (m t)), Some (t + d, None)))
      | None \<Rightarrow> (effects_until (t + d) (fst (m t)), Some (t + d, None)))"

text \<open>Two futures that make progress side by side: their effects in time order.\<close>

fun interleave :: "(instant \<times> 'e) list \<Rightarrow> (instant \<times> 'e) list \<Rightarrow> (instant \<times> 'e) list" where
  "interleave [] ys = ys"
| "interleave xs [] = xs"
| "interleave ((s, x) # xs) ((t, y) # ys) =
     (if s \<le> t then (s, x) # interleave xs ((t, y) # ys)
      else (t, y) # interleave ((s, x) # xs) ys)"

section \<open>Well-formed timelines\<close>

text \<open>Effects in time order, none before the start, none after the completion.\<close>

definition timeline_ok :: "instant \<Rightarrow> ('e, 'r) timeline \<Rightarrow> bool" where
  "timeline_ok t tln \<longleftrightarrow>
     sorted (map fst (fst tln)) \<and> (\<forall>s\<in>set (map fst (fst tln)). t \<le> s) \<and>
     (case snd tln of None \<Rightarrow> True
      | Some (t', _) \<Rightarrow> t \<le> t' \<and> (\<forall>s\<in>set (map fst (fst tln)). s \<le> t'))"

named_theorems async_ok \<open>computations with well-formed timelines\<close>

lemma ready_ok [async_ok]: "timeline_ok t (ready r t)"
  by (simp add: timeline_ok_def ready_def)

lemma emit_ok [async_ok]: "timeline_ok t (emit e t)"
  by (simp add: timeline_ok_def emit_def)

lemma sleep_ok [async_ok]: "timeline_ok t (sleep d t)"
  by (simp add: timeline_ok_def sleep_def)

lemma await_ok [async_ok]:
  assumes "timeline_ok t (m t)" and "\<And>r t'. timeline_ok t' (k r t')"
  shows "timeline_ok t (await m k t)"
proof (cases "snd (m t)")
  case None
  then show ?thesis using assms(1) by (simp add: timeline_ok_def await_def)
next
  case (Some p)
  obtain t' r where p: "p = (t', r)" by fastforce
  have k: "timeline_ok t' (k r t')" by (rule assms(2))
  have le: "x \<le> y"
    if "x \<in> fst ` set (fst (m t))" "y \<in> fst ` set (fst (k r t'))" for x y
    using that assms(1) k Some p by (fastforce simp: timeline_ok_def)
  have start: "t \<le> t'" using assms(1) Some p by (simp add: timeline_ok_def)
  show ?thesis
    using assms(1) k Some p start le
    by (fastforce simp: timeline_ok_def await_def sorted_append split: option.splits)
qed

lemma effects_until_subset: "set (effects_until T es) \<subseteq> set es"
  by (auto simp: effects_until_def)

lemma sorted_filter_fst: "sorted (map fst es) \<Longrightarrow> sorted (map fst (filter P es))"
  by (induction es) auto

lemma timeout_ok [async_ok]:
  assumes "timeline_ok t (m t)"
  shows "timeline_ok t (timeout d m t)"
proof -
  have "timeline_ok t (effects_until (t + d) (fst (m t)), Some (t + d, x))" for x :: "'b option"
    using assms by (auto simp: timeline_ok_def effects_until_def intro: sorted_filter_fst)
  then show ?thesis using assms
    by (auto simp: timeout_def timeline_ok_def split: option.splits)
qed

lemma timeline_okD:
  assumes "timeline_ok t tln"
  shows "(s, e) \<in> set (fst tln) \<Longrightarrow> t \<le> s"
    and "snd tln = Some (t', r) \<Longrightarrow> t \<le> t'"
    and "snd tln = Some (t', r) \<Longrightarrow> (s, e) \<in> set (fst tln) \<Longrightarrow> s \<le> t'"
  using assms by (auto simp: timeline_ok_def)

lemma set_interleave: "set (interleave xs ys) = set xs \<union> set ys"
  by (induction xs ys rule: interleave.induct) auto

lemma sorted_interleave:
  "sorted (map fst xs) \<Longrightarrow> sorted (map fst ys) \<Longrightarrow> sorted (map fst (interleave xs ys))"
  by (induction xs ys rule: interleave.induct) (auto simp: set_interleave)

section \<open>Computations that always complete in time\<close>

text \<open>
  \<open>bounded_task\<close> is what a caller relies on when it awaits a computation on a budget: it
  completes, and no later than \<open>B\<close> after its start.
\<close>

locale bounded_task =
  fixes m :: "('e, 'r) async" and B :: duration
  assumes completes: "\<exists>t' r. snd (m t) = Some (t', r) \<and> t' \<le> t + B"
    and ok: "timeline_ok t (m t)"
begin

lemma result: obtains t' r where "snd (m t) = Some (t', r)" "t \<le> t'" "t' \<le> t + B"
  using completes[of t] timeline_okD(2)[OF ok] by blast

lemma not_stuck: "snd (m t) \<noteq> None"
  using completes[of t] by auto

lemma effects_in_budget: "(s, e) \<in> set (fst (m t)) \<Longrightarrow> t \<le> s \<and> s \<le> t + B"
  using completes[of t] timeline_okD(1,3)[OF ok[of t]] by (meson order_trans)

lemma await_completes:
  assumes "\<And>r t'. \<exists>t'' r'. snd (k r t') = Some (t'', r') \<and> t'' \<le> t' + C"
  shows "\<exists>t'' r'. snd (await m k t) = Some (t'', r') \<and> t'' \<le> t + B + C"
proof -
  obtain t' r where m: "snd (m t) = Some (t', r)" "t' \<le> t + B" using completes by blast
  obtain t'' r' where "snd (k r t') = Some (t'', r')" "t'' \<le> t' + C" using assms by blast
  with m show ?thesis by (simp add: await_def)
qed

end

lemma timeout_bounded:
  assumes "\<And>t. timeline_ok t (m t)"
  shows "bounded_task (timeout d m) d"
proof
  fix t
  show "timeline_ok t (timeout d m t)" by (rule timeout_ok) (rule assms)
  show "\<exists>t' r. snd (timeout d m t) = Some (t', r) \<and> t' \<le> t + d"
    by (auto simp: timeout_def split: option.splits)
qed

interpretation sleeping: bounded_task "sleep d :: ('e, unit) async" d for d
  by unfold_locales (auto simp: sleep_def timeline_ok_def)

interpretation emitting: bounded_task "emit e" 0 for e
  by unfold_locales (auto simp: emit_def timeline_ok_def)

text \<open>Completion before the budget is a completion of the inner computation.\<close>

lemma timeout_Some:
  "snd (timeout d m t) = Some (t', Some r) \<longleftrightarrow> snd (m t) = Some (t', r) \<and> t' \<le> t + d"
  by (auto simp: timeout_def split: option.splits if_splits)

lemma timeout_None:
  "snd (timeout d m t) = Some (t', None) \<longleftrightarrow>
     t' = t + d \<and> (\<forall>t'' r. snd (m t) = Some (t'', r) \<longrightarrow> t + d < t'')"
  by (auto simp: timeout_def split: option.splits if_splits)

lemma timeout_effects_subset: "set (fst (timeout d m t)) \<subseteq> set (fst (m t))"
  by (auto simp: timeout_def effects_until_def split: option.splits)

lemma await_simps:
  "snd (m t) = Some (t', r) \<Longrightarrow> await m k t = (fst (m t) @ fst (k r t'), snd (k r t'))"
  "snd (m t) = None \<Longrightarrow> await m k t = (fst (m t), None)"
  by (simp_all add: await_def)

lemma await_emit [simp]: "await (emit e) k t = ((t, e) # fst (k () t), snd (k () t))"
  by (simp add: await_def emit_def)

lemma await_sleep [simp]: "await (sleep d) k t = k () (t + d)"
  by (simp add: await_def sleep_def)

lemma await_ready [simp]: "await (ready r) k t = k r t"
  by (simp add: await_def ready_def)

end
