(* ===== verification/Net.thy ===== *)
theory Net
  imports Prelude
begin

text \<open>
  \<open>std::net::SocketAddr\<close>, as far as the sources use it: equality, and the text that
  \<open>Display\<close> prints, which the proxy puts into upstream URLs and into the
  \<open>x-bge-router-upstream\<close> header.
\<close>

datatype socket_addr =
    V4 u8 u8 u8 u8 u16              \<comment> \<open>four octets and a port\<close>
  | V6 "128 word" u16 u32 u32       \<comment> \<open>address, port, flow information, scope id\<close>

section \<open>IPv4\<close>

definition show_ipv4 :: "u8 \<Rightarrow> u8 \<Rightarrow> u8 \<Rightarrow> u8 \<Rightarrow> string" where
  "show_ipv4 a b c d =
     show_nat (unat a) @ ''.'' @ show_nat (unat b) @ ''.'' @
     show_nat (unat c) @ ''.'' @ show_nat (unat d)"

section \<open>IPv6\<close>

text \<open>The eight 16-bit segments, most significant first.\<close>

definition segments :: "128 word \<Rightarrow> u16 list" where
  "segments w = map (\<lambda>i. ucast (drop_bit (16 * (7 - i)) w)) [0..<8]"

definition hex_char :: "nat \<Rightarrow> char" where
  "hex_char d = (if d < 10 then char_of (48 + d) else char_of (87 + d))"

fun show_hex :: "nat \<Rightarrow> string" where
  "show_hex n = (if n < 16 then [hex_char n] else show_hex (n div 16) @ [hex_char (n mod 16)])"

declare show_hex.simps [simp del]

fun fmt_subslice :: "u16 list \<Rightarrow> string" where
  "fmt_subslice [] = []"
| "fmt_subslice [x] = show_hex (unat x)"
| "fmt_subslice (x # xs) = show_hex (unat x) @ '':'' @ fmt_subslice xs"

text \<open>The longest run of zero segments, the first one of several: start and length.\<close>

fun zero_run :: "nat \<Rightarrow> nat \<times> nat \<Rightarrow> nat \<times> nat \<Rightarrow> u16 list \<Rightarrow> nat \<times> nat" where
  "zero_run i cur longest [] = longest"
| "zero_run i (cs, cl) (ls, ll) (x # xs) =
     (if x = 0
      then let cs' = (if cl = 0 then i else cs); cl' = Suc cl
           in zero_run (Suc i) (cs', cl') (if ll < cl' then (cs', cl') else (ls, ll)) xs
      else zero_run (Suc i) (0, 0) (ls, ll) xs)"

definition show_ipv6 :: "128 word \<Rightarrow> string" where
  "show_ipv6 w =
     (let ss = segments w
      in if take 6 ss = [0, 0, 0, 0, 0, 0xffff]
         then ''::ffff:'' @ show_ipv4 (ucast (drop_bit 24 w)) (ucast (drop_bit 16 w))
                                      (ucast (drop_bit 8 w)) (ucast w)
         else let (start, len) = zero_run 0 (0, 0) (0, 0) ss
              in if 1 < len
                 then fmt_subslice (take start ss) @ ''::'' @ fmt_subslice (drop (start + len) ss)
                 else fmt_subslice ss)"

section \<open>Display of a socket address\<close>

fun show_addr :: "socket_addr \<Rightarrow> string" where
  "show_addr (V4 a b c d p) = show_ipv4 a b c d @ '':'' @ show_nat (unat p)"
| "show_addr (V6 w p f s) =
     (if s = 0 then ''['' @ show_ipv6 w @ '']:'' @ show_nat (unat p)
      else ''['' @ show_ipv6 w @ ''%'' @ show_nat (unat s) @ '']:'' @ show_nat (unat p))"

section \<open>Distinct IPv4 addresses print differently\<close>

lemma digit_char_neq:
  assumes "d < 10"
  shows "digit_char d \<noteq> CHR ''.''" and "digit_char d \<noteq> CHR '':''"
    and "digit_char d \<noteq> CHR ''[''"
proof -
  have "digit_val (digit_char d) \<noteq> None" using assms by simp
  moreover have "digit_val (CHR ''.'') = None" "digit_val (CHR '':'') = None"
    "digit_val (CHR ''['') = None" by (simp_all add: digit_val_def)
  ultimately show "digit_char d \<noteq> CHR ''.''" and "digit_char d \<noteq> CHR '':''"
    and "digit_char d \<noteq> CHR ''[''" by metis+
qed

lemma show_nat_no_sep: "CHR ''.'' \<notin> set (show_nat n)" "CHR '':'' \<notin> set (show_nat n)"
proof (induction n rule: show_nat.induct)
  case (1 n)
  { case 1
    from "1.IH" show ?case
      by (subst show_nat.simps) (auto simp: digit_char_neq[THEN not_sym]) }
  { case 2
    from "1.IH" show ?case
      by (subst show_nat.simps) (auto simp: digit_char_neq[THEN not_sym]) }
qed

lemma split_at_sep:
  fixes c :: char
  assumes "c \<notin> set a" and "c \<notin> set b" and "a @ c # x = b @ c # y"
  shows "a = b \<and> x = y"
proof -
  have "split_once c (a @ c # x) = Some (a, x)" and "split_once c (b @ c # y) = Some (b, y)"
    using assms(1,2) unfolding split_once_Some by blast+
  with assms(3) have "Some (a, x) = Some (b, y)" by metis
  then show ?thesis by blast
qed

lemma show_nat_word_inj:
  fixes a b :: "'n::len word"
  assumes "LENGTH('n) \<le> 64" and "show_nat (unat a) = show_nat (unat b)"
  shows "a = b"
proof -
  have le: "unat w \<le> u64_max" for w :: "'n word"
  proof -
    have "unat w < 2 ^ LENGTH('n)" by (rule unsigned_less)
    also have "\<dots> \<le> 2 ^ 64" using assms(1) by (rule power_increasing) simp
    finally show ?thesis by (simp add: u64_max_def)
  qed
  have "unat a = unat b" using show_nat_inj[OF le le assms(2)] .
  then show ?thesis by (simp only: unsigned_word_eqI)
qed

lemma show_addr_V4_inj:
  assumes "show_addr (V4 a b c d p) = show_addr (V4 a' b' c' d' p')"
  shows "V4 a b c d p = V4 a' b' c' d' p'"
proof -
  note [simp] = show_nat_no_sep
  have eq: "show_nat (unat a) @ CHR ''.'' # show_nat (unat b) @ CHR ''.'' #
      show_nat (unat c) @ CHR ''.'' # show_nat (unat d) @ CHR '':'' # show_nat (unat p) =
    show_nat (unat a') @ CHR ''.'' # show_nat (unat b') @ CHR ''.'' #
      show_nat (unat c') @ CHR ''.'' # show_nat (unat d') @ CHR '':'' # show_nat (unat p')"
    using assms by (simp add: show_ipv4_def)
  from split_at_sep[OF _ _ eq]
  have 1: "show_nat (unat a) = show_nat (unat a')" and eq1:
    "show_nat (unat b) @ CHR ''.'' #
      show_nat (unat c) @ CHR ''.'' # show_nat (unat d) @ CHR '':'' # show_nat (unat p) =
     show_nat (unat b') @ CHR ''.'' #
      show_nat (unat c') @ CHR ''.'' # show_nat (unat d') @ CHR '':'' # show_nat (unat p')"
    by simp_all
  from split_at_sep[OF _ _ eq1]
  have 2: "show_nat (unat b) = show_nat (unat b')" and eq2:
    "show_nat (unat c) @ CHR ''.'' # show_nat (unat d) @ CHR '':'' # show_nat (unat p) =
     show_nat (unat c') @ CHR ''.'' # show_nat (unat d') @ CHR '':'' # show_nat (unat p')"
    by simp_all
  from split_at_sep[OF _ _ eq2]
  have 3: "show_nat (unat c) = show_nat (unat c')" and eq3:
    "show_nat (unat d) @ CHR '':'' # show_nat (unat p) =
     show_nat (unat d') @ CHR '':'' # show_nat (unat p')"
    by simp_all
  from split_at_sep[OF _ _ eq3]
  have 4: "show_nat (unat d) = show_nat (unat d')"
    and 5: "show_nat (unat p) = show_nat (unat p')" by simp_all
  from 1 2 3 4 5 show ?thesis by (auto dest: show_nat_word_inj[rotated])
qed

lemma show_addr_kind: "show_addr (V4 a b c d p) \<noteq> show_addr (V6 w q f s)"
proof
  assume "show_addr (V4 a b c d p) = show_addr (V6 w q f s)"
  moreover obtain e es where "show_nat (unat a) = digit_char e # es" "e < 10"
    using show_nat_shape by blast
  ultimately have "digit_char e = CHR ''[''"
    by (simp add: show_ipv4_def split: if_splits)
  with \<open>e < 10\<close> show False by (simp add: digit_char_neq)
qed

end
