(* ===== verification/Snapshot.thy ===== *)
theory Snapshot
  imports Net
begin

text \<open>
  \<open>src/upstream/snapshot.rs\<close>: the data model shared by every component. A
  \<open>pool_snapshot\<close> holds the GPU and the CPU upstreams; it is replaced as a whole in the
  shared cell. Every operation on snapshots is a function on these records.
\<close>

section \<open>Data\<close>

datatype upstream_scheme = Http | Https

fun scheme_as_str :: "upstream_scheme \<Rightarrow> string" where
  "scheme_as_str Http = ''http''"
| "scheme_as_str Https = ''https''"

definition fmt_scheme :: "upstream_scheme \<Rightarrow> string" where
  "fmt_scheme s = scheme_as_str s"

datatype pool_type = Gpu | Cpu

fun pool_as_str :: "pool_type \<Rightarrow> string" where
  "pool_as_str Gpu = ''gpu''"
| "pool_as_str Cpu = ''cpu''"

datatype upstream_status = Ok | Loading | Fail | Unknown

definition parse_status :: "string \<Rightarrow> upstream_status" where
  "parse_status s =
     (if s = ''ok'' \<or> s = ''warn'' then Ok
      else if s = ''loading'' \<or> s = ''idle'' then Loading
      else if s = ''fail'' then Fail
      else Unknown)"

record upstream_info =
  addr :: socket_addr
  pool_type :: pool_type
  status :: upstream_status
  queue_depth :: u32
  live_workers :: u32
  last_seen :: instant
  cooldown_until :: "instant option"

definition is_in_cooldown :: "upstream_info \<Rightarrow> instant \<Rightarrow> bool" where
  "is_in_cooldown u now = (case cooldown_until u of None \<Rightarrow> False | Some until \<Rightarrow> now < until)"

record pool_snapshot =
  gpu :: "upstream_info list"
  cpu :: "upstream_info list"
  updated_at :: instant

definition default_snapshot :: "instant \<Rightarrow> pool_snapshot" where
  "default_snapshot now = \<lparr>gpu = [], cpu = [], updated_at = now\<rparr>"

type_synonym pool = "upstream_info list"

section \<open>Abbreviations and well-formedness\<close>

text \<open>All upstreams of a snapshot, in the order \<open>gpu.iter().chain(cpu.iter())\<close> yields them.\<close>

abbreviation upstreams :: "pool_snapshot \<Rightarrow> upstream_info list" where
  "upstreams s \<equiv> gpu s @ cpu s"

abbreviation addrs_of :: "pool \<Rightarrow> socket_addr list" where
  "addrs_of p \<equiv> map addr p"

text \<open>
  The type invariant of a snapshot: the upstreams of each vector carry the tag of that
  vector. Every writer of the shared cell keeps it.
\<close>

definition typed_pool :: "pool_type \<Rightarrow> pool \<Rightarrow> bool" where
  "typed_pool t p \<longleftrightarrow> (\<forall>u\<in>set p. pool_type u = t)"

definition typed_snapshot :: "pool_snapshot \<Rightarrow> bool" where
  "typed_snapshot s \<longleftrightarrow> typed_pool Gpu (gpu s) \<and> typed_pool Cpu (cpu s)"

lemma typed_pool_simps [simp]:
  "typed_pool t []"
  "typed_pool t (u # us) \<longleftrightarrow> pool_type u = t \<and> typed_pool t us"
  by (auto simp: typed_pool_def)

lemma typed_poolD: "typed_pool t p \<Longrightarrow> u \<in> set p \<Longrightarrow> pool_type u = t"
  by (simp add: typed_pool_def)

lemma typed_pool_map:
  "typed_pool t p \<Longrightarrow> (\<And>u. pool_type (f u) = pool_type u) \<Longrightarrow> typed_pool t (map f p)"
  by (simp add: typed_pool_def)

lemma default_snapshot_typed [wf_intros]: "typed_snapshot (default_snapshot now)"
  by (simp add: typed_snapshot_def default_snapshot_def)

text \<open>Cooldown ends by itself: once it is over it stays over.\<close>

lemma is_in_cooldown_antimono: "is_in_cooldown u t' \<Longrightarrow> t \<le> t' \<Longrightarrow> is_in_cooldown u t"
  by (auto simp: is_in_cooldown_def split: option.splits)

lemma is_in_cooldown_set [simp]:
  "is_in_cooldown (u\<lparr>cooldown_until := Some v\<rparr>) t \<longleftrightarrow> t < v"
  by (simp add: is_in_cooldown_def)

lemma is_in_cooldown_None [simp]: "cooldown_until u = None \<Longrightarrow> \<not> is_in_cooldown u t"
  by (simp add: is_in_cooldown_def)

section \<open>The contract of a snapshot writer\<close>

text \<open>
  Three operations replace the shared snapshot: a DNS merge, a round of health updates and
  a circuit-breaker trip. \<open>snapshot_writer\<close> is what every one of them promises.
  \<open>membership_writer\<close> adds the promise of the two that never add or remove an
  upstream.
\<close>

locale snapshot_writer =
  fixes wr :: "pool_snapshot \<Rightarrow> pool_snapshot"
  assumes wr_typed: "typed_snapshot s \<Longrightarrow> typed_snapshot (wr s)"
begin

lemma iterate_typed: "typed_snapshot s \<Longrightarrow> typed_snapshot ((wr ^^ n) s)"
  by (induction n) (auto intro: wr_typed)

lemma wr_gpu_tag: "typed_snapshot s \<Longrightarrow> u \<in> set (gpu (wr s)) \<Longrightarrow> pool_type u = Gpu"
  using wr_typed by (auto simp: typed_snapshot_def dest: typed_poolD)

lemma wr_cpu_tag: "typed_snapshot s \<Longrightarrow> u \<in> set (cpu (wr s)) \<Longrightarrow> pool_type u = Cpu"
  using wr_typed by (auto simp: typed_snapshot_def dest: typed_poolD)

end

locale membership_writer = snapshot_writer +
  assumes wr_gpu_addrs: "addrs_of (gpu (wr s)) = addrs_of (gpu s)"
    and wr_cpu_addrs: "addrs_of (cpu (wr s)) = addrs_of (cpu s)"
begin

lemma wr_sizes: "length (gpu (wr s)) = length (gpu s)" "length (cpu (wr s)) = length (cpu s)"
  using wr_gpu_addrs[of s] wr_cpu_addrs[of s] by (metis length_map)+

lemma wr_upstream_addrs: "addrs_of (upstreams (wr s)) = addrs_of (upstreams s)"
  by (simp add: wr_gpu_addrs wr_cpu_addrs)

lemma iterate_gpu_addrs: "addrs_of (gpu ((wr ^^ n) s)) = addrs_of (gpu s)"
  by (induction n) (simp_all add: wr_gpu_addrs)

end

text \<open>The two empty-pool facts of a fresh process.\<close>

lemma default_snapshot_upstreams [simp]: "upstreams (default_snapshot now) = []"
  by (simp add: default_snapshot_def)

section \<open>Status strings\<close>

lemma parse_status_cases:
  "parse_status s = Ok \<longleftrightarrow> s \<in> {''ok'', ''warn''}"
  "parse_status s = Loading \<longleftrightarrow> s \<in> {''loading'', ''idle''}"
  "parse_status s = Fail \<longleftrightarrow> s = ''fail''"
  by (auto simp: parse_status_def)

section \<open>A concrete snapshot\<close>

definition demo_addr :: socket_addr where "demo_addr = V4 10 0 0 1 8081"
definition demo_addr2 :: socket_addr where "demo_addr2 = V4 10 0 0 2 8081"
definition demo_addr3 :: socket_addr where "demo_addr3 = V4 10 0 1 1 8081"

definition demo_upstream :: "socket_addr \<Rightarrow> pool_type \<Rightarrow> u32 \<Rightarrow> upstream_info" where
  "demo_upstream a t depth =
     \<lparr>addr = a, pool_type = t, status = Ok, queue_depth = depth, live_workers = 1,
      last_seen = 0, cooldown_until = None\<rparr>"

definition demo_snapshot :: pool_snapshot where
  "demo_snapshot =
     \<lparr>gpu = [demo_upstream demo_addr Gpu 1, demo_upstream demo_addr2 Gpu 2],
      cpu = [demo_upstream demo_addr3 Cpu 0], updated_at = 0\<rparr>"

end
