(* ===== verification/Config.thy ===== *)
theory Config
  imports Snapshot
begin

text \<open>
  \<open>src/config.rs\<close>: the configuration, read from a lookup function. The environment is the
  argument \<open>lookup\<close>; an error is its message. \<open>and_then\<close> and \<open>bail_if\<close> are the \<open>?\<close>
  operator and \<open>if ... { bail!(...) }\<close>, so the checks run in the order of the source.
\<close>

section \<open>Constants and data\<close>

definition default_hedge_delay_ms :: u64 where "default_hedge_delay_ms = 5000"
definition default_control_timeout_ms :: u64 where "default_control_timeout_ms = 1000"
definition default_retry_count :: u64 where "default_retry_count = 3"
definition default_retry_initial_backoff_ms :: u64 where "default_retry_initial_backoff_ms = 100"
definition default_retry_max_backoff_ms :: u64 where "default_retry_max_backoff_ms = 1000"
definition default_cooldown_secs :: u64 where "default_cooldown_secs = 30"
definition max_retry_count :: u32 where "max_retry_count = 20"

lemmas default_defs = default_hedge_delay_ms_def default_control_timeout_ms_def
  default_retry_count_def default_retry_initial_backoff_ms_def
  default_retry_max_backoff_ms_def default_cooldown_secs_def

record retry_config =
  max_retries :: u32
  initial_backoff :: duration
  max_backoff :: duration
  rc_cooldown :: duration

record config =
  bind_addr :: string
  gpu_dns :: string
  cpu_dns :: string
  dns_refresh :: duration
  health_poll :: duration
  hedge_delay :: duration
  control_timeout :: duration
  retry_count :: u32
  retry_initial_backoff :: duration
  retry_max_backoff :: duration
  cooldown :: duration
  legacy_fallback_budget_set :: bool
  heartbeat :: duration
  tls_cert_path :: "string option"
  tls_key_path :: "string option"
  upstream_ca_bundle :: "string option"
  upstream_tls :: bool

type_synonym lookup = "string \<Rightarrow> string option"

section \<open>Operations\<close>

definition not_an_integer :: "string \<Rightarrow> string" where
  "not_an_integer key = ''invalid '' @ key @ '': expected a non-negative integer''"

definition parse_u64 :: "string \<Rightarrow> u64 \<Rightarrow> lookup \<Rightarrow> string + u64" where
  "parse_u64 key dflt lookup =
     (case lookup key of
        Some val \<Rightarrow>
          (case str_parse_u64 val of Some v \<Rightarrow> Inr v | None \<Rightarrow> Inl (not_an_integer key))
      | None \<Rightarrow> Inr dflt)"

definition parse_optional_u64 :: "string \<Rightarrow> lookup \<Rightarrow> string + u64 option" where
  "parse_optional_u64 key lookup =
     (case lookup key of
        Some val \<Rightarrow>
          (case str_parse_u64 val of Some v \<Rightarrow> Inr (Some v) | None \<Rightarrow> Inl (not_an_integer key))
      | None \<Rightarrow> Inr None)"

definition u32_try_from :: "u64 \<Rightarrow> u32 option" where
  "u32_try_from w = (if unat w < 2 ^ 32 then Some (ucast w) else None)"

definition unwrap_or :: "'a option \<Rightarrow> 'a \<Rightarrow> 'a" where
  "unwrap_or x d = (case x of Some v \<Rightarrow> v | None \<Rightarrow> d)"

definition tls_enabled :: "string option \<Rightarrow> bool" where
  "tls_enabled v =
     (case v of None \<Rightarrow> False
      | Some s \<Rightarrow> map ascii_lower s \<in> {''1'', ''true'', ''yes''})"

definition must_be_positive :: "string \<Rightarrow> string" where
  "must_be_positive key = ''invalid '' @ key @ '': must be > 0 (got 0)''"

definition too_many_retries :: "u32 \<Rightarrow> string" where
  "too_many_retries n =
     ''invalid BGE_ROUTER_RETRY_COUNT: '' @ show_nat (unat n) @ '' exceeds maximum of '' @
     show_nat (unat max_retry_count)"

definition from_lookup :: "lookup \<Rightarrow> string + config" where
  "from_lookup lookup =
     (let bind = unwrap_or (lookup ''BGE_ROUTER_BIND'') ''0.0.0.0:8081'';
          gdns = unwrap_or (lookup ''BGE_ROUTER_GPU_DNS'') ''bge-m3-gpu'';
          cdns = unwrap_or (lookup ''BGE_ROUTER_CPU_DNS'') ''bge-m3-cpu'' in
      and_then (parse_u64 ''BGE_ROUTER_DNS_REFRESH_SECS'' 30 lookup) (\<lambda>dns_refresh_secs.
      and_then (parse_u64 ''BGE_ROUTER_HEALTH_POLL_SECS'' 5 lookup) (\<lambda>health_poll_secs.
      and_then (parse_u64 ''BGE_ROUTER_HEARTBEAT_SECS'' 60 lookup) (\<lambda>heartbeat_secs.
      and_then (parse_optional_u64 ''BGE_ROUTER_FALLBACK_BUDGET_MS'' lookup) (\<lambda>legacy_raw.
      and_then (parse_optional_u64 ''BGE_ROUTER_HEDGE_DELAY_MS'' lookup) (\<lambda>hedge_raw.
      let hedge_delay_ms =
        (case hedge_raw of Some v \<Rightarrow> v
         | None \<Rightarrow> unwrap_or legacy_raw default_hedge_delay_ms) in
      bail_if (hedge_delay_ms = 0) (must_be_positive ''BGE_ROUTER_HEDGE_DELAY_MS'') (
      and_then (parse_u64 ''BGE_ROUTER_CONTROL_TIMEOUT_MS'' default_control_timeout_ms lookup)
        (\<lambda>control_timeout_ms.
      bail_if (control_timeout_ms = 0) (must_be_positive ''BGE_ROUTER_CONTROL_TIMEOUT_MS'') (
      and_then (parse_u64 ''BGE_ROUTER_RETRY_COUNT'' default_retry_count lookup) (\<lambda>retry_count_raw.
      and_then (case u32_try_from retry_count_raw of
                  Some n \<Rightarrow> Inr n
                | None \<Rightarrow> Inl ''invalid BGE_ROUTER_RETRY_COUNT: value exceeds u32::MAX'')
        (\<lambda>retries.
      bail_if (max_retry_count < retries) (too_many_retries retries) (
      and_then (parse_u64 ''BGE_ROUTER_RETRY_INITIAL_BACKOFF_MS''
                  default_retry_initial_backoff_ms lookup) (\<lambda>retry_initial_backoff_ms.
      bail_if (retry_initial_backoff_ms = 0)
        (must_be_positive ''BGE_ROUTER_RETRY_INITIAL_BACKOFF_MS'') (
      and_then (parse_u64 ''BGE_ROUTER_RETRY_MAX_BACKOFF_MS''
                  default_retry_max_backoff_ms lookup) (\<lambda>retry_max_backoff_ms.
      bail_if (retry_max_backoff_ms < retry_initial_backoff_ms)
        ''invalid BGE_ROUTER_RETRY_MAX_BACKOFF_MS: must be >= BGE_ROUTER_RETRY_INITIAL_BACKOFF_MS'' (
      and_then (parse_u64 ''BGE_ROUTER_COOLDOWN_SECS'' default_cooldown_secs lookup) (\<lambda>cooldown_secs.
      let cert = lookup ''BGE_ROUTER_TLS_CERT_PATH'';
          key = lookup ''BGE_ROUTER_TLS_KEY_PATH'' in
      bail_if ((cert = None) \<noteq> (key = None))
        (''TLS misconfiguration: BGE_ROUTER_TLS_CERT_PATH and '' @
         ''BGE_ROUTER_TLS_KEY_PATH must both be set or both be absent'') (
      Inr \<lparr>bind_addr = bind, gpu_dns = gdns, cpu_dns = cdns,
           dns_refresh = from_secs dns_refresh_secs,
           health_poll = from_secs health_poll_secs,
           hedge_delay = from_millis hedge_delay_ms,
           control_timeout = from_millis control_timeout_ms,
           retry_count = retries,
           retry_initial_backoff = from_millis retry_initial_backoff_ms,
           retry_max_backoff = from_millis retry_max_backoff_ms,
           cooldown = from_secs cooldown_secs,
           legacy_fallback_budget_set = (legacy_raw \<noteq> None),
           heartbeat = from_secs heartbeat_secs,
           tls_cert_path = cert, tls_key_path = key,
           upstream_ca_bundle = lookup ''BGE_ROUTER_UPSTREAM_CA_BUNDLE'',
           upstream_tls = tls_enabled (lookup ''BGE_ROUTER_UPSTREAM_TLS'')\<rparr>))))))))))))))))))"

text \<open>\<open>std::env::var(key).ok()\<close> is the lookup of the process environment.\<close>

definition from_env :: "lookup \<Rightarrow> string + config" where
  "from_env env_var = from_lookup (\<lambda>key. env_var key)"

definition retry_config_of :: "config \<Rightarrow> retry_config" where
  "retry_config_of c =
     \<lparr>max_retries = retry_count c, initial_backoff = retry_initial_backoff c,
      max_backoff = retry_max_backoff c, rc_cooldown = cooldown c\<rparr>"

definition upstream_scheme_of :: "config \<Rightarrow> upstream_scheme" where
  "upstream_scheme_of c = (if upstream_tls c then Https else Http)"

section \<open>What an accepted configuration satisfies\<close>

lemma parse_u64_Inr_iff:
  "parse_u64 key d l = Inr v \<longleftrightarrow>
     (l key = None \<and> v = d) \<or> (\<exists>s. l key = Some s \<and> str_parse_u64 s = Some v)"
  by (auto simp: parse_u64_def split: option.splits)

lemma parse_optional_u64_Inr_iff:
  "parse_optional_u64 key l = Inr v \<longleftrightarrow>
     (l key = None \<and> v = None) \<or> (\<exists>s w. l key = Some s \<and> str_parse_u64 s = Some w \<and> v = Some w)"
  by (auto simp: parse_optional_u64_def split: option.splits)

definition config_ok :: "config \<Rightarrow> bool" where
  "config_ok c \<longleftrightarrow>
     0 < hedge_delay c \<and> 0 < control_timeout c \<and> retry_count c \<le> max_retry_count \<and>
     0 < retry_initial_backoff c \<and> retry_initial_backoff c \<le> retry_max_backoff c \<and>
     (tls_cert_path c = None \<longleftrightarrow> tls_key_path c = None)"

text \<open>The values a successful run reads, one by one.\<close>

lemma from_lookup_InrE:
  assumes "from_lookup l = Inr c"
  obtains dns hp hb legacy hedge ctl rc ri rm cd where
    "parse_u64 ''BGE_ROUTER_DNS_REFRESH_SECS'' 30 l = Inr dns"
    "parse_u64 ''BGE_ROUTER_HEALTH_POLL_SECS'' 5 l = Inr hp"
    "parse_u64 ''BGE_ROUTER_HEARTBEAT_SECS'' 60 l = Inr hb"
    "parse_optional_u64 ''BGE_ROUTER_FALLBACK_BUDGET_MS'' l = Inr legacy"
    "parse_optional_u64 ''BGE_ROUTER_HEDGE_DELAY_MS'' l = Inr hedge"
    "parse_u64 ''BGE_ROUTER_CONTROL_TIMEOUT_MS'' default_control_timeout_ms l = Inr ctl"
    "parse_u64 ''BGE_ROUTER_RETRY_COUNT'' default_retry_count l = Inr rc"
    "parse_u64 ''BGE_ROUTER_RETRY_INITIAL_BACKOFF_MS'' default_retry_initial_backoff_ms l = Inr ri"
    "parse_u64 ''BGE_ROUTER_RETRY_MAX_BACKOFF_MS'' default_retry_max_backoff_ms l = Inr rm"
    "parse_u64 ''BGE_ROUTER_COOLDOWN_SECS'' default_cooldown_secs l = Inr cd"
    "dns_refresh c = from_secs dns" "health_poll c = from_secs hp" "heartbeat c = from_secs hb"
    "legacy_fallback_budget_set c \<longleftrightarrow> legacy \<noteq> None"
    "hedge_delay c = from_millis (case hedge of Some v \<Rightarrow> v
       | None \<Rightarrow> unwrap_or legacy default_hedge_delay_ms)"
    "control_timeout c = from_millis ctl" "cooldown c = from_secs cd"
    "u32_try_from rc = Some (retry_count c)"
    "retry_initial_backoff c = from_millis ri" "retry_max_backoff c = from_millis rm"
    "tls_cert_path c = l ''BGE_ROUTER_TLS_CERT_PATH''"
    "tls_key_path c = l ''BGE_ROUTER_TLS_KEY_PATH''"
    "upstream_tls c \<longleftrightarrow> tls_enabled (l ''BGE_ROUTER_UPSTREAM_TLS'')"
    "config_ok c"
proof -
  have *: "(case x of Some n \<Rightarrow> Inr n | None \<Rightarrow> Inl e) = Inr m \<longleftrightarrow> x = Some m"
    for x :: "u32 option" and e :: string and m
    by (cases x) auto
  from assms show thesis
    unfolding from_lookup_def Let_def and_then_Inr_iff bail_if_Inr_iff * sum.inject
    by (elim exE conjE, hypsubst) (rule that; (assumption | simp add: config_ok_def not_less))
qed

section \<open>The configuration of an empty environment\<close>

definition default_config :: config where
  "default_config =
     \<lparr>bind_addr = ''0.0.0.0:8081'', gpu_dns = ''bge-m3-gpu'', cpu_dns = ''bge-m3-cpu'',
      dns_refresh = from_secs 30, health_poll = from_secs 5,
      hedge_delay = from_millis 5000, control_timeout = from_millis 1000,
      retry_count = 3, retry_initial_backoff = from_millis 100,
      retry_max_backoff = from_millis 1000, cooldown = from_secs 30,
      legacy_fallback_budget_set = False, heartbeat = from_secs 60,
      tls_cert_path = None, tls_key_path = None, upstream_ca_bundle = None, upstream_tls = False\<rparr>"

lemma from_lookup_empty: "from_lookup (\<lambda>_. None) = Inr default_config"
  by (simp add: from_lookup_def parse_u64_def parse_optional_u64_def default_defs unwrap_or_def
      u32_try_from_def max_retry_count_def bail_if_def default_config_def tls_enabled_def Let_def)

section \<open>Writing a configuration as an environment\<close>

text \<open>
  Every variable is set but the optional paths and the TLS switch; a recorded legacy variable
  is written with the hedge delay, which the new variable overrides.
\<close>

definition env_of :: "config \<Rightarrow> lookup" where
  "env_of c = map_of
     ([(''BGE_ROUTER_BIND'', bind_addr c), (''BGE_ROUTER_GPU_DNS'', gpu_dns c),
       (''BGE_ROUTER_CPU_DNS'', cpu_dns c),
       (''BGE_ROUTER_DNS_REFRESH_SECS'', show_nat (as_secs (dns_refresh c))),
       (''BGE_ROUTER_HEALTH_POLL_SECS'', show_nat (as_secs (health_poll c))),
       (''BGE_ROUTER_HEARTBEAT_SECS'', show_nat (as_secs (heartbeat c))),
       (''BGE_ROUTER_HEDGE_DELAY_MS'', show_nat (as_millis (hedge_delay c))),
       (''BGE_ROUTER_CONTROL_TIMEOUT_MS'', show_nat (as_millis (control_timeout c))),
       (''BGE_ROUTER_RETRY_COUNT'', show_nat (unat (retry_count c))),
       (''BGE_ROUTER_RETRY_INITIAL_BACKOFF_MS'', show_nat (as_millis (retry_initial_backoff c))),
       (''BGE_ROUTER_RETRY_MAX_BACKOFF_MS'', show_nat (as_millis (retry_max_backoff c))),
       (''BGE_ROUTER_COOLDOWN_SECS'', show_nat (as_secs (cooldown c)))] @
      (if legacy_fallback_budget_set c
       then [(''BGE_ROUTER_FALLBACK_BUDGET_MS'', show_nat (as_millis (hedge_delay c)))] else []) @
      (case tls_cert_path c of None \<Rightarrow> [] | Some p \<Rightarrow> [(''BGE_ROUTER_TLS_CERT_PATH'', p)]) @
      (case tls_key_path c of None \<Rightarrow> [] | Some p \<Rightarrow> [(''BGE_ROUTER_TLS_KEY_PATH'', p)]) @
      (case upstream_ca_bundle c of None \<Rightarrow> [] | Some p \<Rightarrow> [(''BGE_ROUTER_UPSTREAM_CA_BUNDLE'', p)]) @
      (if upstream_tls c then [(''BGE_ROUTER_UPSTREAM_TLS'', ''1'')] else []))"

lemma as_secs_from_secs [simp]: "as_secs (from_secs w) = unat w"
  by (simp add: as_secs_def from_secs_def nanos_per_sec_def)

lemma as_millis_from_millis [simp]: "as_millis (from_millis w) = unat w"
  by (simp add: as_millis_def from_millis_def nanos_per_milli_def)

lemma env_of_texts:
  "env_of c ''BGE_ROUTER_BIND'' = Some (bind_addr c)"
  "env_of c ''BGE_ROUTER_GPU_DNS'' = Some (gpu_dns c)"
  "env_of c ''BGE_ROUTER_CPU_DNS'' = Some (cpu_dns c)"
  "env_of c ''BGE_ROUTER_TLS_CERT_PATH'' = tls_cert_path c"
  "env_of c ''BGE_ROUTER_TLS_KEY_PATH'' = tls_key_path c"
  "env_of c ''BGE_ROUTER_UPSTREAM_CA_BUNDLE'' = upstream_ca_bundle c"
  "tls_enabled (env_of c ''BGE_ROUTER_UPSTREAM_TLS'') = upstream_tls c"
  by (simp_all add: env_of_def map_add_def tls_enabled_def ascii_lower_def split: option.split)

lemma env_of_numbers:
  "env_of c ''BGE_ROUTER_DNS_REFRESH_SECS'' = Some (show_nat (as_secs (dns_refresh c)))"
  "env_of c ''BGE_ROUTER_HEALTH_POLL_SECS'' = Some (show_nat (as_secs (health_poll c)))"
  "env_of c ''BGE_ROUTER_HEARTBEAT_SECS'' = Some (show_nat (as_secs (heartbeat c)))"
  "env_of c ''BGE_ROUTER_HEDGE_DELAY_MS'' = Some (show_nat (as_millis (hedge_delay c)))"
  "env_of c ''BGE_ROUTER_CONTROL_TIMEOUT_MS'' = Some (show_nat (as_millis (control_timeout c)))"
  "env_of c ''BGE_ROUTER_RETRY_COUNT'' = Some (show_nat (unat (retry_count c)))"
  "env_of c ''BGE_ROUTER_RETRY_INITIAL_BACKOFF_MS'' = Some (show_nat (as_millis (retry_initial_backoff c)))"
  "env_of c ''BGE_ROUTER_RETRY_MAX_BACKOFF_MS'' = Some (show_nat (as_millis (retry_max_backoff c)))"
  "env_of c ''BGE_ROUTER_COOLDOWN_SECS'' = Some (show_nat (as_secs (cooldown c)))"
  "env_of c ''BGE_ROUTER_FALLBACK_BUDGET_MS'' =
     (if legacy_fallback_budget_set c then Some (show_nat (as_millis (hedge_delay c))) else None)"
  by (simp_all add: env_of_def map_add_def split: option.split)

lemma parse_shown:
  "l key = Some (show_nat (unat w)) \<Longrightarrow> parse_u64 key d l = Inr w"
  "l key = Some (show_nat (unat w)) \<Longrightarrow> parse_optional_u64 key l = Inr (Some w)"
proof -
  have "unat w < 2 ^ 64" using unsigned_less[of w, where 'a = nat] by simp
  then have "unat w \<le> u64_max" by (simp add: u64_max_def)
  then have "str_parse_u64 (show_nat (unat w)) = Some w" by (simp add: str_parse_u64_show_nat)
  then show "l key = Some (show_nat (unat w)) \<Longrightarrow> parse_u64 key d l = Inr w"
    "l key = Some (show_nat (unat w)) \<Longrightarrow> parse_optional_u64 key l = Inr (Some w)"
    by (simp_all add: parse_u64_def parse_optional_u64_def)
qed

section \<open>Properties\<close>

text \<open>C33: every accepted configuration, written as an environment, is read back unchanged: every
  field is read from its own variable, in its own unit, and no accepted value is lost.\<close>
theorem config_roundtrip:
  assumes "from_lookup l = Inr c"
  shows "from_lookup (env_of c) = Inr c"
proof (rule from_lookup_InrE[OF assms])
  fix dns hp hb legacy hedge ctl rc ri rm cd
  let ?hedge = "case hedge of Some v \<Rightarrow> v | None \<Rightarrow> unwrap_or legacy default_hedge_delay_ms"
  assume vals: "dns_refresh c = from_secs dns" "health_poll c = from_secs hp" "heartbeat c = from_secs hb"
    "hedge_delay c = from_millis ?hedge" "control_timeout c = from_millis ctl" "cooldown c = from_secs cd"
    "u32_try_from rc = Some (retry_count c)"
    "retry_initial_backoff c = from_millis ri" "retry_max_backoff c = from_millis rm"
    and ok: "config_ok c"
  have "unat rc < 2 ^ 32" "retry_count c = ucast rc"
    using vals(7) by (auto simp: u32_try_from_def split: if_splits)
  then have rc: "unat (retry_count c) = unat rc" by (simp add: unsigned_ucast_eq take_bit_eq_mod)
  note read = parse_shown[of "env_of c", unfolded vals(1-6,8,9)]
  have numbers:
    "parse_u64 ''BGE_ROUTER_DNS_REFRESH_SECS'' d (env_of c) = Inr dns"
    "parse_u64 ''BGE_ROUTER_HEALTH_POLL_SECS'' d (env_of c) = Inr hp"
    "parse_u64 ''BGE_ROUTER_HEARTBEAT_SECS'' d (env_of c) = Inr hb"
    "parse_optional_u64 ''BGE_ROUTER_HEDGE_DELAY_MS'' (env_of c) = Inr (Some ?hedge)"
    "parse_u64 ''BGE_ROUTER_CONTROL_TIMEOUT_MS'' d (env_of c) = Inr ctl"
    "parse_u64 ''BGE_ROUTER_RETRY_COUNT'' d (env_of c) = Inr rc"
    "parse_u64 ''BGE_ROUTER_RETRY_INITIAL_BACKOFF_MS'' d (env_of c) = Inr ri"
    "parse_u64 ''BGE_ROUTER_RETRY_MAX_BACKOFF_MS'' d (env_of c) = Inr rm"
    "parse_u64 ''BGE_ROUTER_COOLDOWN_SECS'' d (env_of c) = Inr cd" for d
    by (rule parse_shown; simp only: env_of_numbers vals(1-6,8,9) rc as_secs_from_secs as_millis_from_millis)+
  have legacy: "parse_optional_u64 ''BGE_ROUTER_FALLBACK_BUDGET_MS'' (env_of c) =
      Inr (if legacy_fallback_budget_set c then Some ?hedge else None)"
  proof (cases "legacy_fallback_budget_set c")
    case True
    then show ?thesis
      by (simp only: if_True) (rule parse_shown, simp only: env_of_numbers vals(4) as_millis_from_millis if_True)
  qed (simp add: parse_optional_u64_def env_of_numbers)
  have pos: "?hedge \<noteq> 0" "ctl \<noteq> 0" "ri \<noteq> 0" "\<not> rm < ri" "\<not> max_retry_count < retry_count c"
    "(tls_cert_path c = None) = (tls_key_path c = None)"
    using ok by (auto simp: config_ok_def vals(4,5,8,9) from_millis_def word_less_nat_alt word_le_nat_alt nanos_per_milli_def)
  show "from_lookup (env_of c) = Inr c"
    unfolding from_lookup_def Let_def numbers legacy and_then.simps option.case bail_if_def
      if_not_P[OF pos(1)] if_not_P[OF pos(2)] if_not_P[OF pos(3)] if_not_P[OF pos(4)] if_not_P[OF pos(5)]
      vals(7) env_of_texts
    using pos(6) by (simp add: unwrap_or_def flip: vals)
qed

lemma config_roundtrip_witness: "from_lookup (env_of default_config) = Inr default_config"
  using from_lookup_empty by (rule config_roundtrip)

text \<open>Every configuration that \<open>from_lookup\<close> accepts has a positive hedge delay, control
  timeout and initial backoff, an initial backoff no larger than the maximum, at most 20
  retries, and either both TLS paths or none.\<close>
lemma accepted_config_ok:
  assumes "from_lookup l = Inr c"
  shows "0 < hedge_delay c \<and> 0 < control_timeout c \<and> retry_count c \<le> max_retry_count \<and>
    0 < retry_initial_backoff c \<and> retry_initial_backoff c \<le> retry_max_backoff c \<and>
    (tls_cert_path c = None \<longleftrightarrow> tls_key_path c = None)"
  using assms by (rule from_lookup_InrE) (simp add: config_ok_def)

lemma accepted_config_ok_witness: "0 < hedge_delay default_config \<and> retry_count default_config \<le> max_retry_count"
  using accepted_config_ok[OF from_lookup_empty] by blast

lemma parse_u64_value:
  "parse_u64 key d l = Inr v \<Longrightarrow>
     v = (case l key of Some s \<Rightarrow> the (str_parse_u64 s) | None \<Rightarrow> d)"
  by (auto simp: parse_u64_Inr_iff)

lemma parse_optional_u64_value:
  "parse_optional_u64 key l = Inr v \<Longrightarrow> v = map_option (\<lambda>s. the (str_parse_u64 s)) (l key)"
  by (auto simp: parse_optional_u64_Inr_iff)

text \<open>The hedge delay is the value of \<open>BGE_ROUTER_HEDGE_DELAY_MS\<close>; without that
  variable the legacy \<open>BGE_ROUTER_FALLBACK_BUDGET_MS\<close>; without both five seconds. The
  legacy variable never sets the control timeout, and its presence is recorded.\<close>
lemma hedge_delay_sources:
  assumes "from_lookup l = Inr c"
  shows "hedge_delay c = from_millis
      (case or_else (l ''BGE_ROUTER_HEDGE_DELAY_MS'') (l ''BGE_ROUTER_FALLBACK_BUDGET_MS'') of
         Some s \<Rightarrow> the (str_parse_u64 s) | None \<Rightarrow> 5000) \<and>
    control_timeout c = from_millis
      (case l ''BGE_ROUTER_CONTROL_TIMEOUT_MS'' of Some s \<Rightarrow> the (str_parse_u64 s) | None \<Rightarrow> 1000) \<and>
    (legacy_fallback_budget_set c \<longleftrightarrow> l ''BGE_ROUTER_FALLBACK_BUDGET_MS'' \<noteq> None)"
proof (rule from_lookup_InrE[OF assms])
  fix dns hp hb legacy hedge ctl rc ri rm cd
  assume legacy: "parse_optional_u64 ''BGE_ROUTER_FALLBACK_BUDGET_MS'' l = Inr legacy"
    and hedge: "parse_optional_u64 ''BGE_ROUTER_HEDGE_DELAY_MS'' l = Inr hedge"
    and ctl: "parse_u64 ''BGE_ROUTER_CONTROL_TIMEOUT_MS'' default_control_timeout_ms l = Inr ctl"
    and set: "legacy_fallback_budget_set c \<longleftrightarrow> legacy \<noteq> None"
    and hedge_delay: "hedge_delay c = from_millis (case hedge of Some v \<Rightarrow> v
       | None \<Rightarrow> unwrap_or legacy default_hedge_delay_ms)"
    and control: "control_timeout c = from_millis ctl"
  note vals = parse_optional_u64_value[OF legacy] parse_optional_u64_value[OF hedge]
    parse_u64_value[OF ctl]
  show ?thesis
    unfolding set hedge_delay control vals default_defs unwrap_or_def
    by (cases "l ''BGE_ROUTER_HEDGE_DELAY_MS''"; cases "l ''BGE_ROUTER_FALLBACK_BUDGET_MS''") simp_all
qed

lemma hedge_delay_sources_witness: "hedge_delay default_config = from_millis 5000"
  using hedge_delay_sources[OF from_lookup_empty] by simp

text \<open>With no variable set the configuration is the documented default.\<close>
lemma empty_environment_config:
  "from_env (\<lambda>_. None) =
     Inr \<lparr>bind_addr = ''0.0.0.0:8081'', gpu_dns = ''bge-m3-gpu'', cpu_dns = ''bge-m3-cpu'',
          dns_refresh = from_secs 30, health_poll = from_secs 5,
          hedge_delay = from_millis 5000, control_timeout = from_millis 1000,
          retry_count = 3, retry_initial_backoff = from_millis 100,
          retry_max_backoff = from_millis 1000, cooldown = from_secs 30,
          legacy_fallback_budget_set = False, heartbeat = from_secs 60,
          tls_cert_path = None, tls_key_path = None, upstream_ca_bundle = None, upstream_tls = False\<rparr>"
  unfolding from_env_def by (simp add: from_lookup_empty default_config_def)

end
