(* ===== verification/Http.thy ===== *)
theory Http
  imports Snapshot
begin

text \<open>
  The HTTP vocabulary the sources use. A header map is given by the sequence of pairs its
  iterator yields, names in lower case; a name may occur several times.
  \<open>hm_insert\<close> is the documented \<open>HeaderMap::insert\<close>: the new value replaces all
  earlier values of the name. Bodies are byte strings.

  \<open>AppError\<close> (\<open>src/error.rs\<close>) is in this theory too. An error of a library is its text
  and its own source, if any.
\<close>

section \<open>Headers and status codes\<close>

type_synonym header_map = "(string \<times> string) list"

definition hm_insert :: "string \<Rightarrow> string \<Rightarrow> header_map \<Rightarrow> header_map" where
  "hm_insert name val m = filter (\<lambda>(n, _). n \<noteq> name) m @ [(name, val)]"

definition hm_values :: "header_map \<Rightarrow> string \<Rightarrow> string list" where
  "hm_values m name = map snd (filter (\<lambda>(n, _). n = name) m)"

text \<open>The bytes \<open>HeaderValue::from_str\<close> and \<open>HeaderValue::to_str\<close> accept.\<close>

definition is_visible_ascii :: "char \<Rightarrow> bool" where
  "is_visible_ascii c \<longleftrightarrow>
     (let n = of_char c :: nat in 32 \<le> n \<and> n < 127 \<or> n = 9)"

definition header_value_from_str :: "string \<Rightarrow> string option" where
  "header_value_from_str s = (if list_all is_visible_ascii s then Some s else None)"

definition header_value_to_str :: "string \<Rightarrow> string option" where
  "header_value_to_str v = (if list_all is_visible_ascii v then Some v else None)"

definition status_from_u16 :: "u16 \<Rightarrow> u16 option" where
  "status_from_u16 n = (if 100 \<le> n \<and> n \<le> 999 then Some n else None)"

definition is_server_error :: "u16 \<Rightarrow> bool" where
  "is_server_error n \<longleftrightarrow> 500 \<le> n \<and> n \<le> 599"

lemma hm_values_insert [simp]:
  "hm_values (hm_insert n v m) k = (if k = n then [v] else hm_values m k)"
  by (auto simp: hm_values_def hm_insert_def filter_empty_conv intro!: arg_cong[of _ _ "map snd"]
      filter_cong)

lemma hm_values_simps [simp]:
  "hm_values [] k = []"
  "hm_values ((n, v) # m) k = (if n = k then v # hm_values m k else hm_values m k)"
  "hm_values (m @ m') k = hm_values m k @ hm_values m' k"
  by (simp_all add: hm_values_def)

section \<open>Requests and responses\<close>

record request =
  req_method :: string
  req_url :: string
  req_headers :: header_map
  req_body :: string

record response =
  resp_status :: u16
  resp_headers :: header_map
  resp_body :: string

text \<open>The response a plain-text reply of the framework has.\<close>

definition text_response :: "u16 \<Rightarrow> string \<Rightarrow> response" where
  "text_response code body =
     \<lparr>resp_status = code,
      resp_headers = [(''content-type'', ''text/plain; charset=utf-8'')],
      resp_body = body\<rparr>"

section \<open>Errors of the request path\<close>

datatype ext_error = ExtError (err_text: string) (err_source: "ext_error option")

datatype app_error =
    NoUpstreamAvailable
  | Upstream ext_error
  | Internal ext_error

fun app_error_display :: "app_error \<Rightarrow> string" where
  "app_error_display NoUpstreamAvailable = ''no upstream available''"
| "app_error_display (Upstream e) = ''upstream error: '' @ err_text e"
| "app_error_display (Internal e) = ''internal error: '' @ err_text e"

fun app_error_source :: "app_error \<Rightarrow> ext_error option" where
  "app_error_source (Upstream e) = Some e"
| "app_error_source (Internal e) = err_source e"
| "app_error_source NoUpstreamAvailable = None"

definition from_reqwest_error :: "ext_error \<Rightarrow> app_error" where
  "from_reqwest_error e = Upstream e"

definition from_anyhow_error :: "ext_error \<Rightarrow> app_error" where
  "from_anyhow_error e = Internal e"

fun app_error_status :: "app_error \<Rightarrow> u16" where
  "app_error_status NoUpstreamAvailable = 503"
| "app_error_status (Upstream e) = 502"
| "app_error_status (Internal e) = 500"

definition app_error_into_response :: "app_error \<Rightarrow> response" where
  "app_error_into_response e = text_response (app_error_status e) (app_error_display e)"

lemma app_error_is_server_error: "is_server_error (resp_status (app_error_into_response e))"
  by (cases e) (simp_all add: app_error_into_response_def text_response_def is_server_error_def)

type_synonym outcome = "app_error + response"

end
