(* ===== verification/X_Headers.thy ===== *)
theory X_Headers
  imports Http
begin

text \<open>
  \<open>src/headers.rs\<close>: the \<open>X-*\<close> headers of a request as a sorted map. The \<open>BTreeMap\<close> is
  its sorted list of entries. The JSON serializer is not part of the sources: it is the
  argument \<open>to_json\<close> (\<open>None\<close> is its error).
\<close>

section \<open>The sorted map\<close>

fun btree_insert :: "'k::linorder \<Rightarrow> 'v \<Rightarrow> ('k \<times> 'v) list \<Rightarrow> ('k \<times> 'v) list" where
  "btree_insert k v [] = [(k, v)]"
| "btree_insert k v ((k', v') # m) =
     (if k < k' then (k, v) # (k', v') # m
      else if k = k' then (k, v) # m
      else (k', v') # btree_insert k v m)"

definition btree_ok :: "('k::linorder \<times> 'v) list \<Rightarrow> bool" where
  "btree_ok m \<longleftrightarrow> sorted_wrt (<) (map fst m)"

lemma btree_insert_keys: "fst ` set (btree_insert k v m) = insert k (fst ` set m)"
  by (induction k v m rule: btree_insert.induct) (simp_all add: insert_commute)

lemma btree_ok_Cons: "btree_ok ((k, v) # m) \<longleftrightarrow> (\<forall>x\<in>fst ` set m. k < x) \<and> btree_ok m"
  by (simp add: btree_ok_def)

lemma btree_insert_ok: "btree_ok m \<Longrightarrow> btree_ok (btree_insert k v m)"
proof (induction k v m rule: btree_insert.induct)
  case (2 k v k' v' m)
  then show ?case
    by (auto simp: btree_ok_Cons btree_insert_keys simp del: ball_simps image_iff
        intro: less_trans)
qed (simp add: btree_ok_def)

lemma btree_insert_map_of: "btree_ok m \<Longrightarrow> map_of (btree_insert k v m) = (map_of m)(k \<mapsto> v)"
proof (induction m)
  case (Cons a m)
  then show ?case by (cases a) (auto simp: btree_ok_def fun_eq_iff)
qed simp

section \<open>Operations\<close>

type_synonym x_headers = "(string \<times> string) list"

definition x_headers_is_empty :: "x_headers \<Rightarrow> bool" where
  "x_headers_is_empty m \<longleftrightarrow> m = []"

definition fmt_x_headers :: "(x_headers \<Rightarrow> string option) \<Rightarrow> x_headers \<Rightarrow> string" where
  "fmt_x_headers to_json m = (case to_json m of Some s \<Rightarrow> s | None \<Rightarrow> ''{}'')"

definition collect_step :: "string \<times> string \<Rightarrow> header_map \<Rightarrow> header_map" where
  "collect_step nv m =
     (if starts_with ''x-'' (fst nv)
      then (case header_value_to_str (snd nv) of
              Some val \<Rightarrow> btree_insert (fst nv) val m
            | None \<Rightarrow> m)
      else m)"

definition collect_x_headers :: "header_map \<Rightarrow> x_headers" where
  "collect_x_headers hs = fold collect_step hs []"

section \<open>What is collected\<close>

lemma collect_step_ok: "btree_ok m \<Longrightarrow> btree_ok (collect_step nv m)"
  by (auto simp: collect_step_def intro: btree_insert_ok split: option.splits)

lemma fold_collect_ok: "btree_ok m \<Longrightarrow> btree_ok (fold collect_step hs m)"
  by (induction hs arbitrary: m) (auto intro: collect_step_ok)

lemma collect_x_headers_ok: "btree_ok (collect_x_headers hs)"
  unfolding collect_x_headers_def by (rule fold_collect_ok) (simp add: btree_ok_def)

text \<open>The visible values of one name, in the order of the header map.\<close>

definition visible_values :: "header_map \<Rightarrow> string \<Rightarrow> string list" where
  "visible_values hs k = filter (list_all is_visible_ascii) (hm_values hs k)"

definition last_of :: "'a list \<Rightarrow> 'a option" where
  "last_of xs = (if xs = [] then None else Some (last xs))"

lemma map_of_collect_step:
  "btree_ok m \<Longrightarrow> map_of (collect_step (n, v) m) =
     (if starts_with ''x-'' n \<and> list_all is_visible_ascii v then (map_of m)(n \<mapsto> v)
      else map_of m)"
  by (simp add: collect_step_def header_value_to_str_def btree_insert_map_of)

lemma map_of_fold_collect:
  "btree_ok m \<Longrightarrow> map_of (fold collect_step hs m) k =
     (if starts_with ''x-'' k \<and> visible_values hs k \<noteq> []
      then Some (last (visible_values hs k)) else map_of m k)"
proof (induction hs arbitrary: m)
  case (Cons nv hs)
  obtain n v where nv: "nv = (n, v)" by fastforce
  have "btree_ok (collect_step nv m)" using Cons.prems by (rule collect_step_ok)
  from Cons.IH[OF this] show ?case
    by (auto simp: nv map_of_collect_step[OF Cons.prems] visible_values_def)
qed (simp add: visible_values_def)

lemma map_of_collect_x_headers:
  "map_of (collect_x_headers hs) k =
     (if starts_with ''x-'' k then last_of (visible_values hs k) else None)"
  by (simp add: collect_x_headers_def map_of_fold_collect btree_ok_def last_of_def)

section \<open>Properties\<close>

text \<open>C34: the collected map has strictly increasing names, and under a name its last visible
  ASCII value; names without the prefix \<open>x-\<close> and values with other bytes are left out.\<close>
theorem collected_headers:
  "sorted_wrt (<) (map fst (collect_x_headers hs)) \<and>
   map_of (collect_x_headers hs) k =
     (if starts_with ''x-'' k
      then last_of (filter (list_all is_visible_ascii) (hm_values hs k)) else None)"
  using collect_x_headers_ok[of hs]
  unfolding map_of_collect_x_headers visible_values_def btree_ok_def by blast

end
