(* ===== verification/Circuit_Breaker.thy ===== *)
theory Circuit_Breaker
  imports Snapshot
begin

text \<open>
  \<open>src/upstream/circuit_breaker.rs\<close>: \<open>trip\<close> puts an upstream into cooldown.

  The function reads the shared cell once (\<open>pool.load()\<close>, argument \<open>loaded\<close>) and then
  replaces it with \<open>rcu\<close>, whose closure is applied to the content of the cell at the
  moment of the replacement (argument \<open>current\<close>); other tasks may have written the cell
  in between. It reads the clock up to four times, and \<open>trip_clock\<close> holds the readings.
  \<open>None\<close> is the panic of \<open>now + duration\<close> when the sum leaves the range of an
  \<open>Instant\<close>.
\<close>

section \<open>Operations\<close>

record trip_clock =
  tc_start :: instant    \<comment> \<open>\<open>let now = Instant::now()\<close> of \<open>trip\<close>\<close>
  tc_gpu :: instant      \<comment> \<open>in \<open>trip_pool\<close> on the GPU vector\<close>
  tc_cpu :: instant      \<comment> \<open>in \<open>trip_pool\<close> on the CPU vector\<close>
  tc_updated :: instant  \<comment> \<open>\<open>next.updated_at = Instant::now()\<close>\<close>

fun trip_pool :: "pool \<Rightarrow> socket_addr \<Rightarrow> instant \<Rightarrow> instant \<Rightarrow> pool \<times> bool" where
  "trip_pool [] a until now = ([], False)"
| "trip_pool (u # us) a until now =
     (if addr u = a
      then (if is_in_cooldown u now then (u # us, False)
            else (u\<lparr>cooldown_until := Some until\<rparr> # us, True))
      else (let (us', changed) = trip_pool us a until now in (u # us', changed)))"

definition trip_next ::
  "socket_addr \<Rightarrow> instant \<Rightarrow> trip_clock \<Rightarrow> pool_snapshot \<Rightarrow> pool_snapshot" where
  "trip_next a until c s =
     (let (g, changed_g) = trip_pool (gpu s) a until (tc_gpu c);
          (p, changed_c) = trip_pool (cpu s) a until (tc_cpu c);
          next = s\<lparr>gpu := g, cpu := p\<rparr>
      in if changed_g \<or> changed_c then next\<lparr>updated_at := tc_updated c\<rparr> else next)"

definition already_cooled :: "pool_snapshot \<Rightarrow> socket_addr \<Rightarrow> instant \<Rightarrow> bool" where
  "already_cooled s a now \<longleftrightarrow> (\<exists>u\<in>set (upstreams s). addr u = a \<and> is_in_cooldown u now)"

definition trip ::
  "pool_snapshot \<Rightarrow> pool_snapshot \<Rightarrow> socket_addr \<Rightarrow> duration \<Rightarrow> trip_clock \<Rightarrow> pool_snapshot option"
where
  "trip loaded current a d c =
     (if d = 0 then Some current
      else if already_cooled loaded a (tc_start c) then Some current
      else (case instant_add (tc_start c) d of
              None \<Rightarrow> None
            | Some until \<Rightarrow> Some (trip_next a until c current)))"

text \<open>A call that no other task interrupts, with every clock reading equal to \<open>t\<close>.\<close>

definition clock_at :: "instant \<Rightarrow> trip_clock" where
  "clock_at t = \<lparr>tc_start = t, tc_gpu = t, tc_cpu = t, tc_updated = t\<rparr>"

definition trip_at :: "pool_snapshot \<Rightarrow> socket_addr \<Rightarrow> duration \<Rightarrow> instant \<Rightarrow> pool_snapshot option" where
  "trip_at s a d t = trip s s a d (clock_at t)"

text \<open>The monotonic clock never goes back.\<close>

definition monotone_clock :: "trip_clock \<Rightarrow> bool" where
  "monotone_clock c \<longleftrightarrow>
     tc_start c \<le> tc_gpu c \<and> tc_gpu c \<le> tc_cpu c \<and> tc_cpu c \<le> tc_updated c"

lemma clock_at_simps [simp]:
  "tc_start (clock_at t) = t" "tc_gpu (clock_at t) = t"
  "tc_cpu (clock_at t) = t" "tc_updated (clock_at t) = t" "monotone_clock (clock_at t)"
  by (simp_all add: clock_at_def monotone_clock_def)

section \<open>One vector\<close>

lemma trip_pool_absent: "a \<notin> set (addrs_of p) \<Longrightarrow> trip_pool p a until now = (p, False)"
  by (induction p) auto

lemma trip_pool_first:
  "a \<notin> set (addrs_of xs) \<Longrightarrow> addr u = a \<Longrightarrow>
     trip_pool (xs @ u # ys) a until now =
       (if is_in_cooldown u now then (xs @ u # ys, False)
        else (xs @ u\<lparr>cooldown_until := Some until\<rparr> # ys, True))"
  by (induction xs) auto

lemma fst_trip_pool_Cons:
  "fst (trip_pool (u # us) a until now) =
     (if addr u = a
      then (if is_in_cooldown u now then u # us else u\<lparr>cooldown_until := Some until\<rparr> # us)
      else u # fst (trip_pool us a until now))"
  by (simp add: Let_def split: prod.splits)

lemma trip_pool_fields [frame_simps]:
  "map addr (fst (trip_pool p a until now)) = map addr p"
  "map pool_type (fst (trip_pool p a until now)) = map pool_type p"
  "map status (fst (trip_pool p a until now)) = map status p"
  "map queue_depth (fst (trip_pool p a until now)) = map queue_depth p"
  "map live_workers (fst (trip_pool p a until now)) = map live_workers p"
  "map last_seen (fst (trip_pool p a until now)) = map last_seen p"
  by (induction p) (simp_all add: fst_trip_pool_Cons del: trip_pool.simps(2))

lemma trip_pool_length [simp]: "length (fst (trip_pool p a until now)) = length p"
  using trip_pool_fields(1) by (metis length_map)

text \<open>What happens to a single entry.\<close>

lemma trip_pool_nth:
  assumes "i < length p"
  shows "fst (trip_pool p a until now) ! i = p ! i \<or>
    (addr (p ! i) = a \<and> \<not> is_in_cooldown (p ! i) now \<and>
     fst (trip_pool p a until now) ! i = (p ! i)\<lparr>cooldown_until := Some until\<rparr>)"
  using assms
proof (induction p arbitrary: i)
  case (Cons u us)
  then show ?case
    by (cases i) (simp_all add: fst_trip_pool_Cons del: trip_pool.simps(2))
qed simp

lemma trip_pool_typed: "typed_pool t p \<Longrightarrow> typed_pool t (fst (trip_pool p a until now))"
  by (induction p) (auto simp: fst_trip_pool_Cons simp del: trip_pool.simps(2))

lemma trip_pool_unchanged: "\<not> snd (trip_pool p a until now) \<Longrightarrow> fst (trip_pool p a until now) = p"
  by (induction p) (auto simp: Let_def split: prod.splits if_splits)

lemma split_first_addr:
  assumes "a \<in> set (addrs_of p)"
  obtains xs u ys where "p = xs @ u # ys" "addr u = a" "a \<notin> set (addrs_of xs)"
proof -
  obtain zs ws where "addrs_of p = zs @ a # ws" "a \<notin> set zs"
    using split_list_first[OF assms] by blast
  then show thesis
    by (auto simp: map_eq_append_conv intro: that)
qed

lemma find_first_addr:
  "a \<notin> set (addrs_of xs) \<Longrightarrow> addr u = a \<Longrightarrow> find (\<lambda>v. addr v = a) (xs @ u # ys) = Some u"
  by (induction xs) auto

text \<open>The entry a lookup by address finds is cooling down afterwards.\<close>

lemma trip_pool_find:
  assumes "a \<in> set (addrs_of p)" and "now < until"
  shows "\<exists>u. find (\<lambda>v. addr v = a) (fst (trip_pool p a until now)) = Some u \<and>
     is_in_cooldown u now"
proof -
  obtain xs u ys where p: "p = xs @ u # ys" "addr u = a" "a \<notin> set (addrs_of xs)"
    using split_first_addr[OF assms(1)] by blast
  then show ?thesis using assms(2)
    by (auto simp: trip_pool_first find_first_addr)
qed

text \<open>After a trip of an address that is not cooling down, its only entry is cooled.\<close>

lemma trip_pool_guards:
  assumes "distinct (addrs_of p)" and "a \<in> set (addrs_of p)"
    and "\<And>u. u \<in> set p \<Longrightarrow> addr u = a \<Longrightarrow> \<not> is_in_cooldown u now"
    and "u \<in> set (fst (trip_pool p a until now))" and "addr u = a"
  shows "cooldown_until u = Some until"
proof -
  obtain xs v ys where p: "p = xs @ v # ys" "addr v = a" "a \<notin> set (addrs_of xs)"
    using split_first_addr[OF assms(2)] by blast
  have "\<not> is_in_cooldown v now" using assms(3) p by simp
  then have "u \<in> set (xs @ v\<lparr>cooldown_until := Some until\<rparr> # ys)"
    using assms(4) p by (simp add: trip_pool_first)
  moreover have "a \<notin> set (addrs_of ys)" using assms(1) p by simp
  ultimately show ?thesis using assms(5) p(3) by auto
qed

lemma trip_pool_entry:
  "u \<in> set (fst (trip_pool p a until now)) \<Longrightarrow> u \<in> set p \<or> addr u = a \<and> cooldown_until u = Some until"
  by (induction p) (auto simp: fst_trip_pool_Cons simp del: trip_pool.simps(2) split: if_splits)

section \<open>The whole snapshot\<close>

lemma trip_next_gpu [simp]: "gpu (trip_next a until c s) = fst (trip_pool (gpu s) a until (tc_gpu c))"
  by (simp add: trip_next_def Let_def split: prod.splits)

lemma trip_next_cpu [simp]: "cpu (trip_next a until c s) = fst (trip_pool (cpu s) a until (tc_cpu c))"
  by (simp add: trip_next_def Let_def split: prod.splits)

text \<open>Tripping neither adds nor removes an upstream and keeps the tags.\<close>

interpretation trip_writer: membership_writer "trip_next a until c" for a until c
  by unfold_locales (simp_all add: typed_snapshot_def trip_pool_typed trip_pool_fields)

lemma trip_cases:
  assumes "trip loaded current a d c = Some s'"
  obtains (unchanged) "s' = current" and "d = 0 \<or> already_cooled loaded a (tc_start c)"
    | (tripped) "0 < d" "\<not> already_cooled loaded a (tc_start c)"
        "tc_start c + d \<le> instant_max" "s' = trip_next a (tc_start c + d) c current"
  using assms
  by (auto simp: trip_def instant_add_def split: if_splits)

lemma trip_typed [wf_intros]:
  "typed_snapshot current \<Longrightarrow> trip loaded current a d c = Some s' \<Longrightarrow> typed_snapshot s'"
  by (erule trip_cases) (auto intro: trip_writer.wr_typed)

lemma trip_addrs:
  "trip loaded current a d c = Some s' \<Longrightarrow>
     addrs_of (gpu s') = addrs_of (gpu current) \<and> addrs_of (cpu s') = addrs_of (cpu current)"
  by (erule trip_cases) (auto simp: trip_writer.wr_gpu_addrs trip_writer.wr_cpu_addrs
      simp del: trip_next_gpu trip_next_cpu)

text \<open>An address in some vector of a snapshot is cooling down for every lookup.\<close>

definition cooled_in :: "pool \<Rightarrow> socket_addr \<Rightarrow> instant \<Rightarrow> bool" where
  "cooled_in p a t \<longleftrightarrow>
     (case find (\<lambda>u. addr u = a) p of None \<Rightarrow> True | Some u \<Rightarrow> is_in_cooldown u t)"

lemma cooled_in_trip_pool: "t \<le> now \<Longrightarrow> now < until \<Longrightarrow> cooled_in (fst (trip_pool p a until now)) a t"
proof (cases "a \<in> set (addrs_of p)")
  case True
  assume "t \<le> now" "now < until"
  then show ?thesis
    using trip_pool_find[OF True \<open>now < until\<close>]
    by (auto simp: cooled_in_def intro: is_in_cooldown_antimono)
next
  case False
  then have "find (\<lambda>u. addr u = a) p = None" by (auto simp: find_None_iff_ball)
  with False show ?thesis by (simp add: cooled_in_def trip_pool_absent)
qed

text \<open>A vector in which every address occurs once: all entries of the address are cooled.\<close>

lemma cooled_in_distinct:
  assumes "distinct (addrs_of p)" and "cooled_in p a t" and "u \<in> set p" and "addr u = a"
  shows "is_in_cooldown u t"
proof -
  obtain xs ys where p: "p = xs @ u # ys" using assms(3) by (meson split_list)
  with assms(1,4) have "a \<notin> set (addrs_of xs)" by auto
  with p assms(4) have "find (\<lambda>v. addr v = a) p = Some u" by (simp add: find_first_addr)
  with assms(2) show ?thesis by (simp add: cooled_in_def)
qed

lemma trip_cooled:
  assumes "trip loaded current a d c = Some s'" and "0 < d"
    and "\<not> already_cooled loaded a (tc_start c)"
    and "monotone_clock c" and "tc_cpu c < tc_start c + d"
  shows "cooled_in (gpu s') a (tc_start c) \<and> cooled_in (cpu s') a (tc_start c)"
  using assms
  by (auto elim!: trip_cases intro!: cooled_in_trip_pool simp: monotone_clock_def)

lemma trip_keeps_active:
  assumes "trip loaded current a d c = Some s'" and "i < length (gpu current)"
    and "is_in_cooldown (gpu current ! i) (tc_gpu c)"
  shows "gpu s' ! i = gpu current ! i"
  using assms trip_pool_nth[of i "gpu current" a "tc_start c + d" "tc_gpu c"]
  by (auto elim!: trip_cases)

lemma trip_next_idem:
  assumes "cooled_in (gpu s) a (tc_gpu c)" and "cooled_in (cpu s) a (tc_cpu c)"
  shows "trip_next a until c s = s"
proof -
  have keep: "trip_pool p a until t = (p, False)" if "cooled_in p a t" for p t
  proof (cases "a \<in> set (addrs_of p)")
    case True
    then obtain xs u ys where p: "p = xs @ u # ys" "addr u = a" "a \<notin> set (addrs_of xs)"
      by (rule split_first_addr)
    then have "is_in_cooldown u t" using that by (simp add: cooled_in_def find_first_addr)
    with p show ?thesis by (simp add: trip_pool_first)
  qed (rule trip_pool_absent)
  show ?thesis using assms by (simp add: trip_next_def keep)
qed

section \<open>Properties\<close>

text \<open>C21: a call of \<open>trip\<close> panics exactly when it has a window to set and that window leaves
  the range of the clock; otherwise it keeps every upstream, its place and its address, pool,
  status, queue depth, worker count and time last seen, whatever the snapshot it replaces.\<close>
theorem trip_frame:
  "case trip loaded current a d c of
     None \<Rightarrow> 0 < d \<and> \<not> already_cooled loaded a (tc_start c) \<and> instant_max < tc_start c + d
   | Some s' \<Rightarrow>
       (d = 0 \<or> already_cooled loaded a (tc_start c) \<or> tc_start c + d \<le> instant_max) \<and>
       map (\<lambda>u. u\<lparr>cooldown_until := None\<rparr>) (upstreams s') =
         map (\<lambda>u. u\<lparr>cooldown_until := None\<rparr>) (upstreams current) \<and>
       typed_snapshot s' = typed_snapshot current"
proof (cases "trip loaded current a d c")
  case None
  then show ?thesis by (auto simp: trip_def instant_add_def split: if_splits)
next
  case (Some s')
  have pool: "map (\<lambda>u. u\<lparr>cooldown_until := None\<rparr>) (fst (trip_pool p a until now)) =
      map (\<lambda>u. u\<lparr>cooldown_until := None\<rparr>) p" for p until now
    by (induction p) (simp_all add: fst_trip_pool_Cons del: trip_pool.simps(2))
  have typed: "typed_pool t (fst (trip_pool p a until now)) = typed_pool t p" for t p until now
    using trip_pool_fields(2)[of p a until now]
    by (simp add: typed_pool_def list_all_iff[symmetric] list.pred_map[of "\<lambda>x. x = t" pool_type, unfolded comp_def, symmetric])
  from Some show ?thesis
    by (auto elim!: trip_cases simp: pool typed typed_snapshot_def)
qed

text \<open>After a trip that was not preceded by a running cooldown, whatever other tasks wrote in
  between, the entry that a lookup of the address finds in either vector is cooling down.\<close>
lemma trip_cools:
  assumes "trip loaded current a d c = Some s'" and "0 < d"
    and "\<not> already_cooled loaded a (tc_start c)"
    and "monotone_clock c" and "tc_cpu c < tc_start c + d"
  shows "cooled_in (gpu s') a (tc_start c) \<and> cooled_in (cpu s') a (tc_start c)"
  using assms by (rule trip_cooled)

lemma trip_cools_witness:
  "cooled_in [demo_upstream demo_addr Gpu 1\<lparr>cooldown_until := Some 100\<rparr>] demo_addr 0"
proof -
  let ?s = "\<lparr>gpu = [demo_upstream demo_addr Gpu 1], cpu = [], updated_at = 0\<rparr>"
  let ?s' = "\<lparr>gpu = [demo_upstream demo_addr Gpu 1\<lparr>cooldown_until := Some 100\<rparr>], cpu = [], updated_at = 0\<rparr>"
  have "trip ?s ?s demo_addr 100 (clock_at 0) = Some ?s'" "\<not> already_cooled ?s demo_addr 0"
    by (simp_all add: trip_def already_cooled_def demo_upstream_def is_in_cooldown_def instant_add_def
        trip_next_def time_defs clock_at_def)
  from trip_cools[OF this(1)] this(2) show ?thesis by simp
qed

text \<open>While a cooldown set by a trip is running, a second trip of the same upstream changes
  nothing: the window is not extended.\<close>
lemma trip_not_extended:
  assumes "trip_at s a d t = Some s'" and "0 < d" and "\<not> already_cooled s a t"
    and "a \<in> set (addrs_of (upstreams s))" and "t < t + d" and "t \<le> t2" and "t2 < t + d"
  shows "trip_at s' a d2 t2 = Some s'"
proof -
  have s': "s' = trip_next a (t + d) (clock_at t) s"
    using assms(1-3) unfolding trip_at_def by (auto elim!: trip_cases)
  have "\<exists>u\<in>set (upstreams s'). addr u = a \<and> is_in_cooldown u t2"
  proof -
    have hit: "\<exists>u\<in>set (fst (trip_pool p a (t + d) t)). addr u = a \<and> is_in_cooldown u t2"
      if a: "a \<in> set (addrs_of p)" and fresh: "\<forall>u\<in>set p. addr u = a \<longrightarrow> \<not> is_in_cooldown u t" for p
    proof -
      obtain xs u ys where p: "p = xs @ u # ys" "addr u = a" "a \<notin> set (addrs_of xs)"
        using split_first_addr[OF a] by blast
      then have "\<not> is_in_cooldown u t" using fresh by auto
      with p assms(7) show ?thesis by (auto simp: trip_pool_first is_in_cooldown_def)
    qed
    from assms(3,4) hit show ?thesis
      unfolding s' already_cooled_def trip_next_gpu trip_next_cpu clock_at_simps by fastforce
  qed
  then show ?thesis by (auto simp: trip_at_def trip_def already_cooled_def)
qed

lemma trip_not_extended_witness:
  "trip_at \<lparr>gpu = [demo_upstream demo_addr Gpu 1\<lparr>cooldown_until := Some 100\<rparr>], cpu = [], updated_at = 0\<rparr>
     demo_addr 500 50 =
   Some \<lparr>gpu = [demo_upstream demo_addr Gpu 1\<lparr>cooldown_until := Some 100\<rparr>], cpu = [], updated_at = 0\<rparr>"
proof -
  let ?s = "\<lparr>gpu = [demo_upstream demo_addr Gpu 1], cpu = [], updated_at = 0\<rparr>"
  have "trip_at ?s demo_addr 100 0 =
      Some \<lparr>gpu = [demo_upstream demo_addr Gpu 1\<lparr>cooldown_until := Some 100\<rparr>], cpu = [], updated_at = 0\<rparr>"
    "\<not> already_cooled ?s demo_addr 0" "demo_addr \<in> set (addrs_of (upstreams ?s))"
    by (simp_all add: trip_at_def trip_def already_cooled_def demo_upstream_def is_in_cooldown_def
        instant_add_def trip_next_def time_defs clock_at_def)
  from trip_not_extended[OF this(1) _ this(2,3), of 50 500] show ?thesis by simp
qed

end
