(* ===== verification/Proxy.thy ===== *)
theory Proxy
  imports Async Config X_Headers Circuit_Breaker
begin

text \<open>
  \<open>src/router/proxy.rs\<close>: forwarding one request to one upstream, and the retry loop around
  it. The network is the argument \<open>net\<close>: what the \<open>attempt\<close>-th request to an upstream
  gives when it is sent at some instant, after some time; \<open>None\<close> is a request that never
  completes. The effects of the loop are the requests it sends, its log events, and the
  circuit-breaker trip, which the caller's world applies to the shared snapshot.
\<close>

section \<open>Effects and the network\<close>

datatype log_event =
    Retrying socket_addr pool_type u32 u32 nat
      \<comment> \<open>\<open>upstream\<close>, \<open>pool\<close>, \<open>attempt\<close>, \<open>max_retries\<close>, \<open>backoff_ms\<close>\<close>
  | RetriesExhausted socket_addr pool_type u32 nat
      \<comment> \<open>\<open>upstream\<close>, \<open>pool\<close>, \<open>attempts\<close>, \<open>cooldown_secs\<close>\<close>
  | FiringSecondary string u64 socket_addr socket_addr pool_type
  | RaceWon string string u64 socket_addr socket_addr pool_type string "string option"
  | RaceLoser string socket_addr "string + u16" u64
  | BothFailed string socket_addr socket_addr pool_type
  | DirectResponse string socket_addr string u16 "string option"
  | GpuCapReached socket_addr nat
  | GpuServerError socket_addr u16
  | GpuError socket_addr string
  | GpuTimedOut socket_addr u64
  | CpuTimedOut socket_addr u64
  | RoutingFailed string string
  | BodyReadFailed string

datatype effect =
    SendRequest pool_type nat request
  | Trip socket_addr duration
  | SecondaryStarted
  | Log log_event

datatype answer = TransportError ext_error | Answered u16 header_map string

type_synonym network = "pool_type \<Rightarrow> nat \<Rightarrow> request \<Rightarrow> instant \<Rightarrow> (duration \<times> answer) option"

text \<open>The buffered request (\<open>ForwardCtx\<close> of \<open>fallback.rs\<close>).\<close>

record forward_ctx =
  fc_scheme :: upstream_scheme
  fc_method :: string
  fc_path_and_query :: string
  fc_headers :: header_map
  fc_body :: string

section \<open>One request\<close>

definition hop_by_hop :: "string list" where
  "hop_by_hop =
     [''connection'', ''keep-alive'', ''proxy-authenticate'', ''proxy-authorization'',
      ''te'', ''trailer'', ''transfer-encoding'', ''upgrade'']"

definition is_hop_by_hop :: "string \<Rightarrow> bool" where
  "is_hop_by_hop name \<longleftrightarrow> name \<in> set hop_by_hop"

definition upstream_url :: "upstream_scheme \<Rightarrow> socket_addr \<Rightarrow> string \<Rightarrow> string" where
  "upstream_url scheme a path_and_query =
     fmt_scheme scheme @ ''://'' @ show_addr a @ path_and_query"

definition forward_request :: "forward_ctx \<Rightarrow> socket_addr \<Rightarrow> request" where
  "forward_request fc a =
     \<lparr>req_method = fc_method fc,
      req_url = upstream_url (fc_scheme fc) a (fc_path_and_query fc),
      req_headers = filter (\<lambda>(n, _). \<not> is_hop_by_hop n) (fc_headers fc),
      req_body = fc_body fc\<rparr>"

definition copy_headers :: "header_map \<Rightarrow> header_map" where
  "copy_headers hs =
     fold (\<lambda>(n, v) m. if is_hop_by_hop n then m else hm_insert n v m) hs []"

definition insert_parsed :: "string \<Rightarrow> string \<Rightarrow> header_map \<Rightarrow> header_map" where
  "insert_parsed name s m =
     (case header_value_from_str s of Some v \<Rightarrow> hm_insert name v m | None \<Rightarrow> m)"

fun forward_answer :: "socket_addr \<Rightarrow> pool_type \<Rightarrow> answer \<Rightarrow> outcome" where
  "forward_answer a t (TransportError e) = Inl (Upstream e)"
| "forward_answer a t (Answered code hs body) =
     Inr \<lparr>resp_status = unwrap_or (status_from_u16 code) 500,
          resp_headers =
            insert_parsed ''x-bge-router-pool'' (pool_as_str t)
              (insert_parsed ''x-bge-router-upstream'' (show_addr a) (copy_headers hs)),
          resp_body = body\<rparr>"

definition forward ::
  "network \<Rightarrow> forward_ctx \<Rightarrow> socket_addr \<Rightarrow> pool_type \<Rightarrow> nat \<Rightarrow> (effect, outcome) async" where
  "forward net fc a t attempt =
     await (emit (SendRequest t attempt (forward_request fc a))) (\<lambda>_ now.
       case net t attempt (forward_request fc a) now of
         None \<Rightarrow> ([], None)
       | Some (d, ans) \<Rightarrow> ([], Some (now + d, forward_answer a t ans)))"

section \<open>The retry loop\<close>

fun is_retryable :: "outcome \<Rightarrow> bool" where
  "is_retryable (Inr resp) = is_server_error (resp_status resp)"
| "is_retryable (Inl e) = True"

definition next_backoff :: "retry_config \<Rightarrow> duration \<Rightarrow> duration" where
  "next_backoff rc backoff = min (saturating_mul backoff 2) (max_backoff rc)"

text \<open>
  \<open>retry_loop ... attempts backoff\<close> is the \<open>for\<close> loop over the remaining attempts, with
  the error after the loop as its last equation.
\<close>

fun retry_loop ::
  "network \<Rightarrow> retry_config \<Rightarrow> forward_ctx \<Rightarrow> socket_addr \<Rightarrow> pool_type \<Rightarrow> nat list \<Rightarrow> duration \<Rightarrow>
     (effect, outcome) async" where
  "retry_loop net rc fc a t [] backoff = ready (Inl NoUpstreamAvailable)"
| "retry_loop net rc fc a t (attempt # attempts) backoff =
     await (forward net fc a t attempt) (\<lambda>result.
       if \<not> is_retryable result then ready result
       else if attempt = unat (max_retries rc) then
         await (emit (Trip a (rc_cooldown rc))) (\<lambda>_.
         await (emit (Log (RetriesExhausted a t (max_retries rc + 1) (as_secs (rc_cooldown rc))))) (\<lambda>_.
         ready result))
       else
         await (emit (Log (Retrying a t (of_nat attempt + 1) (max_retries rc) (as_millis backoff)))) (\<lambda>_.
         await (sleep backoff) (\<lambda>_.
         retry_loop net rc fc a t attempts (next_backoff rc backoff))))"

definition forward_with_retry ::
  "network \<Rightarrow> retry_config \<Rightarrow> forward_ctx \<Rightarrow> socket_addr \<Rightarrow> pool_type \<Rightarrow> (effect, outcome) async"
where
  "forward_with_retry net rc fc a t =
     retry_loop net rc fc a t [0..<Suc (unat (max_retries rc))] (initial_backoff rc)"

section \<open>Headers\<close>

lemma hm_values_copy:
  "hm_values (fold (\<lambda>(n, v) m. if is_hop_by_hop n then m else hm_insert n v m) hs m) k =
     (if is_hop_by_hop k \<or> hm_values hs k = [] then hm_values m k else [last (hm_values hs k)])"
proof (induction hs arbitrary: m)
  case (Cons nv hs)
  obtain n v where "nv = (n, v)" by fastforce
  then show ?case by (cases "n = k") (simp_all add: Cons.IH)
qed simp

lemma hm_values_copy_headers:
  "hm_values (copy_headers hs) k =
     (if is_hop_by_hop k \<or> hm_values hs k = [] then [] else [last (hm_values hs k)])"
  by (simp add: copy_headers_def hm_values_copy)

lemma hm_values_forward_request:
  "hm_values (req_headers (forward_request fc a)) k =
     (if is_hop_by_hop k then [] else hm_values (fc_headers fc) k)"
  by (auto simp: forward_request_def hm_values_def filter_empty_conv
      intro!: arg_cong[of _ _ "map snd"] filter_cong)

lemma visible_digit: "d < 10 \<Longrightarrow> is_visible_ascii (digit_char d)"
  by (simp add: is_visible_ascii_def digit_char_def Let_def)

lemma visible_show_nat: "list_all is_visible_ascii (show_nat n)"
proof (induction n rule: show_nat.induct)
  case (1 n)
  then show ?case by (subst show_nat.simps) (simp add: visible_digit)
qed

lemma visible_hex: "d < 16 \<Longrightarrow> is_visible_ascii (hex_char d)"
  by (simp add: is_visible_ascii_def hex_char_def Let_def)

lemma visible_show_hex: "list_all is_visible_ascii (show_hex n)"
proof (induction n rule: show_hex.induct)
  case (1 n)
  then show ?case by (subst show_hex.simps) (simp add: visible_hex)
qed

lemma visible_sep:
  "is_visible_ascii CHR ''.''" "is_visible_ascii CHR '':''" "is_visible_ascii CHR ''[''"
  "is_visible_ascii CHR '']''" "is_visible_ascii CHR ''%''" "is_visible_ascii CHR ''f''"
  by (simp_all add: is_visible_ascii_def)

lemma visible_ipv4: "list_all is_visible_ascii (show_ipv4 a b c d)"
  by (simp add: show_ipv4_def visible_show_nat visible_sep)

lemma visible_fmt_subslice: "list_all is_visible_ascii (fmt_subslice xs)"
  by (induction xs rule: fmt_subslice.induct) (simp_all add: visible_show_hex visible_sep)

lemma visible_show_addr: "list_all is_visible_ascii (show_addr a)"
  by (cases a)
    (simp_all add: show_ipv6_def Let_def visible_ipv4 visible_show_nat visible_sep
      visible_fmt_subslice split: prod.split)

lemma header_value_show_addr [simp]: "header_value_from_str (show_addr a) = Some (show_addr a)"
  by (simp add: header_value_from_str_def visible_show_addr)

lemma header_value_pool [simp]: "header_value_from_str (pool_as_str t) = Some (pool_as_str t)"
  by (cases t) (simp_all add: header_value_from_str_def is_visible_ascii_def)

lemma forward_answer_headers:
  assumes "forward_answer a t (Answered code hs body) = Inr resp"
  shows "hm_values (resp_headers resp) k =
    (if k = ''x-bge-router-pool'' then [pool_as_str t]
     else if k = ''x-bge-router-upstream'' then [show_addr a]
     else if is_hop_by_hop k \<or> hm_values hs k = [] then [] else [last (hm_values hs k)])"
  using assms by (auto simp: insert_parsed_def hm_values_copy_headers)

section \<open>The backoff sequence\<close>

fun nth_backoff :: "retry_config \<Rightarrow> nat \<Rightarrow> duration" where
  "nth_backoff rc 0 = initial_backoff rc"
| "nth_backoff rc (Suc k) = next_backoff rc (nth_backoff rc k)"

lemma nth_backoff_le: "0 < k \<or> initial_backoff rc \<le> max_backoff rc \<Longrightarrow> nth_backoff rc k \<le> max_backoff rc"
  by (cases k) (auto simp: next_backoff_def)

lemma nth_backoff_closed:
  assumes "initial_backoff rc \<le> max_backoff rc" and "max_backoff rc \<le> duration_max"
  shows "nth_backoff rc k = min (2 ^ k * initial_backoff rc) (max_backoff rc)"
proof (induction k)
  case (Suc k)
  have "nth_backoff rc (Suc k) = min (2 * nth_backoff rc k) (max_backoff rc)"
    using assms(2) by (auto simp: next_backoff_def saturating_mul_def min_def)
  also have "\<dots> = min (2 ^ Suc k * initial_backoff rc) (max_backoff rc)"
    unfolding Suc by (auto simp: min_def)
  finally show ?case .
qed (use assms in simp)

lemma next_backoff_iter: "next_backoff rc (nth_backoff rc k) = nth_backoff rc (Suc k)"
  by simp

section \<open>The loop\<close>

lemma forward_eq:
  "forward net fc a t attempt now =
     ([(now, SendRequest t attempt (forward_request fc a))],
      map_option (\<lambda>(d, ans). (now + d, forward_answer a t ans))
        (net t attempt (forward_request fc a) now))"
  by (simp add: forward_def split: option.split)

lemma forward_ok [async_ok]: "timeline_ok now (forward net fc a t attempt now)"
  by (auto simp: forward_eq timeline_ok_def split: option.splits)

lemma retry_loop_ok: "timeline_ok now (retry_loop net rc fc a t atts backoff now)"
proof (induction atts arbitrary: now backoff)
  case (Cons k ks)
  have step: "timeline_ok t' (if b then m t' else if c then m' t' else m'' t')"
    if "timeline_ok t' (m t')" "timeline_ok t' (m' t')" "timeline_ok t' (m'' t')"
    for b c t' and m m' m'' :: "(effect, outcome) async"
    using that by simp
  show ?case unfolding retry_loop.simps
    by (rule await_ok[OF forward_ok])
      (simp only: if_distrib[where f = "\<lambda>m. m _"], intro step await_ok async_ok Cons.IH)
qed (simp add: async_ok)

lemma forward_with_retry_ok [async_ok]: "timeline_ok now (forward_with_retry net rc fc a t now)"
  unfolding forward_with_retry_def by (rule retry_loop_ok)

text \<open>One turn of the loop, by the answer to its request.\<close>

lemma retry_loop_hang:
  "net t k (forward_request fc a) now = None \<Longrightarrow>
     retry_loop net rc fc a t (k # ks) b now = ([(now, SendRequest t k (forward_request fc a))], None)"
  by (simp add: await_def forward_eq)

lemma retry_loop_final:
  assumes "net t k (forward_request fc a) now = Some (d, ans)"
    and "\<not> is_retryable (forward_answer a t ans)"
  shows "retry_loop net rc fc a t (k # ks) b now =
    ([(now, SendRequest t k (forward_request fc a))], Some (now + d, forward_answer a t ans))"
  using assms by (simp add: await_def forward_eq ready_def)

lemma retry_loop_exhausted:
  assumes "net t k (forward_request fc a) now = Some (d, ans)"
    and "is_retryable (forward_answer a t ans)" and "k = unat (max_retries rc)"
  shows "retry_loop net rc fc a t (k # ks) b now =
    ([(now, SendRequest t k (forward_request fc a)), (now + d, Trip a (rc_cooldown rc)),
      (now + d, Log (RetriesExhausted a t (max_retries rc + 1) (as_secs (rc_cooldown rc))))],
     Some (now + d, forward_answer a t ans))"
  using assms by (simp add: await_def[of "forward _ _ _ _ _"] forward_eq ready_def)

lemma retry_loop_again:
  assumes "net t k (forward_request fc a) now = Some (d, ans)"
    and "is_retryable (forward_answer a t ans)" and "k \<noteq> unat (max_retries rc)"
  shows "retry_loop net rc fc a t (k # ks) b now =
    (let rest = retry_loop net rc fc a t ks (next_backoff rc b) (now + d + b)
     in ((now, SendRequest t k (forward_request fc a)) #
         (now + d, Log (Retrying a t (of_nat k + 1) (max_retries rc) (as_millis b))) # fst rest,
         snd rest))"
  using assms by (simp add: await_def[of "forward _ _ _ _ _"] forward_eq ready_def Let_def)

lemmas retry_loop_turns =
  retry_loop_hang retry_loop_final retry_loop_exhausted retry_loop_again

text \<open>The effects that are requests, and those that are trips.\<close>

fun sent_request :: "instant \<times> effect \<Rightarrow> (pool_type \<times> nat \<times> request) option" where
  "sent_request (_, SendRequest t k r) = Some (t, k, r)"
| "sent_request _ = None"

definition sends :: "(instant \<times> effect) list \<Rightarrow> (pool_type \<times> nat \<times> request) list" where
  "sends es = List.map_filter sent_request es"

fun trip_of :: "instant \<times> effect \<Rightarrow> (instant \<times> socket_addr \<times> duration) option" where
  "trip_of (s, Trip a d) = Some (s, a, d)"
| "trip_of _ = None"

definition trips :: "(instant \<times> effect) list \<Rightarrow> (instant \<times> socket_addr \<times> duration) list" where
  "trips es = List.map_filter trip_of es"

lemma sends_simps [simp]:
  "sends [] = []" "sends ((s, SendRequest t k r) # es) = (t, k, r) # sends es"
  "sends ((s, Trip a d) # es) = sends es" "sends ((s, Log l) # es) = sends es"
  "sends ((s, SecondaryStarted) # es) = sends es"
  "sends (es @ es') = sends es @ sends es'"
  by (simp_all add: sends_def List.map_filter_def)

lemma trips_simps [simp]:
  "trips [] = []" "trips ((s, SendRequest t k r) # es) = trips es"
  "trips ((s, Trip a d) # es) = (s, a, d) # trips es" "trips ((s, Log l) # es) = trips es"
  "trips ((s, SecondaryStarted) # es) = trips es"
  "trips (es @ es') = trips es @ trips es'"
  by (simp_all add: trips_def List.map_filter_def)

section \<open>The loop from one attempt on\<close>

definition loop_from ::
  "network \<Rightarrow> retry_config \<Rightarrow> forward_ctx \<Rightarrow> socket_addr \<Rightarrow> pool_type \<Rightarrow> nat \<Rightarrow> duration \<Rightarrow>
     (effect, outcome) async" where
  "loop_from net rc fc a t j b = retry_loop net rc fc a t [j..<Suc (unat (max_retries rc))] b"

text \<open>The requests of the attempts \<open>j\<close> to \<open>m\<close>.\<close>

definition attempts_sent ::
  "pool_type \<Rightarrow> request \<Rightarrow> nat \<Rightarrow> nat \<Rightarrow> (pool_type \<times> nat \<times> request) list" where
  "attempts_sent t req j m = map (\<lambda>k. (t, k, req)) [j..<Suc m]"

lemma attempts_sent_Cons: "j \<le> m \<Longrightarrow> attempts_sent t req j m = (t, j, req) # attempts_sent t req (Suc j) m"
  by (simp add: attempts_sent_def upt_rec[of j])

lemma attempts_sent_single [simp]: "attempts_sent t req j j = [(t, j, req)]"
  by (simp add: attempts_sent_def)

lemma loop_from_cases:
  assumes "j \<le> unat (max_retries rc)"
  obtains
    (hang) "net t j (forward_request fc a) now = None"
      "loop_from net rc fc a t j b now = ([(now, SendRequest t j (forward_request fc a))], None)"
  | (final) d ans where "net t j (forward_request fc a) now = Some (d, ans)"
      "\<not> is_retryable (forward_answer a t ans)"
      "loop_from net rc fc a t j b now =
         ([(now, SendRequest t j (forward_request fc a))], Some (now + d, forward_answer a t ans))"
  | (exhausted) d ans where "net t j (forward_request fc a) now = Some (d, ans)"
      "is_retryable (forward_answer a t ans)" "j = unat (max_retries rc)"
      "loop_from net rc fc a t j b now =
        ([(now, SendRequest t j (forward_request fc a)), (now + d, Trip a (rc_cooldown rc)),
          (now + d, Log (RetriesExhausted a t (max_retries rc + 1) (as_secs (rc_cooldown rc))))],
         Some (now + d, forward_answer a t ans))"
  | (again) d ans where "net t j (forward_request fc a) now = Some (d, ans)"
      "is_retryable (forward_answer a t ans)" "j < unat (max_retries rc)"
      "loop_from net rc fc a t j b now =
        (let rest = loop_from net rc fc a t (Suc j) (next_backoff rc b) (now + d + b)
         in ((now, SendRequest t j (forward_request fc a)) #
             (now + d, Log (Retrying a t (of_nat j + 1) (max_retries rc) (as_millis b))) # fst rest,
             snd rest))"
proof -
  have *: "loop_from net rc fc a t j b now =
      retry_loop net rc fc a t (j # [Suc j..<Suc (unat (max_retries rc))]) b now"
    using assms by (simp add: loop_from_def upt_rec)
  show thesis
  proof (cases "net t j (forward_request fc a) now")
    case None
    then show thesis by (rule hang) (unfold *, use None in \<open>rule retry_loop_hang\<close>)
  next
    case (Some p)
    then obtain d ans where n: "net t j (forward_request fc a) now = Some (d, ans)"
      by (cases p) simp
    consider "\<not> is_retryable (forward_answer a t ans)"
      | "is_retryable (forward_answer a t ans)" "j = unat (max_retries rc)"
      | "is_retryable (forward_answer a t ans)" "j \<noteq> unat (max_retries rc)" by blast
    then show thesis
    proof cases
      case 1
      have "loop_from net rc fc a t j b now =
          ([(now, SendRequest t j (forward_request fc a))], Some (now + d, forward_answer a t ans))"
        unfolding * using n 1 by (rule retry_loop_final)
      with n 1 show thesis by (rule final)
    next
      case 2
      show thesis
        by (rule exhausted[OF n 2]) (unfold *, use n 2 in \<open>rule retry_loop_exhausted\<close>)
    next
      case 3
      then have "j < unat (max_retries rc)" using assms by simp
      then show thesis
        by (rule again[OF n 3(1)]) (subst *, unfold loop_from_def, use n 3 in \<open>rule retry_loop_again\<close>)
    qed
  qed
qed

text \<open>Induction over the attempts that are left.\<close>

lemma attempts_induct [consumes 1, case_names attempt]:
  assumes "j \<le> n"
    and "\<And>j b now. j \<le> n \<Longrightarrow> (\<And>b now. j < n \<Longrightarrow> P (Suc j) b now) \<Longrightarrow> P j b now"
  shows "P j (b::duration) (now::instant)"
  using assms(1)
proof (induction "n - j" arbitrary: j b now rule: less_induct)
  case less
  show ?case by (rule assms(2)) (use less in auto)
qed

lemma loop_from_sends:
  assumes "j \<le> unat (max_retries rc)"
  shows "\<exists>m. j \<le> m \<and> m \<le> unat (max_retries rc) \<and>
    sends (fst (loop_from net rc fc a t j b now)) =
      attempts_sent t (forward_request fc a) j m"
  using assms
proof (induction j b now rule: attempts_induct)
  case (attempt j b now)
  show ?case
  proof (cases rule: loop_from_cases[OF attempt(1), where net = net and t = t and fc = fc and a = a
      and now = now and b = b])
    case (4 d ans)
    then obtain m where m: "Suc j \<le> m" "m \<le> unat (max_retries rc)"
      "sends (fst (loop_from net rc fc a t (Suc j) (next_backoff rc b) (now + d + b))) =
        attempts_sent t (forward_request fc a) (Suc j) m"
      using attempt(2) by blast
    then show ?thesis using 4(4) by (intro exI[of _ m]) (simp add: Let_def attempts_sent_Cons[of j])
  qed (use attempt(1) in \<open>auto intro!: exI[of _ j]\<close>)
qed

lemma loop_from_result:
  assumes "j \<le> unat (max_retries rc)" and "snd (loop_from net rc fc a t j b now) = Some (e, r)"
  shows "(\<exists>ans. r = forward_answer a t ans) \<and>
    (if is_retryable r
     then trips (fst (loop_from net rc fc a t j b now)) = [(e, a, rc_cooldown rc)] \<and>
       sends (fst (loop_from net rc fc a t j b now)) =
         attempts_sent t (forward_request fc a) j (unat (max_retries rc))
     else trips (fst (loop_from net rc fc a t j b now)) = [])"
  using assms
proof (induction j b now rule: attempts_induct)
  case (attempt j b now)
  show ?case
  proof (cases rule: loop_from_cases[OF attempt(1), where net = net and t = t and fc = fc and a = a
      and now = now and b = b])
    case (4 d ans)
    then have "snd (loop_from net rc fc a t (Suc j) (next_backoff rc b) (now + d + b)) = Some (e, r)"
      using attempt(3) by (simp add: Let_def)
    then show ?thesis using attempt(2)[OF 4(3)] 4(3,4)
      by (simp add: Let_def attempts_sent_Cons[of j])
  qed (use attempt in auto)
qed

lemma loop_from_hung:
  assumes "j \<le> unat (max_retries rc)" and "snd (loop_from net rc fc a t j b now) = None"
  shows "trips (fst (loop_from net rc fc a t j b now)) = []"
  using assms
proof (induction j b now rule: attempts_induct)
  case (attempt j b now)
  show ?case
  proof (cases rule: loop_from_cases[OF attempt(1), where net = net and t = t and fc = fc and a = a
      and now = now and b = b])
    case (4 d ans)
    then show ?thesis using attempt(2)[OF 4(3)] attempt(3) by (simp add: Let_def)
  qed (use attempt in auto)
qed

text \<open>A network that answers every request within \<open>D\<close>.\<close>

definition answers_within :: "network \<Rightarrow> duration \<Rightarrow> bool" where
  "answers_within net D \<longleftrightarrow> (\<forall>t k r now. \<exists>d ans. net t k r now = Some (d, ans) \<and> d \<le> D)"

lemma loop_from_bound:
  assumes "answers_within net D" and "j \<le> unat (max_retries rc)" and "b \<le> max_backoff rc"
  shows "\<exists>e r. snd (loop_from net rc fc a t j b now) = Some (e, r) \<and>
    e \<le> now + D + (unat (max_retries rc) - j) * (D + max_backoff rc)"
  using assms(2,3)
proof (induction j b now rule: attempts_induct)
  case (attempt j b now)
  obtain d' ans' where net: "net t j (forward_request fc a) now = Some (d', ans')" "d' \<le> D"
    using assms(1) unfolding answers_within_def by blast
  show ?case
  proof (cases rule: loop_from_cases[OF attempt(1), where net = net and t = t and fc = fc and a = a
      and now = now and b = b])
    case (4 d ans)
    have "next_backoff rc b \<le> max_backoff rc" by (simp add: next_backoff_def)
    from attempt(2)[OF 4(3) this, of "now + d + b"] obtain e r where er:
      "snd (loop_from net rc fc a t (Suc j) (next_backoff rc b) (now + d + b)) = Some (e, r)"
      "e \<le> now + d + b + D + (unat (max_retries rc) - Suc j) * (D + max_backoff rc)" by blast
    have "unat (max_retries rc) - j = Suc (unat (max_retries rc) - Suc j)" using 4(3) by simp
    then have "e \<le> now + D + (unat (max_retries rc) - j) * (D + max_backoff rc)"
      using er(2) net 4(1) attempt(3) by simp
    then show ?thesis using er(1) 4(4) by (simp add: Let_def)
  qed (use net in auto)
qed

section \<open>The specification of the loop\<close>

text \<open>
  When attempt \<open>k\<close> starts and what it gives, if all attempts before it failed; and the
  specification: the first attempt that settles the request (a final answer, or no answer
  at all), and the last one when none does.
\<close>

fun attempt_start ::
  "network \<Rightarrow> retry_config \<Rightarrow> request \<Rightarrow> pool_type \<Rightarrow> instant \<Rightarrow> nat \<Rightarrow> instant option" where
  "attempt_start net rc req t now 0 = Some now"
| "attempt_start net rc req t now (Suc k) =
     (case attempt_start net rc req t now k of
        None \<Rightarrow> None
      | Some s \<Rightarrow> map_option (\<lambda>(d, _). s + d + nth_backoff rc k) (net t k req s))"

definition attempt_outcome ::
  "network \<Rightarrow> retry_config \<Rightarrow> forward_ctx \<Rightarrow> socket_addr \<Rightarrow> pool_type \<Rightarrow> instant \<Rightarrow> nat \<Rightarrow>
     (instant \<times> outcome) option" where
  "attempt_outcome net rc fc a t now k =
     (case attempt_start net rc (forward_request fc a) t now k of
        None \<Rightarrow> None
      | Some s \<Rightarrow> map_option (\<lambda>(d, ans). (s + d, forward_answer a t ans))
                   (net t k (forward_request fc a) s))"

definition settles :: "(instant \<times> outcome) option \<Rightarrow> bool" where
  "settles x = (case x of None \<Rightarrow> True | Some (_, r) \<Rightarrow> \<not> is_retryable r)"

definition retry_spec ::
  "network \<Rightarrow> retry_config \<Rightarrow> forward_ctx \<Rightarrow> socket_addr \<Rightarrow> pool_type \<Rightarrow> instant \<Rightarrow>
     (instant \<times> outcome) option" where
  "retry_spec net rc fc a t now =
     attempt_outcome net rc fc a t now
       (case find (\<lambda>k. settles (attempt_outcome net rc fc a t now k))
               [0..<unat (max_retries rc)] of
          Some k \<Rightarrow> k | None \<Rightarrow> unat (max_retries rc))"

lemma loop_from_spec:
  assumes "j \<le> unat (max_retries rc)"
    and "attempt_start net rc (forward_request fc a) t t0 j = Some now"
    and "b = nth_backoff rc j"
  shows "snd (loop_from net rc fc a t j b now) =
    attempt_outcome net rc fc a t t0
      (case find (\<lambda>k. settles (attempt_outcome net rc fc a t t0 k)) [j..<unat (max_retries rc)] of
         Some k \<Rightarrow> k | None \<Rightarrow> unat (max_retries rc))"
  using assms
proof (induction j b now rule: attempts_induct)
  case (attempt j b now)
  have out: "attempt_outcome net rc fc a t t0 j =
      map_option (\<lambda>(d, ans). (now + d, forward_answer a t ans))
        (net t j (forward_request fc a) now)"
    by (simp add: attempt_outcome_def attempt(3))
  show ?case
  proof (cases rule: loop_from_cases[OF attempt(1), where net = net and t = t and fc = fc and a = a
      and now = now and b = b])
    case 1
    then have "settles (attempt_outcome net rc fc a t t0 j)" by (simp add: out settles_def)
    then show ?thesis using 1 attempt(1) out
      by (cases "j = unat (max_retries rc)") (simp_all add: upt_rec[of j])
  next
    case (2 d ans)
    then have "settles (attempt_outcome net rc fc a t t0 j)" by (simp add: out settles_def)
    then show ?thesis using 2 attempt(1) out
      by (cases "j = unat (max_retries rc)") (simp_all add: upt_rec[of j])
  next
    case (3 d ans)
    then show ?thesis using out by simp
  next
    case (4 d ans)
    then have "\<not> settles (attempt_outcome net rc fc a t t0 j)" by (simp add: out settles_def)
    moreover have "attempt_start net rc (forward_request fc a) t t0 (Suc j) = Some (now + d + b)"
      using 4(1) attempt(3,4) by simp
    ultimately show ?thesis using attempt(2)[OF 4(3)] 4(3,4) attempt(4)
      by (simp add: Let_def upt_rec[of j])
  qed
qed

lemma forward_with_retry_loop:
  "forward_with_retry net rc fc a t = loop_from net rc fc a t 0 (initial_backoff rc)"
  by (simp add: forward_with_retry_def loop_from_def fun_eq_iff)

lemma forward_with_retry_spec:
  "snd (forward_with_retry net rc fc a t now) = retry_spec net rc fc a t now"
  unfolding forward_with_retry_loop retry_spec_def by (rule loop_from_spec) simp_all

lemma forward_with_retry_result:
  assumes "snd (forward_with_retry net rc fc a t now) = Some (e, r)"
  shows "(\<exists>ans. r = forward_answer a t ans) \<and>
    (if is_retryable r
     then trips (fst (forward_with_retry net rc fc a t now)) = [(e, a, rc_cooldown rc)] \<and>
       sends (fst (forward_with_retry net rc fc a t now)) =
         attempts_sent t (forward_request fc a) 0 (unat (max_retries rc))
     else trips (fst (forward_with_retry net rc fc a t now)) = [])"
  using loop_from_result[of 0 rc net fc a t "initial_backoff rc" now e r] assms
  unfolding forward_with_retry_loop by blast

lemma forward_answer_not_unavailable: "forward_answer a t ans \<noteq> Inl NoUpstreamAvailable"
  by (cases ans) simp_all

section \<open>Membership in the effects\<close>

lemma map_filter_mem: "y \<in> set (List.map_filter f xs) \<longleftrightarrow> (\<exists>x\<in>set xs. f x = Some y)"
  by (auto simp: List.map_filter_def image_iff)

lemma trip_of_iff: "trip_of e = Some (s, a, d) \<longleftrightarrow> e = (s, Trip a d)"
  by (cases e rule: trip_of.cases) auto

lemma sent_request_iff: "sent_request e = Some (t, k, r) \<longleftrightarrow> (\<exists>s. e = (s, SendRequest t k r))"
  by (cases e rule: sent_request.cases) auto

lemma trips_mem: "(s, a, d) \<in> set (trips es) \<longleftrightarrow> (s, Trip a d) \<in> set es"
  by (auto simp: trips_def map_filter_mem trip_of_iff)

lemma sends_mem: "(t, k, r) \<in> set (sends es) \<longleftrightarrow> (\<exists>s. (s, SendRequest t k r) \<in> set es)"
  by (auto simp: sends_def map_filter_mem sent_request_iff)

text \<open>Whatever the network does, a forward trips its own upstream only, at its completion.\<close>

lemma forward_with_retry_trips:
  assumes "(s, Trip a' d) \<in> set (fst (forward_with_retry net rc fc a t now))"
  shows "a' = a \<and> d = rc_cooldown rc \<and>
    (\<exists>r. snd (forward_with_retry net rc fc a t now) = Some (s, r) \<and> is_retryable r)"
proof (cases "snd (forward_with_retry net rc fc a t now)")
  case None
  then have "trips (fst (forward_with_retry net rc fc a t now)) = []"
    unfolding forward_with_retry_loop by (intro loop_from_hung) simp_all
  then show ?thesis using assms unfolding trips_mem[symmetric] by simp
next
  case (Some er)
  obtain e r where "snd (forward_with_retry net rc fc a t now) = Some (e, r)"
    using Some by (cases er) simp
  from forward_with_retry_result[OF this] this show ?thesis
    using assms unfolding trips_mem[symmetric] by (auto split: if_splits)
qed

text \<open>And it sends nothing but the buffered request to its own upstream.\<close>

lemma forward_with_retry_sends:
  assumes "(s, SendRequest t' k r) \<in> set (fst (forward_with_retry net rc fc a t now))"
  shows "t' = t \<and> r = forward_request fc a \<and> k \<le> unat (max_retries rc)"
proof -
  obtain m where m: "m \<le> unat (max_retries rc)"
    "sends (fst (forward_with_retry net rc fc a t now)) = attempts_sent t (forward_request fc a) 0 m"
    using loop_from_sends[of 0 rc net fc a t "initial_backoff rc" now]
    unfolding forward_with_retry_loop by blast
  have "(t', k, r) \<in> set (attempts_sent t (forward_request fc a) 0 m)"
    unfolding m(2)[symmetric] sends_mem using assms by blast
  with m(1) show ?thesis by (auto simp: attempts_sent_def)
qed

text \<open>The mark of a started hedge is not an effect of a forward.\<close>

lemma loop_from_no_start:
  assumes "j \<le> unat (max_retries rc)"
  shows "(s, SecondaryStarted) \<notin> set (fst (loop_from net rc fc a t j b now))"
  using assms
proof (induction j b now rule: attempts_induct)
  case (attempt j b now)
  show ?case
    by (cases rule: loop_from_cases[OF attempt(1), where net = net and t = t and fc = fc and a = a
      and now = now and b = b]) (use attempt(2) in \<open>auto simp: Let_def\<close>)
qed

lemma forward_with_retry_no_start:
  "(s, SecondaryStarted) \<in> set (fst (forward_with_retry net rc fc a t now)) \<Longrightarrow> False"
  unfolding forward_with_retry_loop using loop_from_no_start[of 0 rc] by simp

text \<open>A forward that its first attempt settles.\<close>

lemma forward_with_retry_hang:
  "net t 0 (forward_request fc a) now = None \<Longrightarrow>
     forward_with_retry net rc fc a t now = ([(now, SendRequest t 0 (forward_request fc a))], None)"
  unfolding forward_with_retry_loop
  by (cases rule: loop_from_cases[of 0 rc net t fc a now "initial_backoff rc"]) simp_all

lemma forward_with_retry_final:
  assumes "net t 0 (forward_request fc a) now = Some (d, ans)"
    and "\<not> is_retryable (forward_answer a t ans)"
  shows "forward_with_retry net rc fc a t now =
    ([(now, SendRequest t 0 (forward_request fc a))], Some (now + d, forward_answer a t ans))"
  unfolding forward_with_retry_loop
  by (cases rule: loop_from_cases[of 0 rc net t fc a now "initial_backoff rc"])
    (use assms in simp_all)

section \<open>A concrete request\<close>

definition demo_ctx :: forward_ctx where
  "demo_ctx = \<lparr>fc_scheme = Http, fc_method = ''POST'', fc_path_and_query = ''/v1/embeddings'',
     fc_headers = [(''x-tenant'', ''a'')], fc_body = ''{}''\<rparr>"

section \<open>Properties\<close>

text \<open>C11: the retry loop gives what its specification says: the outcome of the first attempt
  that settles the request (a non-5xx response, or no answer at all), else of the last
  attempt, at the instant that attempt completes, every attempt but the first starting one
  backoff after the failure before it.\<close>
theorem retry_loop_refines_spec:
  "snd (forward_with_retry net rc fc a t now) = retry_spec net rc fc a t now"
  by (rule forward_with_retry_spec)

text \<open>C12: a forward trips its upstream exactly once, for the configured cooldown and at its
  completion, when it ends with a 5xx response or a transport error, and never otherwise.\<close>
theorem retry_trips_iff_exhausted:
  "trips (fst (forward_with_retry net rc fc a t now)) =
     (case snd (forward_with_retry net rc fc a t now) of
        Some (e, r) \<Rightarrow> if is_retryable r then [(e, a, rc_cooldown rc)] else []
      | None \<Rightarrow> [])"
proof (cases "snd (forward_with_retry net rc fc a t now)")
  case None
  then show ?thesis unfolding forward_with_retry_loop by (simp add: loop_from_hung)
next
  case (Some er)
  obtain e r where er: "er = (e, r)" by fastforce
  then have "snd (forward_with_retry net rc fc a t now) = Some (e, r)" using Some by simp
  from forward_with_retry_result[OF this] show ?thesis using Some er by (simp split: if_splits)
qed

text \<open>C25: a forward sends the buffered request to its own upstream, as attempts 0, 1, 2 and so
  on without gap or repetition, at most \<open>max_retries + 1\<close> times, and fewer than that only when
  an attempt got a final answer or none at all.\<close>
theorem retry_attempts:
  "\<exists>m. m \<le> unat (max_retries rc) \<and>
     sends (fst (forward_with_retry net rc fc a t now)) = map (\<lambda>k. (t, k, forward_request fc a)) [0..<Suc m] \<and>
     (m = unat (max_retries rc) \<or> settles (snd (forward_with_retry net rc fc a t now)))"
proof -
  obtain m where m: "m \<le> unat (max_retries rc)"
    "sends (fst (forward_with_retry net rc fc a t now)) = attempts_sent t (forward_request fc a) 0 m"
    using loop_from_sends[of 0 rc net fc a t "initial_backoff rc" now]
    unfolding forward_with_retry_loop by blast
  have len: "length (attempts_sent t (forward_request fc a) 0 k) = Suc k" for k
    by (simp add: attempts_sent_def)
  have "m = unat (max_retries rc) \<or> settles (snd (forward_with_retry net rc fc a t now))"
  proof (cases "snd (forward_with_retry net rc fc a t now)")
    case (Some er)
    obtain e r where er: "snd (forward_with_retry net rc fc a t now) = Some (e, r)"
      using Some by (cases er) simp
    show ?thesis
    proof (cases "is_retryable r")
      case True
      then have "attempts_sent t (forward_request fc a) 0 m =
          attempts_sent t (forward_request fc a) 0 (unat (max_retries rc))"
        using forward_with_retry_result[OF er] unfolding m(2) by simp
      from arg_cong[OF this, of length] show ?thesis unfolding len by simp
    qed (simp add: er settles_def)
  qed (simp add: settles_def)
  with m show ?thesis unfolding attempts_sent_def by blast
qed

text \<open>If every request is answered within \<open>D\<close>, a forward completes within
  \<open>D + max_retries * (D + max_backoff)\<close>.\<close>
lemma retry_loop_bound:
  assumes "answers_within net D" and "initial_backoff rc \<le> max_backoff rc"
  shows "\<exists>e r. snd (forward_with_retry net rc fc a t now) = Some (e, r) \<and>
    e \<le> now + D + unat (max_retries rc) * (D + max_backoff rc)"
  using loop_from_bound[OF assms(1), of 0 rc "initial_backoff rc" fc a t now] assms(2)
  unfolding forward_with_retry_loop by simp

lemma retry_loop_bound_witness:
  "\<exists>e r. snd (forward_with_retry (\<lambda>t k r now. Some (5, TransportError (ExtError ''refused'' None)))
       (retry_config_of default_config) demo_ctx demo_addr Gpu 0) = Some (e, r) \<and>
     e \<le> 5 + 3 * (5 + from_millis 1000)"
proof -
  let ?rc = "retry_config_of default_config"
  have rc: "initial_backoff ?rc \<le> max_backoff ?rc" "max_backoff ?rc = from_millis 1000"
    "max_retries ?rc = 3"
    by (simp_all add: retry_config_of_def default_config_def from_millis_def)
  have "answers_within (\<lambda>t k r now. Some (5, TransportError (ExtError ''refused'' None))) 5"
    by (simp add: answers_within_def)
  from retry_loop_bound[OF this rc(1), of demo_ctx demo_addr Gpu 0] show ?thesis
    unfolding rc(2,3) by simp
qed

text \<open>With an initial backoff no larger than the maximum, the \<open>k\<close>-th sleep of the loop is
  the initial backoff doubled \<open>k\<close> times, capped at the maximum; the saturating
  multiplication never shows.\<close>
lemma backoff_doubles:
  assumes "initial_backoff rc \<le> max_backoff rc" and "max_backoff rc \<le> duration_max"
  shows "nth_backoff rc k = min (2 ^ k * initial_backoff rc) (max_backoff rc)"
  using assms by (rule nth_backoff_closed)

text \<open>C28: what the client sees of an upstream response: its status and body, the two
  observability headers set to the upstream and its pool whatever the upstream sent under
  these names, no hop-by-hop header, and of every other header name the last value only.\<close>
theorem response_headers:
  "\<exists>resp. forward_answer a t (Answered code hs body) = Inr resp \<and> resp_body resp = body \<and>
     resp_status resp = (if 100 \<le> code \<and> code \<le> 999 then code else 500) \<and>
     hm_values (resp_headers resp) k =
       (if k = ''x-bge-router-pool'' then [pool_as_str t]
        else if k = ''x-bge-router-upstream'' then [show_addr a]
        else if is_hop_by_hop k \<or> hm_values hs k = [] then [] else [last (hm_values hs k)])"
proof -
  obtain resp where r: "forward_answer a t (Answered code hs body) = Inr resp" by simp
  from forward_answer_headers[OF r, of k] show ?thesis
    using r by (auto simp: status_from_u16_def unwrap_or_def)
qed

text \<open>The request an upstream receives is the client's: its method, body and query, the
  path under the upstream's own URL, and every header with all its values except the
  hop-by-hop ones.\<close>
lemma request_headers:
  "req_method (forward_request fc a) = fc_method fc \<and> req_body (forward_request fc a) = fc_body fc \<and>
   req_url (forward_request fc a) =
     scheme_as_str (fc_scheme fc) @ ''://'' @ show_addr a @ fc_path_and_query fc \<and>
   hm_values (req_headers (forward_request fc a)) k =
     (if is_hop_by_hop k then [] else hm_values (fc_headers fc) k)"
  unfolding hm_values_forward_request by (simp add: forward_request_def upstream_url_def fmt_scheme_def)

end
