(* ===== verification/Policy.thy ===== *)
theory Policy
  imports Circuit_Breaker
begin

text \<open>
  \<open>src/router/policy.rs\<close>: choosing an upstream from a snapshot. Every function of the
  source reads the clock once and then is a pure function of the snapshot and that
  reading, the argument \<open>now\<close>.

  The first section is the code; the second states the contract of a selector as a locale
  and discharges it for the selectors of the code; the third gives the documented priority
  order as a specification (a tier for every upstream, the least tier and then the least
  queue depth wins) and shows that \<open>pick\<close> implements it.
\<close>

section \<open>Operations\<close>

definition is_ok_eligible :: "upstream_info \<Rightarrow> instant \<Rightarrow> bool" where
  "is_ok_eligible u now \<longleftrightarrow> status u = Ok \<and> \<not> is_in_cooldown u now"

definition is_loading_eligible :: "upstream_info \<Rightarrow> instant \<Rightarrow> bool" where
  "is_loading_eligible u now \<longleftrightarrow>
     status u = Loading \<and> 0 < live_workers u \<and> \<not> is_in_cooldown u now"

type_synonym choice = "(socket_addr \<times> pool_type) option"

definition pick_ok :: "pool \<Rightarrow> pool_type \<Rightarrow> instant \<Rightarrow> choice" where
  "pick_ok p t now =
     map_option (\<lambda>u. (addr u, t))
       (min_by_key queue_depth (filter (\<lambda>u. is_ok_eligible u now) p))"

definition pick_loading :: "pool \<Rightarrow> pool_type \<Rightarrow> instant \<Rightarrow> choice" where
  "pick_loading p t now =
     map_option (\<lambda>u. (addr u, t))
       (min_by_key queue_depth (filter (\<lambda>u. is_loading_eligible u now) p))"

definition pick_tier ::
  "pool \<Rightarrow> pool_type \<Rightarrow> instant \<Rightarrow> (upstream_info \<Rightarrow> bool) \<Rightarrow> choice" where
  "pick_tier p t now exclude =
     or_else
       (map_option (\<lambda>u. (addr u, t))
         (min_by_key queue_depth (filter (\<lambda>u. \<not> exclude u \<and> is_ok_eligible u now) p)))
       (map_option (\<lambda>u. (addr u, t))
         (min_by_key queue_depth (filter (\<lambda>u. \<not> exclude u \<and> is_loading_eligible u now) p)))"

definition pick :: "pool_snapshot \<Rightarrow> instant \<Rightarrow> choice" where
  "pick s now =
     or_else (or_else (or_else
       (pick_ok (gpu s) Gpu now)
       (pick_ok (cpu s) Cpu now))
       (pick_loading (gpu s) Gpu now))
       (pick_loading (cpu s) Cpu now)"

definition pick_gpu :: "pool_snapshot \<Rightarrow> instant \<Rightarrow> choice" where
  "pick_gpu s now = or_else (pick_ok (gpu s) Gpu now) (pick_loading (gpu s) Gpu now)"

definition pick_gpu_excluding :: "pool_snapshot \<Rightarrow> socket_addr \<Rightarrow> instant \<Rightarrow> choice" where
  "pick_gpu_excluding s a now = pick_tier (gpu s) Gpu now (\<lambda>u. addr u = a)"

definition pick_gpu_excluding_set :: "pool_snapshot \<Rightarrow> socket_addr list \<Rightarrow> instant \<Rightarrow> choice" where
  "pick_gpu_excluding_set s as now = pick_tier (gpu s) Gpu now (\<lambda>u. addr u \<in> set as)"

definition pick_cpu :: "pool_snapshot \<Rightarrow> instant \<Rightarrow> choice" where
  "pick_cpu s now = or_else (pick_ok (cpu s) Cpu now) (pick_loading (cpu s) Cpu now)"

text \<open>An upstream the policy may ever choose: the two eligibility tests together.\<close>

definition routable :: "upstream_info \<Rightarrow> instant \<Rightarrow> bool" where
  "routable u now \<longleftrightarrow> is_ok_eligible u now \<or> is_loading_eligible u now"

lemma routable_iff:
  "routable u now \<longleftrightarrow>
     (status u = Ok \<or> status u = Loading \<and> 0 < live_workers u) \<and> \<not> is_in_cooldown u now"
  by (auto simp: routable_def is_ok_eligible_def is_loading_eligible_def)

section \<open>The contract of a selector\<close>

locale upstream_selector =
  fixes sel :: "pool \<Rightarrow> instant \<Rightarrow> choice"
    and eligible :: "upstream_info \<Rightarrow> instant \<Rightarrow> bool"
    and tag :: pool_type
  assumes sel_Some: "sel p now = Some (a, t) \<Longrightarrow>
      t = tag \<and> (\<exists>u\<in>set p. addr u = a \<and> eligible u now)"
    and sel_None: "sel p now = None \<longleftrightarrow> (\<forall>u\<in>set p. \<not> eligible u now)"
    and eligible_routable: "eligible u now \<Longrightarrow> routable u now"
begin

lemma sel_tag: "sel p now = Some (a, t) \<Longrightarrow> t = tag"
  using sel_Some by blast

lemma sel_routable: "sel p now = Some (a, t) \<Longrightarrow> \<exists>u\<in>set p. addr u = a \<and> routable u now"
  using sel_Some eligible_routable by blast

lemma sel_mem: "sel p now = Some (a, t) \<Longrightarrow> a \<in> set (addrs_of p)"
  using sel_Some by force

lemma sel_finds: "u \<in> set p \<Longrightarrow> eligible u now \<Longrightarrow> \<exists>a. sel p now = Some (a, tag)"
  using sel_None[of p now] sel_tag[of p now] by (cases "sel p now") auto

lemma sel_empty [simp]: "sel [] now = None"
  by (simp add: sel_None)

lemma sel_all_cooled: "(\<And>u. u \<in> set p \<Longrightarrow> is_in_cooldown u now) \<Longrightarrow> sel p now = None"
  using eligible_routable by (auto simp: sel_None routable_iff)

text \<open>A tripped address is not chosen again while it cools down.\<close>

lemma sel_skips_cooled:
  assumes "sel p now = Some (a, t)" and "distinct (addrs_of p)"
  shows "\<not> cooled_in p a now"
proof
  assume "cooled_in p a now"
  obtain u where "u \<in> set p" "addr u = a" "routable u now"
    using sel_routable[OF assms(1)] by blast
  then show False
    using cooled_in_distinct[OF assms(2) \<open>cooled_in p a now\<close>] by (auto simp: routable_iff)
qed

end

lemma pick_head_Some:
  assumes "map_option (\<lambda>u. (addr u, t)) (min_by_key queue_depth (filter P p)) = Some (a, t')"
  shows "t' = t \<and> (\<exists>u\<in>set p. addr u = a \<and> P u)"
proof -
  obtain u where u: "min_by_key queue_depth (filter P p) = Some u" "addr u = a" "t' = t"
    using assms by auto
  then show ?thesis using min_by_key_filterD[OF u(1)] by auto
qed

lemma pick_head_None:
  "map_option (\<lambda>u. (addr u, t)) (min_by_key queue_depth (filter P p)) = None \<longleftrightarrow>
     (\<forall>u\<in>set p. \<not> P u)"
  by (auto simp: filter_empty_conv)

interpretation ok: upstream_selector "\<lambda>p now. pick_ok p t now" is_ok_eligible t for t
  by unfold_locales
    (simp_all only: pick_ok_def pick_head_Some pick_head_None routable_def simp_thms)

interpretation loading: upstream_selector "\<lambda>p now. pick_loading p t now" is_loading_eligible t for t
  by unfold_locales
    (simp_all only: pick_loading_def pick_head_Some pick_head_None routable_def simp_thms)

lemma pick_tier_Some:
  assumes "pick_tier p t now ex = Some (a, t')"
  shows "t' = t \<and> (\<exists>u\<in>set p. addr u = a \<and> \<not> ex u \<and> routable u now)"
  using assms unfolding pick_tier_def or_else_Some_iff routable_def
  by (elim disjE conjE) (drule pick_head_Some, blast)+

lemma pick_tier_None:
  "pick_tier p t now ex = None \<longleftrightarrow> (\<forall>u\<in>set p. ex u \<or> \<not> routable u now)"
  unfolding pick_tier_def or_else_None_iff pick_head_None routable_def by blast

interpretation tiered: upstream_selector "\<lambda>p now. pick_tier p t now ex"
    "\<lambda>u now. \<not> ex u \<and> routable u now" t for t ex
  by unfold_locales (auto simp: pick_tier_None dest: pick_tier_Some)

text \<open>The three GPU selectors and the CPU selector are one selector.\<close>

lemma pick_gpu_tier: "pick_gpu s now = pick_tier (gpu s) Gpu now (\<lambda>_. False)"
  by (simp add: pick_gpu_def pick_tier_def pick_ok_def pick_loading_def)

lemma pick_cpu_tier: "pick_cpu s now = pick_tier (cpu s) Cpu now (\<lambda>_. False)"
  by (simp add: pick_cpu_def pick_tier_def pick_ok_def pick_loading_def)

lemma pick_gpu_excluding_single:
  "pick_gpu_excluding s a now = pick_gpu_excluding_set s [a] now"
  by (simp add: pick_gpu_excluding_def pick_gpu_excluding_set_def)

lemma pick_gpu_excluding_nil: "pick_gpu_excluding_set s [] now = pick_gpu s now"
  by (simp add: pick_gpu_tier pick_gpu_excluding_set_def)

lemmas pick_tier_defs = pick_gpu_tier pick_cpu_tier pick_gpu_excluding_def pick_gpu_excluding_set_def

lemma pick_gpu_excluding_set_fresh:
  "pick_gpu_excluding_set s as now = Some (a, t) \<Longrightarrow> a \<notin> set as \<and> t = Gpu"
  unfolding pick_gpu_excluding_set_def by (drule pick_tier_Some) auto

section \<open>The documented priority order\<close>

datatype tier = OkGpu | OkCpu | LoadingGpu | LoadingCpu

fun tier_rank :: "tier \<Rightarrow> nat" where
  "tier_rank OkGpu = 1"
| "tier_rank OkCpu = 2"
| "tier_rank LoadingGpu = 3"
| "tier_rank LoadingCpu = 4"

instantiation tier :: linorder
begin

definition less_eq_tier :: "tier \<Rightarrow> tier \<Rightarrow> bool" where
  "a \<le> b \<longleftrightarrow> tier_rank a \<le> tier_rank b"

definition less_tier :: "tier \<Rightarrow> tier \<Rightarrow> bool" where
  "a < b \<longleftrightarrow> tier_rank a < tier_rank b"

instance
proof
  fix a b :: tier
  show "a \<le> b \<Longrightarrow> b \<le> a \<Longrightarrow> a = b"
    by (cases a; cases b) (simp_all add: less_eq_tier_def)
qed (auto simp: less_eq_tier_def less_tier_def)

end

definition tier_of :: "pool_type \<Rightarrow> upstream_info \<Rightarrow> instant \<Rightarrow> tier option" where
  "tier_of t u now =
     (if is_ok_eligible u now then Some (case t of Gpu \<Rightarrow> OkGpu | Cpu \<Rightarrow> OkCpu)
      else if is_loading_eligible u now
           then Some (case t of Gpu \<Rightarrow> LoadingGpu | Cpu \<Rightarrow> LoadingCpu)
      else None)"

definition candidates :: "pool_snapshot \<Rightarrow> (pool_type \<times> upstream_info) list" where
  "candidates s = map (Pair Gpu) (gpu s) @ map (Pair Cpu) (cpu s)"

text \<open>The specification: of all candidates with a tier, the least (tier, queue depth).\<close>

definition pick_spec :: "pool_snapshot \<Rightarrow> instant \<Rightarrow> choice" where
  "pick_spec s now =
     map_option (\<lambda>(t, u). (addr u, t))
       (min_by_key (\<lambda>(t, u). (the (tier_of t u now), queue_depth u))
         (filter (\<lambda>(t, u). tier_of t u now \<noteq> None) (candidates s)))"

text \<open>Splitting the least (tier, key) pair by its least possible tier.\<close>

lemma min_by_key_tiers:
  fixes T :: "'a \<Rightarrow> 't::linorder" and K :: "'a \<Rightarrow> 'k::linorder"
  assumes "\<forall>x\<in>set xs. t0 \<le> T x"
  shows "min_by_key (\<lambda>x. (T x, K x)) xs =
    or_else (min_by_key K (filter (\<lambda>x. T x = t0) xs))
      (min_by_key (\<lambda>x. (T x, K x)) (filter (\<lambda>x. T x \<noteq> t0) xs))"
  using assms
proof (induction xs)
  case (Cons a xs)
  then have IH: "min_by_key (\<lambda>x. (T x, K x)) xs =
    or_else (min_by_key K (filter (\<lambda>x. T x = t0) xs))
      (min_by_key (\<lambda>x. (T x, K x)) (filter (\<lambda>x. T x \<noteq> t0) xs))" and "t0 \<le> T a"
    and ge: "\<forall>x\<in>set xs. t0 \<le> T x" by auto
  have mem0: "T y = t0" if "min_by_key K (filter (\<lambda>x. T x = t0) xs) = Some y" for y
    using min_by_key_mem[OF that] by simp
  have memN: "t0 < T y"
    if "min_by_key (\<lambda>x. (T x, K x)) (filter (\<lambda>x. T x \<noteq> t0) xs) = Some y" for y
    using min_by_key_mem[OF that] ge by (auto simp: less_le)
  show ?case
  proof (cases "T a = t0")
    case True
    show ?thesis
    proof (cases "min_by_key K (filter (\<lambda>x. T x = t0) xs)")
      case None
      then show ?thesis using True IH memN
        by (simp add: less_eq_prod_def split: option.splits)
    next
      case (Some y)
      then show ?thesis using True IH mem0[OF Some] by (simp add: less_eq_prod_def)
    qed
  next
    case False
    with \<open>t0 \<le> T a\<close> have lt: "t0 < T a" by simp
    show ?thesis
    proof (cases "min_by_key K (filter (\<lambda>x. T x = t0) xs)")
      case None
      then show ?thesis using False IH by simp
    next
      case (Some y)
      have "\<not> (T a, K a) \<le> (T y, K y)" using lt mem0[OF Some] by (auto simp: less_eq_prod_def)
      then show ?thesis using False IH Some by auto
    qed
  qed
qed simp

lemma OkGpu_least: "OkGpu \<le> t"
  by (cases t) (simp_all add: less_eq_tier_def)

lemma tier_next:
  "t \<noteq> OkGpu \<Longrightarrow> OkCpu \<le> t"
  "t \<noteq> OkGpu \<Longrightarrow> t \<noteq> OkCpu \<Longrightarrow> LoadingGpu \<le> t"
  "t \<noteq> OkGpu \<Longrightarrow> t \<noteq> OkCpu \<Longrightarrow> t \<noteq> LoadingGpu \<Longrightarrow> LoadingCpu \<le> t"
  by (cases t; simp add: less_eq_tier_def)+

definition in_tier :: "pool_snapshot \<Rightarrow> instant \<Rightarrow> tier \<Rightarrow> (pool_type \<times> upstream_info) list" where
  "in_tier s now k = filter (\<lambda>(t, u). tier_of t u now = Some k) (candidates s)"

lemma in_tier_eq:
  "in_tier s now OkGpu = map (Pair Gpu) (filter (\<lambda>u. is_ok_eligible u now) (gpu s))"
  "in_tier s now OkCpu = map (Pair Cpu) (filter (\<lambda>u. is_ok_eligible u now) (cpu s))"
  "in_tier s now LoadingGpu = map (Pair Gpu) (filter (\<lambda>u. is_loading_eligible u now) (gpu s))"
  "in_tier s now LoadingCpu = map (Pair Cpu) (filter (\<lambda>u. is_loading_eligible u now) (cpu s))"
  unfolding in_tier_def candidates_def filter_append filter_map
  by (auto simp: tier_of_def is_ok_eligible_def is_loading_eligible_def
      intro!: filter_cong[OF refl] filter_False arg_cong[of _ _ "map (Pair Gpu)"]
        arg_cong[of _ _ "map (Pair Cpu)"])

lemma pick_spec_tiers:
  "min_by_key (\<lambda>(t, u). (the (tier_of t u now), queue_depth u))
     (filter (\<lambda>(t, u). tier_of t u now \<noteq> None) (candidates s)) =
   or_else (or_else (or_else
     (min_by_key (queue_depth \<circ> snd) (in_tier s now OkGpu))
     (min_by_key (queue_depth \<circ> snd) (in_tier s now OkCpu)))
     (min_by_key (queue_depth \<circ> snd) (in_tier s now LoadingGpu)))
     (min_by_key (queue_depth \<circ> snd) (in_tier s now LoadingCpu))"
proof -
  define T where "T = (\<lambda>x. the (tier_of (fst x) (snd x) now))"
  define K where "K = (queue_depth \<circ> (snd :: pool_type \<times> upstream_info \<Rightarrow> upstream_info))"
  define xs where "xs = filter (\<lambda>(t, u). tier_of t u now \<noteq> None) (candidates s)"
  have tier: "filter (\<lambda>x. T x = k) xs = in_tier s now k" for k
    unfolding xs_def in_tier_def T_def filter_filter by (rule filter_cong) auto
  define ys where "ys = filter (\<lambda>x. T x \<noteq> OkGpu) xs"
  define zs where "zs = filter (\<lambda>x. T x \<noteq> OkCpu) ys"
  define vs where "vs = filter (\<lambda>x. T x \<noteq> LoadingGpu) zs"
  have "filter (\<lambda>x. T x \<noteq> LoadingCpu) vs = []"
    unfolding vs_def zs_def ys_def by (auto simp: filter_empty_conv) (metis tier.exhaust)
  moreover have "filter (\<lambda>x. T x = OkCpu) ys = in_tier s now OkCpu"
    "filter (\<lambda>x. T x = LoadingGpu) zs = in_tier s now LoadingGpu"
    "filter (\<lambda>x. T x = LoadingCpu) vs = in_tier s now LoadingCpu"
    unfolding vs_def zs_def ys_def filter_filter tier[symmetric]
    by (auto intro!: filter_cong[OF refl])
  moreover have "min_by_key (\<lambda>x. (T x, K x)) xs =
      or_else (min_by_key K (in_tier s now OkGpu)) (min_by_key (\<lambda>x. (T x, K x)) ys)"
    using min_by_key_tiers[of xs OkGpu T K] by (simp add: OkGpu_least tier ys_def)
  moreover have "min_by_key (\<lambda>x. (T x, K x)) ys =
      or_else (min_by_key K (filter (\<lambda>x. T x = OkCpu) ys)) (min_by_key (\<lambda>x. (T x, K x)) zs)"
    using min_by_key_tiers[of ys OkCpu T K] by (simp add: ys_def zs_def tier_next)
  moreover have "min_by_key (\<lambda>x. (T x, K x)) zs =
      or_else (min_by_key K (filter (\<lambda>x. T x = LoadingGpu) zs)) (min_by_key (\<lambda>x. (T x, K x)) vs)"
    using min_by_key_tiers[of zs LoadingGpu T K] by (simp add: ys_def zs_def vs_def tier_next)
  moreover have "min_by_key (\<lambda>x. (T x, K x)) vs =
      or_else (min_by_key K (filter (\<lambda>x. T x = LoadingCpu) vs))
        (min_by_key (\<lambda>x. (T x, K x)) (filter (\<lambda>x. T x \<noteq> LoadingCpu) vs))"
    using min_by_key_tiers[of vs LoadingCpu T K] by (simp add: ys_def zs_def vs_def tier_next)
  moreover have "(\<lambda>(t, u). (the (tier_of t u now), queue_depth u)) = (\<lambda>x. (T x, K x))"
    by (auto simp: T_def K_def)
  moreover have assoc: "or_else (or_else a b) c = or_else a (or_else b c)" for a b c :: "'z option"
    by (cases a) auto
  ultimately show ?thesis
    unfolding K_def[symmetric] xs_def[symmetric] by (simp add: assoc)
qed

lemma map_option_or_else: "map_option f (or_else a b) = or_else (map_option f a) (map_option f b)"
  by (cases a) auto

lemma pick_refines_spec: "pick s now = pick_spec s now"
  unfolding pick_spec_def pick_spec_tiers in_tier_eq min_by_key_map map_option_or_else
    pick_def pick_ok_def pick_loading_def
  by (simp add: option.map_comp comp_def)

lemma pick_None_iff:
  "pick s now = None \<longleftrightarrow> (\<forall>u\<in>set (upstreams s). \<not> routable u now)"
  unfolding pick_def or_else_None_iff ok.sel_None loading.sel_None routable_def by auto

text \<open>An eligible Ok CPU is chosen when no GPU is eligible as Ok.\<close>

lemma pick_ok_cpu:
  assumes "\<forall>u\<in>set (gpu s). \<not> is_ok_eligible u now" and "\<exists>u\<in>set (cpu s). is_ok_eligible u now"
  shows "\<exists>a. pick s now = Some (a, Cpu)"
proof -
  have g: "pick_ok (gpu s) Gpu now = None" using assms(1) unfolding ok.sel_None by blast
  have "pick_ok (cpu s) Cpu now \<noteq> None" using assms(2) unfolding ok.sel_None by blast
  then obtain a t where c: "pick_ok (cpu s) Cpu now = Some (a, t)" by auto
  then have "t = Cpu" using ok.sel_Some by blast
  then show ?thesis using g c by (simp add: pick_def)
qed

section \<open>Properties\<close>

text \<open>C18: \<open>pick\<close> chooses by the documented order: of all upstreams that may be routed to, the
  first one with the least pair of priority tier (Ok GPU, Ok CPU, Loading GPU, Loading CPU)
  and queue depth.\<close>
theorem pick_by_priority:
  "pick s now =
     map_option (\<lambda>(t, u). (addr u, t))
       (min_by_key (\<lambda>(t, u). (the (tier_of t u now), queue_depth u))
         (filter (\<lambda>(t, u). tier_of t u now \<noteq> None) (candidates s)))"
  by (rule pick_refines_spec[unfolded pick_spec_def])

text \<open>\<open>pick\<close> finds nothing exactly when no upstream of the snapshot is Ok, or Loading with
  a live worker, and out of its cooldown.\<close>
lemma pick_finds_nothing:
  "pick s now = None \<longleftrightarrow>
     filter (\<lambda>u. (status u = Ok \<or> status u = Loading \<and> 0 < live_workers u) \<and>
       \<not> is_in_cooldown u now) (upstreams s) = []"
  unfolding pick_None_iff routable_iff filter_empty_conv by simp

text \<open>An address that is cooling down in a vector with distinct addresses is chosen by none
  of the selectors of that vector.\<close>
lemma selectors_skip_tripped:
  assumes "cooled_in (gpu s) a now" and "distinct (addrs_of (gpu s))"
  shows "pick_gpu s now \<noteq> Some (a, t) \<and> pick_gpu_excluding s b now \<noteq> Some (a, t) \<and>
    pick_gpu_excluding_set s bs now \<noteq> Some (a, t) \<and> pick s now \<noteq> Some (a, Gpu)"
proof -
  note skip = tiered.sel_skips_cooled[where p = "gpu s" and now = now and a = a]
  have "pick s now \<noteq> Some (a, Gpu)"
  proof
    assume "pick s now = Some (a, Gpu)"
    then have "pick_ok (gpu s) Gpu now = Some (a, Gpu) \<or> pick_loading (gpu s) Gpu now = Some (a, Gpu)"
      unfolding pick_def or_else_Some_iff using ok.sel_tag loading.sel_tag by blast
    then show False using ok.sel_skips_cooled loading.sel_skips_cooled assms by blast
  qed
  then show ?thesis using skip assms unfolding pick_tier_defs by blast
qed

lemma selectors_skip_tripped_witness:
  "pick_gpu \<lparr>gpu = [demo_upstream demo_addr Gpu 0\<lparr>cooldown_until := Some 9\<rparr>, demo_upstream demo_addr2 Gpu 5],
     cpu = [], updated_at = 0\<rparr> 3 \<noteq> Some (demo_addr, Gpu)"
  by (rule selectors_skip_tripped[THEN conjunct1])
    (simp_all add: cooled_in_def demo_upstream_def is_in_cooldown_def demo_addr_def demo_addr2_def)

end
