(* ===== verification/Route_Policy.thy ===== *)
theory Route_Policy
  imports Config
begin

text \<open>
  \<open>src/router/route_policy.rs\<close>: which of the two fallback strategies a request path gets.
\<close>

datatype route_policy =
    Hedged duration               \<comment> \<open>\<open>delay\<close>\<close>
  | SequentialTimeout duration    \<comment> \<open>\<open>per_upstream\<close>\<close>

definition is_inference_path :: "string \<Rightarrow> bool" where
  "is_inference_path path_and_query =
     (let path = (case split_once CHR ''?'' path_and_query of
                    None \<Rightarrow> path_and_query
                  | Some (p, _) \<Rightarrow> p)
      in starts_with ''/v1/'' path \<and> str_contains ''embeddings'' path)"

definition for_path :: "string \<Rightarrow> config \<Rightarrow> route_policy" where
  "for_path path_and_query c =
     (if is_inference_path path_and_query then Hedged (hedge_delay c)
      else SequentialTimeout (control_timeout c))"

text \<open>The path is what precedes the first question mark.\<close>

lemma is_inference_path_no_query:
  "CHR ''?'' \<notin> set p \<Longrightarrow> is_inference_path p \<longleftrightarrow>
     starts_with ''/v1/'' p \<and> str_contains ''embeddings'' p"
  by (simp add: is_inference_path_def split_once_None[THEN iffD2])

lemma is_inference_path_query:
  "CHR ''?'' \<notin> set p \<Longrightarrow> is_inference_path (p @ ''?'' @ q) = is_inference_path p"
proof -
  assume p: "CHR ''?'' \<notin> set p"
  then have "split_once CHR ''?'' (p @ ''?'' @ q) = Some (p, q)"
    by (simp add: split_once_Some)
  with p show ?thesis by (simp add: is_inference_path_no_query) (simp add: is_inference_path_def)
qed

lemma starts_contains_overlap:
  assumes "starts_with ''/v1/'' p" and "str_contains ''embeddings'' p"
  shows "\<exists>a b. p = ''/v1/'' @ a @ ''embeddings'' @ b"
proof -
  obtain r where r: "p = ''/v1/'' @ r" using assms(1) by (auto simp: starts_with_iff)
  from assms(2) have "str_contains ''embeddings'' r" by (simp add: r starts_with_def)
  then show ?thesis unfolding str_contains_iff r by blast
qed

lemma is_inference_path_shape:
  assumes "CHR ''?'' \<notin> set p"
  shows "is_inference_path p \<longleftrightarrow> (\<exists>a b. p = ''/v1/'' @ a @ ''embeddings'' @ b)"
proof
  assume "is_inference_path p"
  then show "\<exists>a b. p = ''/v1/'' @ a @ ''embeddings'' @ b"
    using is_inference_path_no_query[OF assms] starts_contains_overlap by blast
next
  assume "\<exists>a b. p = ''/v1/'' @ a @ ''embeddings'' @ b"
  then obtain a b where p: "p = ''/v1/'' @ a @ ''embeddings'' @ b" by blast
  then have "p = (''/v1/'' @ a) @ ''embeddings'' @ b" by simp
  then have "str_contains ''embeddings'' p" unfolding str_contains_iff by blast
  moreover have "starts_with ''/v1/'' p" using p by (simp add: starts_with_def)
  ultimately show "is_inference_path p" using is_inference_path_no_query[OF assms] by blast
qed

section \<open>Properties\<close>

text \<open>A request is hedged exactly when its path, the part before the first question mark,
  is \<open>/v1/\<close> followed by a text that contains \<open>embeddings\<close>; every other request gets the
  sequential strategy. The delay and the budget are the configured ones.\<close>
lemma route_policy_of_path:
  "for_path pq c =
     (if \<exists>a b. takeWhile (\<lambda>ch. ch \<noteq> CHR ''?'') pq = ''/v1/'' @ a @ ''embeddings'' @ b
      then Hedged (hedge_delay c) else SequentialTimeout (control_timeout c))"
proof -
  define p where "p = takeWhile (\<lambda>ch. ch \<noteq> CHR ''?'') pq"
  have p: "CHR ''?'' \<notin> set p" using set_takeWhileD unfolding p_def by fastforce
  have "is_inference_path pq = is_inference_path p"
  proof (cases "CHR ''?'' \<in> set pq")
    case True
    then obtain xs q where pq: "pq = xs @ CHR ''?'' # q" "CHR ''?'' \<notin> set xs"
      using split_list_first by metis
    then have "takeWhile (\<lambda>ch. ch \<noteq> CHR ''?'') pq = xs"
      by (auto simp: takeWhile_append)
    then have "pq = p @ CHR ''?'' # q" using pq p_def by simp
    then show ?thesis using is_inference_path_query[OF p, of q] by simp
  next
    case False
    then have "p = pq" unfolding p_def by (auto simp: takeWhile_eq_all_conv)
    then show ?thesis by simp
  qed
  then have "is_inference_path pq \<longleftrightarrow> (\<exists>a b. p = ''/v1/'' @ a @ ''embeddings'' @ b)"
    using is_inference_path_shape[OF p] by blast
  then show ?thesis unfolding for_path_def p_def by presburger
qed

end
