(* ===== verification/Fallback.thy ===== *)
theory Fallback
  imports Proxy Policy Route_Policy
begin

text \<open>
  \<open>src/router/fallback.rs\<close>: how one request is dispatched: the hedged race for inference
  paths and the sequential attempts for all other paths.

  A request runs in a \<open>world\<close>: the clock and the content of the shared snapshot cell. The
  \<open>runtime\<close> is the environment: the network, the JSON serializer, and \<open>drift\<close>, what all
  other tasks (discovery, health polling, other requests) do to the cell between two instants;
  nothing is assumed of it. A run returns with its effects, result and world, never returns
  (\<open>Hung\<close>), or ends the process by a panic (\<open>Aborted\<close>, the instant overflow of
  \<open>trip\<close>; the release profile aborts on panic).
  The clock readings that follow each other without an \<open>await\<close> in between (the selectors of
  one dispatch, the readings of one \<open>trip\<close>) are taken at the same instant here; Pool_System
  and Circuit_Breaker keep those of \<open>trip\<close> apart.
\<close>

section \<open>Worlds and runs\<close>

record 'env world =
  w_now :: instant
  w_pool :: pool_snapshot
  w_env :: 'env

record 'env runtime =
  net :: network
  drift :: "instant \<Rightarrow> instant \<Rightarrow> pool_snapshot \<times> 'env \<Rightarrow> pool_snapshot \<times> 'env"
  to_json :: "header_map \<Rightarrow> string option"

datatype ('env, 'r) run =
    Returned "(instant \<times> effect) list" 'r "'env world"
  | Hung "(instant \<times> effect) list"
  | Aborted "(instant \<times> effect) list"

definition advance :: "'env runtime \<Rightarrow> instant \<Rightarrow> 'env world \<Rightarrow> 'env world" where
  "advance E t w =
     (case drift E (w_now w) t (w_pool w, w_env w) of
        (p, env) \<Rightarrow> \<lparr>w_now = t, w_pool = p, w_env = env\<rparr>)"

fun perform :: "'env runtime \<Rightarrow> instant \<times> effect \<Rightarrow> 'env world \<Rightarrow> 'env world option" where
  "perform E (s, Trip a d) w =
     (let w' = advance E s w
      in map_option (\<lambda>p. w'\<lparr>w_pool := p\<rparr>) (trip_at (w_pool w') a d s))"
| "perform E (s, _) w = Some (advance E s w)"

fun perform_all :: "'env runtime \<Rightarrow> (instant \<times> effect) list \<Rightarrow> 'env world \<Rightarrow> 'env world option" where
  "perform_all E [] w = Some w"
| "perform_all E (e # es) w = Option.bind (perform E e w) (perform_all E es)"

text \<open>The effects performed before the one that panics.\<close>

fun before_panic :: "'env runtime \<Rightarrow> (instant \<times> effect) list \<Rightarrow> 'env world \<Rightarrow> (instant \<times> effect) list" where
  "before_panic E [] w = []"
| "before_panic E (e # es) w =
     (case perform E e w of None \<Rightarrow> [] | Some w' \<Rightarrow> e # before_panic E es w')"

definition run_async :: "'env runtime \<Rightarrow> (effect, 'r) async \<Rightarrow> 'env world \<Rightarrow> ('env, 'r) run" where
  "run_async E m w =
     (case perform_all E (fst (m (w_now w))) w of
        None \<Rightarrow> Aborted (before_panic E (fst (m (w_now w))) w)
      | Some w' \<Rightarrow>
          (case snd (m (w_now w)) of
             None \<Rightarrow> Hung (fst (m (w_now w)))
           | Some (t', r) \<Rightarrow> Returned (fst (m (w_now w))) r (advance E t' w')))"

fun prepend :: "(instant \<times> effect) list \<Rightarrow> ('env, 'r) run \<Rightarrow> ('env, 'r) run" where
  "prepend es (Returned es' r w) = Returned (es @ es') r w"
| "prepend es (Hung es') = Hung (es @ es')"
| "prepend es (Aborted es') = Aborted (es @ es')"

fun bind_run :: "('env, 'a) run \<Rightarrow> ('a \<Rightarrow> 'env world \<Rightarrow> ('env, 'b) run) \<Rightarrow> ('env, 'b) run" where
  "bind_run (Returned es r w) k = prepend es (k r w)"
| "bind_run (Hung es) k = Hung es"
| "bind_run (Aborted es) k = Aborted es"

section \<open>Helpers of the source\<close>

definition ms :: "duration \<Rightarrow> u64" where
  "ms d = u64_saturate (as_millis d)"

fun is_winner :: "outcome \<Rightarrow> bool" where
  "is_winner (Inr resp) = (\<not> is_server_error (resp_status resp))"
| "is_winner (Inl e) = False"

fun loser_reason :: "outcome \<Rightarrow> string + u16" where
  "loser_reason (Inr resp) = Inr (resp_status resp)"
| "loser_reason (Inl e) = Inl (app_error_display e)"

definition fwd :: "'env runtime \<Rightarrow> config \<Rightarrow> forward_ctx \<Rightarrow> socket_addr \<Rightarrow> pool_type \<Rightarrow> (effect, outcome) async"
where
  "fwd E c fc a t = forward_with_retry (net E) (retry_config_of c) fc a t"

section \<open>The hedged race\<close>

record race_info =
  ri_path :: string
  ri_start :: instant
  ri_gpu :: socket_addr
  ri_secondary :: socket_addr
  ri_pool :: pool_type
  ri_x_headers :: "string option"

definition log_winner :: "race_info \<Rightarrow> string \<Rightarrow> instant \<Rightarrow> string \<Rightarrow> instant \<times> effect" where
  "log_winner ri who now loser_status =
     (now, Log (RaceWon who (ri_path ri) (ms (duration_since now (ri_start ri)))
                  (ri_gpu ri) (ri_secondary ri) (ri_pool ri) loser_status (ri_x_headers ri)))"

definition log_loser_attempt :: "race_info \<Rightarrow> string \<Rightarrow> socket_addr \<Rightarrow> outcome \<Rightarrow> instant \<Rightarrow> instant \<times> effect"
where
  "log_loser_attempt ri pool a result now =
     (now, Log (RaceLoser pool a (loser_reason result) (ms (duration_since now (ri_start ri)))))"

definition log_both_failed :: "race_info \<Rightarrow> instant \<Rightarrow> instant \<times> effect" where
  "log_both_failed ri now =
     (now, Log (BothFailed (ri_path ri) (ri_gpu ri) (ri_secondary ri) (ri_pool ri)))"

text \<open>
  \<open>tokio::select!\<close> with \<open>biased\<close>: of the enabled branches the one that completes first,
  the GPU branch (\<open>True\<close>) when both are ready at the same instant.
\<close>

fun next_branch ::
  "(instant \<times> outcome) option \<Rightarrow> (instant \<times> outcome) option \<Rightarrow> (bool \<times> instant \<times> outcome) option"
where
  "next_branch None None = None"
| "next_branch (Some (tg, rg)) None = Some (True, tg, rg)"
| "next_branch None (Some (ts, rs)) = Some (False, ts, rs)"
| "next_branch (Some (tg, rg)) (Some (ts, rs)) =
     (if tg \<le> ts then Some (True, tg, rg) else Some (False, ts, rs))"

definition enabled :: "bool \<Rightarrow> ('e, 'r) timeline \<Rightarrow> (instant \<times> 'r) option" where
  "enabled is_done fut = (if is_done then None else snd fut)"

lemma next_branch_done:
  "next_branch (enabled gd G) (enabled sd S) = Some (True, T, r) \<Longrightarrow> \<not> gd \<and> snd G = Some (T, r)"
  "next_branch (enabled gd G) (enabled sd S) = Some (False, T, r) \<Longrightarrow> \<not> sd \<and> snd S = Some (T, r)"
  by (cases "(enabled gd G, enabled sd S)" rule: next_branch.cases;
      auto simp: enabled_def split: if_splits)+

text \<open>
  The loop of \<open>select_winner\<close>. \<open>G\<close> and \<open>S\<close> are what is left of the two futures,
  \<open>hist\<close> the effects so far, \<open>now\<close> the instant of the last completion. When the GPU
  branch is taken at \<open>T\<close> the secondary future has been polled only before \<open>T\<close>; when the
  secondary branch is taken the GPU future has been polled at \<open>T\<close> as well. A return drops
  what is left of the other future.
\<close>

function select_winner ::
  "race_info \<Rightarrow> bool \<Rightarrow> bool \<Rightarrow> outcome option \<Rightarrow> outcome option \<Rightarrow>
   (effect, outcome) timeline \<Rightarrow> (effect, outcome) timeline \<Rightarrow>
   instant \<Rightarrow> (instant \<times> effect) list \<Rightarrow> (effect, outcome) timeline" where
  "select_winner ri gpu_done secondary_done gpu_failure secondary_failure G S now hist =
     (if gpu_done \<and> secondary_done then
        (hist @ [log_both_failed ri now],
         Some (now, unwrap_or (or_else gpu_failure secondary_failure) (Inl NoUpstreamAvailable)))
      else
        (case next_branch (enabled gpu_done G) (enabled secondary_done S) of
           None \<Rightarrow> (hist @ interleave (fst G) (fst S), None)
         | Some (True, T, result) \<Rightarrow>
             (let hist' = hist @ interleave (fst G) (effects_before T (fst S));
                  loser_status =
                    (if secondary_done then ''errored''
                     else if SecondaryStarted \<in> snd ` set hist' then ''cancelled''
                     else ''not_started'')
              in if is_winner result then
                   (hist' @ [log_winner ri ''primary_gpu'' T loser_status], Some (T, result))
                 else
                   select_winner ri True secondary_done (Some result) secondary_failure
                     ([], None) (effects_from T (fst S), snd S) T
                     (hist' @ [log_loser_attempt ri ''GPU'' (ri_gpu ri) result T]))
         | Some (False, T, result) \<Rightarrow>
             (let hist' = hist @ interleave (effects_until T (fst G)) (fst S);
                  loser_status = (if gpu_done then ''errored'' else ''cancelled'')
              in if is_winner result then
                   (hist' @ [log_winner ri ''secondary'' T loser_status], Some (T, result))
                 else
                   select_winner ri gpu_done True gpu_failure (Some result)
                     (effects_after T (fst G), snd G) ([], None) T
                     (hist' @ [log_loser_attempt ri (pool_as_str (ri_pool ri)) (ri_secondary ri) result T]))))"
  by pat_completeness auto
termination
  by (relation "measure (\<lambda>(ri, gd, sd, _). (if gd then 0 else 1) + (if sd then 0 else 1))")
    (auto dest: next_branch_done)

declare select_winner.simps [simp del]

text \<open>The secondary future: nothing before the hedge delay, then the second request.\<close>

definition secondary_fut ::
  "'env runtime \<Rightarrow> config \<Rightarrow> duration \<Rightarrow> forward_ctx \<Rightarrow> socket_addr \<Rightarrow> socket_addr \<Rightarrow> pool_type \<Rightarrow>
     (effect, outcome) async" where
  "secondary_fut E c delay fc ga sa sp =
     await (sleep delay) (\<lambda>_.
     await (emit SecondaryStarted) (\<lambda>_.
     await (emit (Log (FiringSecondary (fc_path_and_query fc) (ms delay) ga sa sp))) (\<lambda>_.
     fwd E c fc sa sp)))"

definition run_race ::
  "'env runtime \<Rightarrow> config \<Rightarrow> duration \<Rightarrow> socket_addr \<Rightarrow> socket_addr \<Rightarrow> pool_type \<Rightarrow> forward_ctx \<Rightarrow>
     string option \<Rightarrow> (effect, outcome) async" where
  "run_race E c delay ga sa sp fc xh start =
     select_winner
       \<lparr>ri_path = fc_path_and_query fc, ri_start = start, ri_gpu = ga, ri_secondary = sa,
        ri_pool = sp, ri_x_headers = xh\<rparr>
       False False None None
       (fwd E c fc ga Gpu start) (secondary_fut E c delay fc ga sa sp start) start []"

text \<open>A request with a single candidate: no race, and a log event for a response.\<close>

definition log_direct :: "string \<Rightarrow> socket_addr \<Rightarrow> string \<Rightarrow> u16 \<Rightarrow> string option \<Rightarrow> effect" where
  "log_direct path a pool st xh = Log (DirectResponse path a pool st xh)"

definition direct ::
  "'env runtime \<Rightarrow> config \<Rightarrow> forward_ctx \<Rightarrow> socket_addr \<Rightarrow> pool_type \<Rightarrow> string option \<Rightarrow> (effect, outcome) async"
where
  "direct E c fc a t xh =
     await (fwd E c fc a t) (\<lambda>result.
       case result of
         Inr resp \<Rightarrow>
           await (emit (log_direct (fc_path_and_query fc) a (pool_as_str t) (resp_status resp) xh))
             (\<lambda>_. ready result)
       | Inl e \<Rightarrow> ready result)"

definition x_headers_json :: "'env runtime \<Rightarrow> header_map \<Rightarrow> string option" where
  "x_headers_json E hs =
     (let xs = collect_x_headers hs
      in if x_headers_is_empty xs then None else Some (unwrap_or (to_json E xs) []))"

definition secondary_candidate :: "pool_snapshot \<Rightarrow> choice \<Rightarrow> instant \<Rightarrow> choice" where
  "secondary_candidate s gpu_candidate now =
     or_else
       (Option.bind gpu_candidate (\<lambda>(ga, _). pick_gpu_excluding_set s [ga] now))
       (pick_cpu s now)"

definition hedged_race ::
  "'env runtime \<Rightarrow> config \<Rightarrow> duration \<Rightarrow> forward_ctx \<Rightarrow> 'env world \<Rightarrow> ('env, outcome) run" where
  "hedged_race E c delay fc w =
     (let s = w_pool w;
          gpu_candidate = pick_gpu s (w_now w);
          secondary = secondary_candidate s gpu_candidate (w_now w);
          xh = x_headers_json E (fc_headers fc)
      in case gpu_candidate of
           None \<Rightarrow>
             (case secondary of
                None \<Rightarrow> Returned [] (Inl NoUpstreamAvailable) w
              | Some (sa, sp) \<Rightarrow> run_async E (direct E c fc sa sp xh) w)
         | Some (ga, _) \<Rightarrow>
             (case secondary of
                None \<Rightarrow> run_async E (direct E c fc ga Gpu xh) w
              | Some (sa, sp) \<Rightarrow> run_async E (run_race E c delay ga sa sp fc xh) w))"

section \<open>Sequential attempts\<close>

definition max_gpu_attempts :: nat where
  "max_gpu_attempts = 2"

definition attempt_cfg :: "retry_config \<Rightarrow> duration \<Rightarrow> retry_config" where
  "attempt_cfg rc per_upstream =
     (let attempts = unat (max_retries rc) + 1;
          per_attempt_budget = per_upstream div (if attempts < 2 ^ 32 then attempts else 1)
      in rc\<lparr>initial_backoff := min (initial_backoff rc) (per_attempt_budget div 2),
            max_backoff := min (max_backoff rc) (per_attempt_budget div 2)\<rparr>)"

text \<open>One GPU attempt: \<open>Some\<close> is the early return, \<open>None\<close> goes on to the next upstream.\<close>

definition gpu_attempt ::
  "'env runtime \<Rightarrow> config \<Rightarrow> duration \<Rightarrow> forward_ctx \<Rightarrow> socket_addr \<Rightarrow> (effect, outcome option) async" where
  "gpu_attempt E c per_upstream fc ga =
     await (timeout per_upstream
              (forward_with_retry (net E) (attempt_cfg (retry_config_of c) per_upstream) fc ga Gpu))
       (\<lambda>result. case result of
          Some (Inr resp) \<Rightarrow>
            (if \<not> is_server_error (resp_status resp) then ready (Some (Inr resp))
             else await (emit (Log (GpuServerError ga (resp_status resp)))) (\<lambda>_. ready None))
        | Some (Inl e) \<Rightarrow>
            await (emit (Log (GpuError ga (app_error_display e)))) (\<lambda>_. ready None)
        | None \<Rightarrow>
            await (emit (Trip ga (rc_cooldown (retry_config_of c)))) (\<lambda>_.
            await (emit (Log (GpuTimedOut ga (ms per_upstream)))) (\<lambda>_. ready None)))"

function gpu_loop ::
  "'env runtime \<Rightarrow> config \<Rightarrow> duration \<Rightarrow> forward_ctx \<Rightarrow> socket_addr list \<Rightarrow> choice \<Rightarrow> 'env world \<Rightarrow>
     ('env, outcome option) run" where
  "gpu_loop E c per_upstream fc tried None w = Returned [] None w"
| "gpu_loop E c per_upstream fc tried (Some (ga, t)) w =
     (if max_gpu_attempts \<le> length tried then
        Returned [(w_now w, Log (GpuCapReached ga max_gpu_attempts))] None w
      else
        bind_run (run_async E (gpu_attempt E c per_upstream fc ga) w) (\<lambda>result w'.
          case result of
            Some out \<Rightarrow> Returned [] (Some out) w'
          | None \<Rightarrow>
              (let tried' = tried @ [ga]
               in gpu_loop E c per_upstream fc tried'
                    (pick_gpu_excluding_set (w_pool w') tried' (w_now w')) w')))"
  by pat_completeness auto
termination
  by (relation "measure (\<lambda>(E, c, per, fc, tried, cand, w). max_gpu_attempts - length tried)") auto

definition forward_cpu_with_timeout ::
  "'env runtime \<Rightarrow> config \<Rightarrow> duration \<Rightarrow> forward_ctx \<Rightarrow> socket_addr \<Rightarrow> (effect, outcome) async" where
  "forward_cpu_with_timeout E c per_upstream fc ca =
     await (timeout per_upstream (forward_with_retry (net E) (retry_config_of c) fc ca Cpu))
       (\<lambda>result. case result of
          Some inner \<Rightarrow> ready inner
        | None \<Rightarrow>
            await (emit (Log (CpuTimedOut ca (ms per_upstream)))) (\<lambda>_.
            ready (Inl NoUpstreamAvailable)))"

definition sequential_timeout ::
  "'env runtime \<Rightarrow> config \<Rightarrow> duration \<Rightarrow> forward_ctx \<Rightarrow> 'env world \<Rightarrow> ('env, outcome) run" where
  "sequential_timeout E c per_upstream fc w =
     bind_run (gpu_loop E c per_upstream fc [] (pick_gpu (w_pool w) (w_now w)) w) (\<lambda>result w'.
       case result of
         Some out \<Rightarrow> Returned [] out w'
       | None \<Rightarrow>
           (case pick_cpu (w_pool w') (w_now w') of
              Some (ca, _) \<Rightarrow> run_async E (forward_cpu_with_timeout E c per_upstream fc ca) w'
            | None \<Rightarrow> Returned [] (Inl NoUpstreamAvailable) w'))"

section \<open>Dispatch\<close>

definition route ::
  "'env runtime \<Rightarrow> config \<Rightarrow> string \<Rightarrow> string \<Rightarrow> header_map \<Rightarrow> string \<Rightarrow> 'env world \<Rightarrow> ('env, outcome) run" where
  "route E c meth path_and_query headers body w =
     (let fc = \<lparr>fc_scheme = upstream_scheme_of c, fc_method = meth,
                fc_path_and_query = path_and_query, fc_headers = headers, fc_body = body\<rparr>
      in case for_path path_and_query c of
           Hedged delay \<Rightarrow> hedged_race E c delay fc w
         | SequentialTimeout per_upstream \<Rightarrow> sequential_timeout E c per_upstream fc w)"

section \<open>Facts about runs\<close>

fun effects_of :: "('env, 'r) run \<Rightarrow> (instant \<times> effect) list" where
  "effects_of (Returned es r w) = es"
| "effects_of (Hung es) = es"
| "effects_of (Aborted es) = es"

lemma advance_now [simp]: "w_now (advance E t w) = t"
  by (simp add: advance_def split: prod.split)

lemma advance_still:
  assumes "drift E = (\<lambda>_ _ x. x)"
  shows "advance E t w = w\<lparr>w_now := t\<rparr>"
  by (simp add: advance_def assms)

lemma perform_now: "perform E (s, e) w = Some w' \<Longrightarrow> w_now w' = s"
  by (cases e) (auto simp: Let_def)

lemma before_panic_prefix: "\<exists>es'. es = before_panic E es w @ es'"
proof (induction es arbitrary: w)
  case (Cons e es)
  show ?case
  proof (cases "perform E e w")
    case (Some w')
    from Cons[of w'] Some show ?thesis by simp
  qed simp
qed simp

lemma before_panic_subset: "set (before_panic E es w) \<subseteq> set es"
proof -
  obtain es' where es: "es = before_panic E es w @ es'" using before_panic_prefix by blast
  show ?thesis by (subst (2) es) simp
qed

lemma perform_all_None:
  "perform_all E es w = None \<Longrightarrow> \<exists>s a d. (s, Trip a d) \<in> set es \<and> instant_max < s + d"
proof (induction es arbitrary: w)
  case (Cons e es)
  show ?case
  proof (cases "perform E e w")
    case None
    then obtain s a d where "e = (s, Trip a d)"
      by (cases "(E, e, w)" rule: perform.cases) auto
    with None have "e = (s, Trip a d) \<and> instant_max < s + d"
      by (simp add: trip_at_def trip_def instant_add_def Let_def split: if_splits)
    then show ?thesis by auto
  next
    case (Some w')
    with Cons obtain s a d where "(s, Trip a d) \<in> set es" "instant_max < s + d" by force
    then show ?thesis by (meson list.set_intros(2))
  qed
qed simp

lemma run_async_Returned:
  "run_async E m w = Returned es r w' \<Longrightarrow>
     es = fst (m (w_now w)) \<and> snd (m (w_now w)) = Some (w_now w', r)"
  by (auto simp: run_async_def split: option.splits)

text \<open>The three ways in which a run of one computation ends.\<close>

lemma run_async_cases:
  obtains
    (returned) t' r w' where "snd (m (w_now w)) = Some (t', r)" "w_now w' = t'"
      "run_async E m w = Returned (fst (m (w_now w))) r w'"
  | (hung) "snd (m (w_now w)) = None" "run_async E m w = Hung (fst (m (w_now w)))"
  | (aborted) s a d where "(s, Trip a d) \<in> set (fst (m (w_now w)))" "instant_max < s + d"
      "run_async E m w = Aborted (before_panic E (fst (m (w_now w))) w)"
proof (cases "perform_all E (fst (m (w_now w))) w")
  case None
  then obtain s a d where "(s, Trip a d) \<in> set (fst (m (w_now w)))" "instant_max < s + d"
    using perform_all_None by blast
  then show thesis using None by (intro aborted) (simp_all add: run_async_def)
next
  case (Some w1)
  then show thesis
    using returned[where w' = "advance E _ w1"] hung
    by (cases "snd (m (w_now w))") (auto simp: run_async_def)
qed

text \<open>Without a trip nothing panics, and all effects are performed.\<close>

lemma run_async_no_trip:
  assumes "\<And>s a d. (s, Trip a d) \<notin> set (fst (m (w_now w)))"
  shows "effects_of (run_async E m w) = fst (m (w_now w))"
  by (cases rule: run_async_cases[of m w E]) (use assms in auto)

section \<open>Two concrete environments\<close>

text \<open>Every upstream answers 200 after a microsecond, or no upstream ever answers.\<close>

definition prompt_net :: network where
  "prompt_net t k r now = Some (1000, Answered 200 [] ''ok'')"

definition prompt_runtime :: "unit runtime" where
  "prompt_runtime = \<lparr>net = prompt_net, drift = (\<lambda>_ _ s. s), to_json = (\<lambda>_. None)\<rparr>"

definition silent_runtime :: "unit runtime" where
  "silent_runtime = \<lparr>net = (\<lambda>_ _ _ _. None), drift = (\<lambda>_ _ s. s), to_json = (\<lambda>_. None)\<rparr>"

end
