(* ===== verification/Race.thy ===== *)
theory Race
  imports Fallback
begin

text \<open>
  Facts about the hedged race of \<open>fallback.rs\<close>: the specification of its outcome, the
  cancellation of the loser, and the choice of the two candidates.
\<close>

section \<open>The select loop\<close>

lemmas select_states =
  select_winner.simps[where gpu_done = False and secondary_done = False]
  select_winner.simps[where gpu_done = True and secondary_done = False]
  select_winner.simps[where gpu_done = False and secondary_done = True]
  select_winner.simps[where gpu_done = True and secondary_done = True]

lemma enabled_simps [simp]: "enabled True F = None" "enabled False F = snd F"
  by (simp_all add: enabled_def)

lemma is_winner_iff: "is_winner r \<longleftrightarrow> \<not> is_retryable r"
  by (cases r) simp_all

text \<open>
  The specification of a race: a future wins that completes with a winner before the other
  one does (the GPU on a tie); two losers give the GPU outcome once both have completed.
\<close>

definition winning :: "(instant \<times> outcome) option \<Rightarrow> bool" where
  "winning f = (case f of None \<Rightarrow> False | Some (_, r) \<Rightarrow> is_winner r)"

definition race_spec ::
  "(instant \<times> outcome) option \<Rightarrow> (instant \<times> outcome) option \<Rightarrow> (instant \<times> outcome) option"
where
  "race_spec g s =
     (if winning g \<and> (winning s \<longrightarrow> fst (the g) \<le> fst (the s)) then g
      else if winning s then s
      else (case (g, s) of
              (Some (tg, rg), Some (ts, rs)) \<Rightarrow> Some (max tg ts, rg)
            | _ \<Rightarrow> None))"

lemma select_winner_spec:
  "snd (select_winner ri False False None None G S now hist) = race_spec (snd G) (snd S)"
proof (cases "(snd G, snd S)" rule: next_branch.cases)
  case 1
  then show ?thesis by (simp add: select_states race_spec_def winning_def)
next
  case (2 tg rg)
  then show ?thesis by (simp add: select_states race_spec_def winning_def Let_def)
next
  case (3 ts rs)
  then show ?thesis by (simp add: select_states race_spec_def winning_def Let_def)
next
  case (4 tg rg ts rs)
  then show ?thesis
    by (simp add: select_states race_spec_def winning_def Let_def unwrap_or_def max_def)
qed

section \<open>Effects of the race\<close>

definition race_log :: "instant \<times> effect \<Rightarrow> bool" where
  "race_log e \<longleftrightarrow> (\<exists>s l. e = (s, Log l))"

lemma race_logs [simp]:
  "race_log (log_winner ri who T st)" "race_log (log_loser_attempt ri p a r T)"
  "race_log (log_both_failed ri T)"
  by (auto simp: race_log_def log_winner_def log_loser_attempt_def log_both_failed_def)

lemma effects_mem [simp]:
  "x \<in> set (effects_before T es) \<longleftrightarrow> x \<in> set es \<and> fst x < T"
  "x \<in> set (effects_until T es) \<longleftrightarrow> x \<in> set es \<and> fst x \<le> T"
  "x \<in> set (effects_from T es) \<longleftrightarrow> x \<in> set es \<and> T \<le> fst x"
  "x \<in> set (effects_after T es) \<longleftrightarrow> x \<in> set es \<and> T < fst x"
  by (auto simp: effects_before_def effects_until_def effects_from_def effects_after_def)

text \<open>One turn of the loop, seen from the branch that is taken.\<close>

definition not_before :: "instant \<Rightarrow> (instant \<times> 'r) option \<Rightarrow> bool" where
  "not_before T f = (case f of None \<Rightarrow> True | Some (t, _) \<Rightarrow> T \<le> t)"

lemma next_branch_first:
  "next_branch g s = Some (True, T, r) \<Longrightarrow> not_before T s"
  "next_branch g s = Some (False, T, r) \<Longrightarrow> not_before (Suc T) g"
  by (cases "(g, s)" rule: next_branch.cases; simp add: not_before_def split: if_splits)+

lemma select_winner_cases:
  obtains
    (both) "gd" "sd" "select_winner ri gd sd gf sf G S now hist =
        (hist @ [log_both_failed ri now], Some (now, unwrap_or (or_else gf sf) (Inl NoUpstreamAvailable)))"
  | (never) "\<not> (gd \<and> sd)" "enabled gd G = None" "enabled sd S = None"
      "select_winner ri gd sd gf sf G S now hist = (hist @ interleave (fst G) (fst S), None)"
  | (gpu_wins) T r st where "\<not> gd" "snd G = Some (T, r)" "is_winner r"
      "not_before T (enabled sd S)"
      "select_winner ri gd sd gf sf G S now hist =
        (hist @ interleave (fst G) (effects_before T (fst S)) @ [log_winner ri ''primary_gpu'' T st],
         Some (T, r))"
  | (gpu_loses) T r where "\<not> gd" "snd G = Some (T, r)" "\<not> is_winner r"
      "not_before T (enabled sd S)"
      "select_winner ri gd sd gf sf G S now hist =
        select_winner ri True sd (Some r) sf ([], None) (effects_from T (fst S), snd S) T
          (hist @ interleave (fst G) (effects_before T (fst S)) @
            [log_loser_attempt ri ''GPU'' (ri_gpu ri) r T])"
  | (secondary_wins) T r st where "\<not> sd" "snd S = Some (T, r)" "is_winner r"
      "not_before (Suc T) (enabled gd G)"
      "select_winner ri gd sd gf sf G S now hist =
        (hist @ interleave (effects_until T (fst G)) (fst S) @ [log_winner ri ''secondary'' T st],
         Some (T, r))"
  | (secondary_loses) T r where "\<not> sd" "snd S = Some (T, r)" "\<not> is_winner r"
      "not_before (Suc T) (enabled gd G)"
      "select_winner ri gd sd gf sf G S now hist =
        select_winner ri gd True gf (Some r) (effects_after T (fst G), snd G) ([], None) T
          (hist @ interleave (effects_until T (fst G)) (fst S) @
            [log_loser_attempt ri (pool_as_str (ri_pool ri)) (ri_secondary ri) r T])"
proof (cases "gd \<and> sd")
  case True
  then show thesis by (intro both) (simp_all add: select_states)
next
  case nd: False
  note sw = select_winner.simps[of ri gd sd gf sf G S now hist]
  show thesis
  proof (cases "next_branch (enabled gd G) (enabled sd S)")
    case None
    then have "enabled gd G = None" "enabled sd S = None"
      by (cases "(enabled gd G, enabled sd S)" rule: next_branch.cases; simp split: if_splits)+
    with nd None show thesis by (intro never) (auto simp: sw)
  next
    case (Some br)
    obtain b T r where br: "br = (b, T, r)" by (cases br) auto
    show thesis
    proof (cases b)
      case True
      with Some br have nb: "next_branch (enabled gd G) (enabled sd S) = Some (True, T, r)" by simp
      note facts = next_branch_done(1)[OF nb] next_branch_first(1)[OF nb]
      have eq: "select_winner ri gd sd gf sf G S now hist =
        (let hist' = hist @ interleave (fst G) (effects_before T (fst S));
             st = (if sd then ''errored''
                   else if SecondaryStarted \<in> snd ` set hist' then ''cancelled'' else ''not_started'')
         in if is_winner r then (hist' @ [log_winner ri ''primary_gpu'' T st], Some (T, r))
            else select_winner ri True sd (Some r) sf ([], None) (effects_from T (fst S), snd S) T
              (hist' @ [log_loser_attempt ri ''GPU'' (ri_gpu ri) r T]))"
        unfolding sw nb using facts nd by simp
      show thesis
      proof (cases "is_winner r")
        case True
        note eq1 = eq[unfolded Let_def if_P[OF True] append_assoc]
        show thesis by (rule gpu_wins[OF _ _ True _ eq1]) (use facts in simp_all)
      next
        case False
        note eq1 = eq[unfolded Let_def if_not_P[OF False] append_assoc]
        show thesis by (rule gpu_loses[OF _ _ False _ eq1]) (use facts in simp_all)
      qed
    next
      case False
      with Some br have nb: "next_branch (enabled gd G) (enabled sd S) = Some (False, T, r)" by simp
      note facts = next_branch_done(2)[OF nb] next_branch_first(2)[OF nb]
      have eq: "select_winner ri gd sd gf sf G S now hist =
        (let hist' = hist @ interleave (effects_until T (fst G)) (fst S);
             st = (if gd then ''errored'' else ''cancelled'')
         in if is_winner r then (hist' @ [log_winner ri ''secondary'' T st], Some (T, r))
            else select_winner ri gd True gf (Some r) (effects_after T (fst G), snd G) ([], None) T
              (hist' @ [log_loser_attempt ri (pool_as_str (ri_pool ri)) (ri_secondary ri) r T]))"
        unfolding sw nb using facts nd by simp
      show thesis
      proof (cases "is_winner r")
        case True
        note eq1 = eq[unfolded Let_def if_P[OF True] append_assoc]
        show thesis by (rule secondary_wins[OF _ _ True _ eq1]) (use facts in simp_all)
      next
        case False
        note eq1 = eq[unfolded Let_def if_not_P[OF False] append_assoc]
        show thesis by (rule secondary_loses[OF _ _ False _ eq1]) (use facts in simp_all)
      qed
    qed
  qed
qed

lemma select_measure_induct [case_names turn]:
  assumes "\<And>gd sd gf sf G S now hist.
     (\<And>gf' G' S' now' hist'. \<not> gd \<Longrightarrow> P True sd gf' sf G' S' now' hist') \<Longrightarrow>
     (\<And>sf' G' S' now' hist'. \<not> sd \<Longrightarrow> P gd True gf sf' G' S' now' hist') \<Longrightarrow>
     P gd sd gf sf G S now hist"
  shows "P gd sd gf sf (G :: (effect, outcome) timeline) (S :: (effect, outcome) timeline)
    (now :: instant) (hist :: (instant \<times> effect) list)"
proof (induction "(if gd then 0 else 1) + (if sd then 0 else 1) :: nat"
    arbitrary: gd sd gf sf G S now hist rule: less_induct)
  case less
  show ?case by (rule assms) (rule less; simp)+
qed

lemma select_winner_effects:
  "e \<in> set (fst (select_winner ri gd sd gf sf G S now hist)) \<Longrightarrow>
     e \<in> set hist \<or> e \<in> set (fst G) \<or> e \<in> set (fst S) \<or> race_log e"
proof (induction gd sd gf sf G S now hist rule: select_measure_induct)
  case (turn gd sd gf sf G S now hist)
  show ?case
  proof (cases rule: select_winner_cases[of gd sd ri gf sf G S now hist])
    case (gpu_loses T r)
    from turn(1)[OF gpu_loses(1) turn(3)[unfolded gpu_loses(5)]] show ?thesis
      by (auto simp: set_interleave)
  next
    case (secondary_loses T r)
    from turn(2)[OF secondary_loses(1) turn(3)[unfolded secondary_loses(5)]] show ?thesis
      by (auto simp: set_interleave)
  qed (use turn(3) in \<open>auto simp: set_interleave\<close>)
qed

text \<open>The history of a race stays ordered, and nothing happens after its return.\<close>

definition hist_ok :: "instant \<Rightarrow> instant \<Rightarrow> (instant \<times> 'e) list \<Rightarrow> bool" where
  "hist_ok t0 T hist \<longleftrightarrow> t0 \<le> T \<and> sorted (map fst hist) \<and> (\<forall>e\<in>set hist. t0 \<le> fst e \<and> fst e \<le> T)"

lemma hist_ok_append:
  "hist_ok t0 now hist \<Longrightarrow> hist_ok now T es \<Longrightarrow> hist_ok t0 T (hist @ es)"
  by (fastforce simp: hist_ok_def sorted_append)

lemma hist_ok_timeline: "hist_ok t0 T hist \<Longrightarrow> timeline_ok t0 (hist, Some (T, r))"
  by (auto simp: hist_ok_def timeline_ok_def)

definition race_inv ::
  "instant \<Rightarrow> bool \<Rightarrow> bool \<Rightarrow> (effect, outcome) timeline \<Rightarrow> (effect, outcome) timeline \<Rightarrow>
     instant \<Rightarrow> (instant \<times> effect) list \<Rightarrow> bool" where
  "race_inv t0 gd sd G S now hist \<longleftrightarrow>
     timeline_ok now G \<and> timeline_ok now S \<and>
     (gd \<longrightarrow> G = ([], None)) \<and> (sd \<longrightarrow> S = ([], None)) \<and> hist_ok t0 now hist"

lemma timeline_ok_drop:
  assumes "timeline_ok now F" and "\<And>t r. snd F = Some (t, r) \<Longrightarrow> T \<le> t"
  shows "timeline_ok T (effects_from T (fst F), snd F)"
    and "timeline_ok T (effects_after T (fst F), snd F)"
  using assms
  by (auto simp: timeline_ok_def effects_from_def effects_after_def intro: sorted_filter_fst
      split: option.splits)

lemma timeline_ok_empty [simp]: "timeline_ok t ([], None)"
  by (simp add: timeline_ok_def)

lemma sorted_effects:
  "sorted (map fst es) \<Longrightarrow> sorted (map fst (effects_before T es))"
  "sorted (map fst es) \<Longrightarrow> sorted (map fst (effects_until T es))"
  by (simp_all add: effects_before_def effects_until_def sorted_filter_fst)

lemma log_times [simp]:
  "fst (log_winner ri who T st) = T" "fst (log_loser_attempt ri p a r T) = T"
  "fst (log_both_failed ri T) = T"
  by (simp_all add: log_winner_def log_loser_attempt_def log_both_failed_def)

lemma race_turn_gpu:
  assumes "timeline_ok now G" and "timeline_ok now S" and "snd G = Some (T, r)" and "fst e = T"
  shows "hist_ok now T (interleave (fst G) (effects_before T (fst S)) @ [e])"
proof -
  have "sorted (map fst (interleave (fst G) (effects_before T (fst S))))"
    using assms by (intro sorted_interleave sorted_effects) (simp_all add: timeline_ok_def)
  then show ?thesis using assms
    by (auto simp: hist_ok_def timeline_ok_def sorted_append set_interleave)
qed

lemma race_turn_secondary:
  assumes "timeline_ok now G" and "timeline_ok now S" and "snd S = Some (T, r)" and "fst e = T"
  shows "hist_ok now T (interleave (effects_until T (fst G)) (fst S) @ [e])"
proof -
  have "sorted (map fst (interleave (effects_until T (fst G)) (fst S)))"
    using assms by (intro sorted_interleave sorted_effects) (simp_all add: timeline_ok_def)
  then show ?thesis using assms
    by (auto simp: hist_ok_def timeline_ok_def sorted_append set_interleave)
qed

text \<open>A losing turn keeps the invariant.\<close>

lemma race_inv_gpu:
  assumes "race_inv t0 gd sd G S now hist" and "snd G = Some (T, r)"
    and "not_before T (enabled sd S)" and "fst e = T"
  shows "race_inv t0 True sd ([], None) (effects_from T (fst S), snd S) T
    (hist @ interleave (fst G) (effects_before T (fst S)) @ [e])"
proof -
  note inv = assms(1)[unfolded race_inv_def]
  have "T \<le> t" if "snd S = Some (t, x)" for t x
    using assms(3) that inv by (cases sd) (auto simp: not_before_def)
  then have S: "timeline_ok T (effects_from T (fst S), snd S)"
    using inv by (intro timeline_ok_drop(1)[of now]) auto
  have "hist_ok now T (interleave (fst G) (effects_before T (fst S)) @ [e])"
    using inv assms(2,4) by (intro race_turn_gpu) auto
  with inv have "hist_ok t0 T (hist @ interleave (fst G) (effects_before T (fst S)) @ [e])"
    by (blast intro: hist_ok_append)
  with S inv show ?thesis by (simp add: race_inv_def effects_from_def)
qed

lemma race_inv_secondary:
  assumes "race_inv t0 gd sd G S now hist" and "snd S = Some (T, r)"
    and "not_before (Suc T) (enabled gd G)" and "fst e = T"
  shows "race_inv t0 gd True (effects_after T (fst G), snd G) ([], None) T
    (hist @ interleave (effects_until T (fst G)) (fst S) @ [e])"
proof -
  note inv = assms(1)[unfolded race_inv_def]
  have "T \<le> t" if "snd G = Some (t, x)" for t x
    using assms(3) that inv by (cases gd) (auto simp: not_before_def)
  then have G: "timeline_ok T (effects_after T (fst G), snd G)"
    using inv by (intro timeline_ok_drop(2)[of now]) auto
  have "hist_ok now T (interleave (effects_until T (fst G)) (fst S) @ [e])"
    using inv assms(2,4) by (intro race_turn_secondary) auto
  with inv have "hist_ok t0 T (hist @ interleave (effects_until T (fst G)) (fst S) @ [e])"
    by (blast intro: hist_ok_append)
  with G inv show ?thesis by (simp add: race_inv_def effects_after_def)
qed

lemma select_winner_ok:
  "race_inv t0 gd sd G S now hist \<Longrightarrow> timeline_ok t0 (select_winner ri gd sd gf sf G S now hist)"
proof (induction gd sd gf sf G S now hist rule: select_measure_induct)
  case (turn gd sd gf sf G S now hist)
  note inv = turn(3)[unfolded race_inv_def]
  show ?case
  proof (cases rule: select_winner_cases[of gd sd ri gf sf G S now hist])
    case both
    have "hist_ok now now [log_both_failed ri now]" by (simp add: hist_ok_def)
    with inv have "hist_ok t0 now (hist @ [log_both_failed ri now])" by (blast intro: hist_ok_append)
    then show ?thesis unfolding both(3) by (rule hist_ok_timeline)
  next
    case never
    have "sorted (map fst (interleave (fst G) (fst S)))"
      using inv by (intro sorted_interleave) (simp_all add: timeline_ok_def)
    moreover have "\<forall>e\<in>set (interleave (fst G) (fst S)). now \<le> fst e"
      using inv by (auto simp: timeline_ok_def set_interleave)
    ultimately show ?thesis using inv never(4)
      by (fastforce simp: timeline_ok_def hist_ok_def sorted_append)
  next
    case (gpu_wins T r st)
    have "hist_ok now T (interleave (fst G) (effects_before T (fst S)) @ [log_winner ri ''primary_gpu'' T st])"
      using inv gpu_wins(2) by (intro race_turn_gpu) auto
    with inv show ?thesis unfolding gpu_wins(5) by (blast intro: hist_ok_append hist_ok_timeline)
  next
    case (secondary_wins T r st)
    have "hist_ok now T (interleave (effects_until T (fst G)) (fst S) @ [log_winner ri ''secondary'' T st])"
      using inv secondary_wins(2) by (intro race_turn_secondary) auto
    with inv show ?thesis unfolding secondary_wins(5) by (blast intro: hist_ok_append hist_ok_timeline)
  next
    case (gpu_loses T r)
    show ?thesis unfolding gpu_loses(5)
      by (rule turn(1)[OF gpu_loses(1)], rule race_inv_gpu[OF turn(3) gpu_loses(2,4)]) simp
  next
    case (secondary_loses T r)
    show ?thesis unfolding secondary_loses(5)
      by (rule turn(2)[OF secondary_loses(1)], rule race_inv_secondary[OF turn(3) secondary_loses(2,4)]) simp
  qed
qed

section \<open>The race of two forwards\<close>

lemma secondary_fut_eq:
  "secondary_fut E c delay fc ga sa sp start =
     ((start + delay, SecondaryStarted) #
      (start + delay, Log (FiringSecondary (fc_path_and_query fc) (ms delay) ga sa sp)) #
      fst (fwd E c fc sa sp (start + delay)), snd (fwd E c fc sa sp (start + delay)))"
  by (simp add: secondary_fut_def)

lemma secondary_fut_ok [async_ok]: "timeline_ok t (secondary_fut E c delay fc ga sa sp t)"
  unfolding secondary_fut_def fwd_def by (intro await_ok async_ok)

lemma fwd_ok [async_ok]: "timeline_ok t (fwd E c fc a p t)"
  unfolding fwd_def by (rule forward_with_retry_ok)

lemma run_race_ok [async_ok]: "timeline_ok start (run_race E c delay ga sa sp fc xh start)"
  unfolding run_race_def
  by (rule select_winner_ok) (simp add: race_inv_def hist_ok_def async_ok)

lemma run_race_effects:
  "e \<in> set (fst (run_race E c delay ga sa sp fc xh start)) \<Longrightarrow>
     e \<in> set (fst (fwd E c fc ga Gpu start)) \<or>
     e \<in> set (fst (secondary_fut E c delay fc ga sa sp start)) \<or> race_log e"
  unfolding run_race_def by (drule select_winner_effects) auto

lemma run_race_snd:
  "snd (run_race E c delay ga sa sp fc xh start) =
     race_spec (snd (fwd E c fc ga Gpu start)) (snd (fwd E c fc sa sp (start + delay)))"
  unfolding run_race_def select_winner_spec by (simp add: secondary_fut_eq)

text \<open>A trip in a race belongs to an upstream whose retries are exhausted at that instant.\<close>

lemma run_race_trip:
  assumes "(s, Trip a d) \<in> set (fst (run_race E c delay ga sa sp fc xh start))"
  shows "d = cooldown c \<and>
    (a = ga \<and> (\<exists>r. snd (fwd E c fc ga Gpu start) = Some (s, r) \<and> \<not> is_winner r) \<or>
     a = sa \<and> (\<exists>r. snd (fwd E c fc sa sp (start + delay)) = Some (s, r) \<and> \<not> is_winner r))"
  using run_race_effects[OF assms]
  by (auto simp: secondary_fut_eq race_log_def fwd_def is_winner_iff retry_config_of_def
      dest!: forward_with_retry_trips)

text \<open>A GPU answer that arrives before the hedge delay is up ends the race with no second request.\<close>

lemma interleave_Nil2 [simp]: "interleave xs [] = xs"
  by (cases xs) auto

lemma effects_before_none: "\<forall>e\<in>set es. T \<le> fst e \<Longrightarrow> effects_before T es = []"
  by (auto simp: effects_before_def filter_empty_conv)

lemma run_race_gpu_first:
  assumes "snd (fwd E c fc ga Gpu start) = Some (T, r)" and "is_winner r" and "T \<le> start + delay"
  shows "run_race E c delay ga sa sp fc xh start =
    (fst (fwd E c fc ga Gpu start) @
       [(T, Log (RaceWon ''primary_gpu'' (fc_path_and_query fc) (ms (duration_since T start))
                  ga sa sp ''not_started'' xh))],
     Some (T, r))"
proof -
  have ok: "timeline_ok (start + delay) (fwd E c fc sa sp (start + delay))" by (rule fwd_ok)
  have "effects_before T (fst (secondary_fut E c delay fc ga sa sp start)) = []"
    using assms(3) timeline_okD(1)[OF ok]
    by (intro effects_before_none) (fastforce simp: secondary_fut_eq)
  moreover have "SecondaryStarted \<notin> snd ` set (fst (fwd E c fc ga Gpu start))"
  proof
    assume "SecondaryStarted \<in> snd ` set (fst (fwd E c fc ga Gpu start))"
    then obtain s where "(s, SecondaryStarted) \<in> set (fst (fwd E c fc ga Gpu start))" by auto
    then show False unfolding fwd_def by (rule forward_with_retry_no_start)
  qed
  moreover have "next_branch (Some (T, r)) (snd (fwd E c fc sa sp (start + delay))) = Some (True, T, r)"
    using assms(3) timeline_okD(2)[OF ok]
    by (cases "snd (fwd E c fc sa sp (start + delay))") (auto intro: order_trans)
  ultimately show ?thesis
    unfolding run_race_def
    by (subst select_winner.simps)
      (simp add: assms(1,2) secondary_fut_eq Let_def log_winner_def)
qed

section \<open>The candidates\<close>

lemma pick_gpu_Some:
  "pick_gpu s now = Some (a, t) \<Longrightarrow> t = Gpu \<and> (\<exists>u\<in>set (gpu s). addr u = a \<and> routable u now)"
  unfolding pick_gpu_tier by (drule pick_tier_Some) simp

lemma pick_cpu_Some:
  "pick_cpu s now = Some (a, t) \<Longrightarrow> t = Cpu \<and> (\<exists>u\<in>set (cpu s). addr u = a \<and> routable u now)"
  unfolding pick_cpu_tier by (drule pick_tier_Some) simp

lemma pick_gpu_None: "pick_gpu s now = None \<longleftrightarrow> (\<forall>u\<in>set (gpu s). \<not> routable u now)"
  unfolding pick_gpu_tier pick_tier_None by simp

lemma pick_cpu_None: "pick_cpu s now = None \<longleftrightarrow> (\<forall>u\<in>set (cpu s). \<not> routable u now)"
  unfolding pick_cpu_tier pick_tier_None by simp

lemma secondary_candidate_Some:
  assumes "secondary_candidate s (pick_gpu s now) now = Some (sa, sp)"
  shows "\<exists>u\<in>set (case sp of Gpu \<Rightarrow> gpu s | Cpu \<Rightarrow> cpu s). addr u = sa \<and> routable u now"
    and "sp = Gpu \<Longrightarrow> \<exists>ga t. pick_gpu s now = Some (ga, t) \<and> ga \<noteq> sa"
  using assms
  by (auto simp: secondary_candidate_def or_else_Some_iff pick_gpu_excluding_set_def
      bind_eq_Some_conv dest!: pick_cpu_Some pick_tier_Some)

lemma secondary_candidate_None:
  "secondary_candidate s None now = None \<longleftrightarrow> (\<forall>u\<in>set (cpu s). \<not> routable u now)"
  by (simp add: secondary_candidate_def or_else_None_iff pick_cpu_None)

section \<open>The specification of a hedged request\<close>

text \<open>
  What an inference request gives, and when: the retry loop of the only candidate, the race
  of two retry loops the second of which starts after the hedge delay, or 503 at once.
\<close>

definition hedge_spec ::
  "'env runtime \<Rightarrow> config \<Rightarrow> duration \<Rightarrow> forward_ctx \<Rightarrow> pool_snapshot \<Rightarrow> instant \<Rightarrow> (instant \<times> outcome) option"
where
  "hedge_spec E c delay fc s now =
     (let attempt = retry_spec (net E) (retry_config_of c) fc
      in case (pick_gpu s now, secondary_candidate s (pick_gpu s now) now) of
           (None, None) \<Rightarrow> Some (now, Inl NoUpstreamAvailable)
         | (None, Some (sa, sp)) \<Rightarrow> attempt sa sp now
         | (Some (ga, _), None) \<Rightarrow> attempt ga Gpu now
         | (Some (ga, _), Some (sa, sp)) \<Rightarrow>
             race_spec (attempt ga Gpu now) (attempt sa sp (now + delay)))"

text \<open>
  The retry loops a request may start: upstream, pool and start; and the instants at which one
  of them ends without an answer for the client, which is when its upstream is tripped.
\<close>

definition hedge_legs ::
  "duration \<Rightarrow> pool_snapshot \<Rightarrow> instant \<Rightarrow> (socket_addr \<times> pool_type \<times> instant) list"
where
  "hedge_legs delay s now =
     (case (pick_gpu s now, secondary_candidate s (pick_gpu s now) now) of
        (None, None) \<Rightarrow> []
      | (None, Some (sa, sp)) \<Rightarrow> [(sa, sp, now)]
      | (Some (ga, _), None) \<Rightarrow> [(ga, Gpu, now)]
      | (Some (ga, _), Some (sa, sp)) \<Rightarrow> [(ga, Gpu, now), (sa, sp, now + delay)])"

definition fails_at ::
  "'env runtime \<Rightarrow> config \<Rightarrow> forward_ctx \<Rightarrow> (socket_addr \<times> pool_type \<times> instant) list \<Rightarrow> instant \<Rightarrow> bool"
where
  "fails_at E c fc legs s \<longleftrightarrow>
     (\<exists>a t t0 r. (a, t, t0) \<in> set legs \<and>
        retry_spec (net E) (retry_config_of c) fc a t t0 = Some (s, r) \<and> is_retryable r)"

text \<open>
  \<open>meets F C f x\<close>: the run \<open>x\<close> gives what \<open>f\<close> says. It may only abort at an instant
  \<open>F\<close> allows, not after the end that \<open>f\<close> specifies, and only when a window of \<open>C\<close> from
  that instant leaves the range of the clock.
\<close>

definition meets ::
  "(instant \<Rightarrow> bool) \<Rightarrow> duration \<Rightarrow> (instant \<times> 'r) option \<Rightarrow> ('env, 'r) run \<Rightarrow> bool" where
  "meets F C f x =
     (case x of
        Returned es r w \<Rightarrow> f = Some (w_now w, r)
      | Hung es \<Rightarrow> f = None
      | Aborted es \<Rightarrow> (\<exists>s. F s \<and> not_before s f \<and> instant_max < s + C))"

lemma timeline_not_before:
  "timeline_ok t F \<Longrightarrow> (s, e) \<in> set (fst F) \<Longrightarrow> not_before s (snd F)"
  by (auto simp: not_before_def dest: timeline_okD(3) split: option.split)

lemma run_async_meets:
  assumes "timeline_ok (w_now w) (m (w_now w))"
    and "\<And>s a d. (s, Trip a d) \<in> set (fst (m (w_now w))) \<Longrightarrow> d = C \<and> F s"
  shows "meets F C (snd (m (w_now w))) (run_async E m w)"
proof (cases rule: run_async_cases[of m w E])
  case (aborted s a d)
  then show ?thesis
    using assms(2)[OF aborted(1)] timeline_not_before[OF assms(1) aborted(1)]
    by (auto simp: meets_def)
qed (simp_all add: meets_def)

lemma fwd_snd: "snd (fwd E c fc a t now) = retry_spec (net E) (retry_config_of c) fc a t now"
  unfolding fwd_def by (rule forward_with_retry_spec)

lemma fwd_trip:
  "(s, Trip a' d) \<in> set (fst (fwd E c fc a t now)) \<Longrightarrow>
     d = cooldown c \<and> (\<exists>r. snd (fwd E c fc a t now) = Some (s, r) \<and> is_retryable r)"
  by (auto simp: fwd_def retry_config_of_def dest!: forward_with_retry_trips)

lemma direct_snd: "snd (direct E c fc a t xh now) = snd (fwd E c fc a t now)"
  by (auto simp: direct_def await_def[of "fwd _ _ _ _ _"] ready_def split: option.split sum.split)

lemma direct_trip:
  "(s, Trip a' d) \<in> set (fst (direct E c fc a t xh now)) \<Longrightarrow>
     d = cooldown c \<and> fails_at E c fc [(a, t, now)] s"
  by (auto simp: direct_def log_direct_def await_def[of "fwd _ _ _ _ _"] ready_def fails_at_def
      dest!: fwd_trip simp flip: fwd_snd split: option.splits sum.splits)

lemma direct_ok [async_ok]: "timeline_ok now (direct E c fc a t xh now)"
  unfolding direct_def
  by (rule await_ok[OF fwd_ok]) (simp split: sum.split add: ready_def timeline_ok_def)

lemma race_trip_fails:
  "(s, Trip a d) \<in> set (fst (run_race E c delay ga sa sp fc xh start)) \<Longrightarrow>
     d = cooldown c \<and> fails_at E c fc [(ga, Gpu, start), (sa, sp, start + delay)] s"
  by (drule run_race_trip) (auto simp: fails_at_def is_winner_iff simp flip: fwd_snd)

lemma hedged_race_meets:
  "meets (fails_at E c fc (hedge_legs delay (w_pool w) (w_now w))) (cooldown c)
     (hedge_spec E c delay fc (w_pool w) (w_now w)) (hedged_race E c delay fc w)"
proof -
  have d: "meets (fails_at E c fc [(a, t, w_now w)]) (cooldown c)
      (retry_spec (net E) (retry_config_of c) fc a t (w_now w)) (run_async E (direct E c fc a t xh) w)" for a t xh
    using run_async_meets[of w "direct E c fc a t xh" "cooldown c" "fails_at E c fc [(a, t, w_now w)]" E,
      OF direct_ok direct_trip] unfolding direct_snd fwd_snd .
  have r: "meets (fails_at E c fc [(ga, Gpu, w_now w), (sa, sp, w_now w + delay)]) (cooldown c)
      (race_spec (retry_spec (net E) (retry_config_of c) fc ga Gpu (w_now w))
        (retry_spec (net E) (retry_config_of c) fc sa sp (w_now w + delay)))
      (run_async E (run_race E c delay ga sa sp fc xh) w)" for ga sa sp xh
    using run_async_meets[of w "run_race E c delay ga sa sp fc xh" "cooldown c"
      "fails_at E c fc [(ga, Gpu, w_now w), (sa, sp, w_now w + delay)]" E, OF run_race_ok race_trip_fails]
    unfolding run_race_snd fwd_snd .
  show ?thesis
    by (auto simp: hedged_race_def hedge_spec_def hedge_legs_def Let_def d r split: option.split)
      (simp add: meets_def)
qed

section \<open>Properties\<close>

text \<open>C1: a hedged request gives exactly what its specification says, at the instant it says:
  503 without any candidate, the retry loop of a lone candidate, else the first non-5xx
  outcome of the race of the GPU and the secondary that starts after the hedge delay (the
  GPU on a tie, the GPU's failure when both fail). It hangs only when the specification has
  no outcome. It aborts only at the instant at which one of its own retry loops ends with a
  5xx or an error, no later than the specified end, and only when the cooldown set at that
  instant leaves the range of the clock.\<close>
theorem hedged_race_refines_spec:
  "case hedged_race E c delay fc w of
     Returned es r w' \<Rightarrow> hedge_spec E c delay fc (w_pool w) (w_now w) = Some (w_now w', r)
   | Hung es \<Rightarrow> hedge_spec E c delay fc (w_pool w) (w_now w) = None
   | Aborted es \<Rightarrow>
       (\<exists>a t t0 s r. (a, t, t0) \<in> set (hedge_legs delay (w_pool w) (w_now w)) \<and>
          retry_spec (net E) (retry_config_of c) fc a t t0 = Some (s, r) \<and> is_retryable r \<and>
          (case hedge_spec E c delay fc (w_pool w) (w_now w) of None \<Rightarrow> True | Some (T, _) \<Rightarrow> s \<le> T) \<and>
          instant_max < s + cooldown c)"
  using hedged_race_meets[of E c fc delay w]
  unfolding meets_def fails_at_def not_before_def by (simp split: run.splits) blast

text \<open>When the GPU answers with a non-5xx response no later than the hedge delay, the
  race returns that response at once, performs the GPU's effects and one log event, and the
  secondary is never contacted (its status in the log is \<open>not_started\<close>).\<close>
lemma race_gpu_before_delay:
  assumes "snd (fwd E c fc ga Gpu start) = Some (T, r)" and "is_winner r" and "T \<le> start + delay"
  shows "run_race E c delay ga sa sp fc xh start =
    (fst (fwd E c fc ga Gpu start) @
       [(T, Log (RaceWon ''primary_gpu'' (fc_path_and_query fc) (ms (duration_since T start))
                  ga sa sp ''not_started'' xh))],
     Some (T, r))"
  using assms by (rule run_race_gpu_first)

lemma race_gpu_before_delay_witness:
  "snd (run_race prompt_runtime default_config (from_millis 5000) demo_addr demo_addr2 Cpu demo_ctx None 0) =
     Some (1000, forward_answer demo_addr Gpu (Answered 200 [] ''ok''))"
proof -
  have "snd (fwd prompt_runtime default_config demo_ctx demo_addr Gpu 0) =
      Some (1000, forward_answer demo_addr Gpu (Answered 200 [] ''ok''))"
    by (simp add: fwd_def forward_with_retry_final prompt_runtime_def prompt_net_def
        status_from_u16_def unwrap_or_def is_server_error_def)
  from race_gpu_before_delay[OF this, of "from_millis 5000" demo_addr2 Cpu None] show ?thesis
    by (simp add: status_from_u16_def unwrap_or_def is_server_error_def from_millis_def
        nanos_per_milli_def)
qed

text \<open>C14: whatever happens, the only requests sent before the hedge delay is up are the
  buffered request to the primary GPU.\<close>
theorem race_no_early_hedge:
  "set (sends (effects_before (start + delay) (fst (run_race E c delay ga sa sp fc xh start))))
     \<subseteq> {Gpu} \<times> UNIV \<times> {forward_request fc ga}"
proof -
  have ok: "timeline_ok (start + delay) (fwd E c fc sa sp (start + delay))" by (rule fwd_ok)
  have "t = Gpu \<and> rq = forward_request fc ga"
    if e: "(s, SendRequest t k rq) \<in> set (fst (run_race E c delay ga sa sp fc xh start))"
      and early: "s < start + delay" for s t k rq
  proof -
    have "(s, SendRequest t k rq) \<in> set (fst (fwd E c fc ga Gpu start))"
      using run_race_effects[OF e] early timeline_okD(1)[OF ok, of s]
      by (auto simp: secondary_fut_eq race_log_def)
    then show ?thesis unfolding fwd_def by (auto dest: forward_with_retry_sends)
  qed
  then show ?thesis by (auto simp: sends_mem)
qed

text \<open>C13: a race has no effect before it starts and none after it returns: the loser is
  dropped and neither sends, sleeps nor trips any more. Its effects are in time order.\<close>
theorem race_silent_after_return:
  "sorted (map fst (fst (run_race E c delay ga sa sp fc xh start))) \<and>
   effects_before start (fst (run_race E c delay ga sa sp fc xh start)) = [] \<and>
   (case snd (run_race E c delay ga sa sp fc xh start) of
      Some (T, r) \<Rightarrow> effects_after T (fst (run_race E c delay ga sa sp fc xh start)) = []
    | None \<Rightarrow> True)"
  using run_race_ok[of start E c delay ga sa sp fc xh]
  by (auto simp: timeline_ok_def effects_before_def effects_after_def filter_empty_conv
      split: option.splits)

text \<open>C10: the only upstreams a race trips are those whose own retry loop ended with a
  retryable outcome, at that instant, for the configured cooldown; a cancelled or winning
  upstream is never tripped.\<close>
theorem race_trips_only_failed:
  "set (trips (fst (run_race E c delay ga sa sp fc xh start))) \<subseteq>
     {(s, a, d). d = cooldown c \<and>
        (a = ga \<and> (\<exists>r. snd (fwd E c fc ga Gpu start) = Some (s, r) \<and> is_retryable r) \<or>
         a = sa \<and> (\<exists>r. snd (fwd E c fc sa sp (start + delay)) = Some (s, r) \<and> is_retryable r))}"
  using run_race_trip[of _ _ _ E c delay ga sa sp fc xh start]
  by (auto simp: trips_mem is_winner_iff) blast+

text \<open>The secondary of a race is an upstream of the snapshot that is routable at that
  instant, of the pool it is labelled with, and a GPU secondary is another GPU than the
  primary.\<close>
lemma hedge_secondary_sound:
  assumes "secondary_candidate s (pick_gpu s now) now = Some (sa, sp)"
  shows "(\<exists>u. u \<in> set (case sp of Gpu \<Rightarrow> gpu s | Cpu \<Rightarrow> cpu s) \<and> addr u = sa \<and> routable u now) \<and>
    (sp = Cpu \<or> (\<exists>ga t. pick_gpu s now = Some (ga, t) \<and> ga \<noteq> sa))"
  using secondary_candidate_Some[OF assms] by (cases sp) auto

lemma hedge_secondary_sound_witness:
  "\<exists>u. u \<in> set (gpu demo_snapshot) \<and> addr u = demo_addr2 \<and> routable u 0"
proof -
  have "secondary_candidate demo_snapshot (pick_gpu demo_snapshot 0) 0 = Some (demo_addr2, Gpu)"
    by (simp add: secondary_candidate_def pick_gpu_def pick_ok_def pick_gpu_excluding_set_def
        pick_tier_def demo_snapshot_def demo_upstream_def is_ok_eligible_def is_in_cooldown_def
        demo_addr_def demo_addr2_def)
  from hedge_secondary_sound[OF this] show ?thesis by simp
qed

text \<open>An inference request is answered with \<open>NoUpstreamAvailable\<close> exactly when the
  policy finds no upstream in the snapshot.\<close>
lemma hedged_unavailable_iff_no_pick:
  "(\<exists>es w'. hedged_race E c delay fc w = Returned es (Inl NoUpstreamAvailable) w') \<longleftrightarrow>
     pick (w_pool w) (w_now w) = None"
proof
  assume "\<exists>es w'. hedged_race E c delay fc w = Returned es (Inl NoUpstreamAvailable) w'"
  then obtain es w' where "hedged_race E c delay fc w = Returned es (Inl NoUpstreamAvailable) w'" by blast
  then have spec: "hedge_spec E c delay fc (w_pool w) (w_now w) = Some (w_now w', Inl NoUpstreamAvailable)"
    using hedged_race_meets[of E c fc delay w] by (simp add: meets_def)
  have no: "retry_spec (net E) (retry_config_of c) fc a t now \<noteq> Some (s, Inl NoUpstreamAvailable)"
    for a t now s
    using forward_with_retry_result[of "net E" "retry_config_of c" fc a t now s] forward_answer_not_unavailable
    unfolding forward_with_retry_spec by metis
  then have "race_spec (retry_spec (net E) (retry_config_of c) fc a t now)
      (retry_spec (net E) (retry_config_of c) fc a' t' now') \<noteq> Some (s, Inl NoUpstreamAvailable)"
    for a t now a' t' now' s
    by (auto simp: race_spec_def split: option.splits)
  with no spec have "pick_gpu (w_pool w) (w_now w) = None"
    "secondary_candidate (w_pool w) None (w_now w) = None"
    by (auto simp: hedge_spec_def Let_def split: option.splits)
  then show "pick (w_pool w) (w_now w) = None"
    unfolding pick_None_iff pick_gpu_None secondary_candidate_None by auto
next
  assume "pick (w_pool w) (w_now w) = None"
  then have "pick_gpu (w_pool w) (w_now w) = None"
    "secondary_candidate (w_pool w) None (w_now w) = None"
    unfolding pick_None_iff pick_gpu_None secondary_candidate_None by auto
  then show "\<exists>es w'. hedged_race E c delay fc w = Returned es (Inl NoUpstreamAvailable) w'"
    by (simp add: hedged_race_def)
qed

text \<open>C39: the dispatch of a request does not follow the order of \<open>pick\<close>: whenever no GPU is
  eligible as Ok, some CPU is, and there is a GPU to pick at all (a Loading one), \<open>pick\<close>
  chooses a CPU, but a hedged request is sent to that Loading GPU first, and to no other
  upstream when it answers with a non-5xx within the hedge delay.\<close>
theorem loading_gpu_before_ok_cpu:
  assumes "\<forall>u\<in>set (gpu (w_pool w)). \<not> is_ok_eligible u (w_now w)"
    and "\<exists>u\<in>set (cpu (w_pool w)). is_ok_eligible u (w_now w)"
    and "pick_gpu (w_pool w) (w_now w) = Some (ga, Gpu)"
    and "net E Gpu 0 (forward_request fc ga) (w_now w) = Some (D, ans)"
    and "\<not> is_retryable (forward_answer ga Gpu ans)" and "D \<le> delay"
  shows "(\<exists>ca. pick (w_pool w) (w_now w) = Some (ca, Cpu)) \<and>
    (\<exists>u\<in>set (gpu (w_pool w)). addr u = ga \<and> status u = Loading) \<and>
    sends (effects_of (hedged_race E c delay fc w)) = [(Gpu, 0, forward_request fc ga)]"
proof (intro conjI)
  obtain u where u: "u \<in> set (gpu (w_pool w))" "addr u = ga" "routable u (w_now w)"
    using pick_gpu_Some[OF assms(3)] by blast
  then show "\<exists>u\<in>set (gpu (w_pool w)). addr u = ga \<and> status u = Loading"
    using assms(1) by (auto simp: routable_def is_loading_eligible_def)
  show "\<exists>ca. pick (w_pool w) (w_now w) = Some (ca, Cpu)"
    using assms(1,2) by (rule pick_ok_cpu)
  let ?res = "forward_answer ga Gpu ans"
  have fwd: "fwd E c fc ga Gpu (w_now w) =
      ([(w_now w, SendRequest Gpu 0 (forward_request fc ga))], Some (w_now w + D, ?res))"
    unfolding fwd_def using assms(4,5) by (rule forward_with_retry_final)
  obtain resp where resp: "?res = Inr resp" using assms(5) by (cases ?res) auto
  have direct: "fst (direct E c fc ga Gpu xh (w_now w)) = [(w_now w, SendRequest Gpu 0 (forward_request fc ga)),
      (w_now w + D, log_direct (fc_path_and_query fc) ga (pool_as_str Gpu) (resp_status resp) xh)]" for xh
    by (simp add: direct_def await_def[of "fwd _ _ _ _ _"] fwd resp ready_def)
  have race: "fst (run_race E c delay ga sa sp fc xh (w_now w)) = [(w_now w, SendRequest Gpu 0 (forward_request fc ga)),
      (w_now w + D, Log (RaceWon ''primary_gpu'' (fc_path_and_query fc) (ms (duration_since (w_now w + D) (w_now w)))
         ga sa sp ''not_started'' xh))]" for sa sp xh
    using run_race_gpu_first[of E c fc ga "w_now w" "w_now w + D" ?res delay sa sp xh] fwd assms(5,6)
    by (simp add: is_winner_iff)
  have "effects_of (run_async E (direct E c fc ga Gpu xh) w) = fst (direct E c fc ga Gpu xh (w_now w))" for xh
    by (rule run_async_no_trip) (simp add: direct log_direct_def)
  moreover have "effects_of (run_async E (run_race E c delay ga sa sp fc xh) w) =
      fst (run_race E c delay ga sa sp fc xh (w_now w))" for sa sp xh
    by (rule run_async_no_trip) (simp add: race)
  ultimately have "effects_of (hedged_race E c delay fc w) = (case secondary_candidate (w_pool w) (Some (ga, Gpu)) (w_now w) of
      None \<Rightarrow> fst (direct E c fc ga Gpu (x_headers_json E (fc_headers fc)) (w_now w))
    | Some (sa, sp) \<Rightarrow> fst (run_race E c delay ga sa sp fc (x_headers_json E (fc_headers fc)) (w_now w)))"
    unfolding hedged_race_def Let_def assms(3) by (simp split: option.split)
  then show "sends (effects_of (hedged_race E c delay fc w)) = [(Gpu, 0, forward_request fc ga)]"
    by (simp add: direct race log_direct_def split: option.split prod.split)
qed

text \<open>A Loading GPU and an Ok CPU, both prompt.\<close>
lemma loading_gpu_before_ok_cpu_witness:
  "pick \<lparr>gpu = [demo_upstream demo_addr Gpu 0\<lparr>status := Loading\<rparr>], cpu = [demo_upstream demo_addr3 Cpu 0],
      updated_at = 0\<rparr> 0 = Some (demo_addr3, Cpu) \<and>
   sends (effects_of (hedged_race prompt_runtime default_config (from_millis 5000) demo_ctx
     \<lparr>w_now = 0, w_pool = \<lparr>gpu = [demo_upstream demo_addr Gpu 0\<lparr>status := Loading\<rparr>],
        cpu = [demo_upstream demo_addr3 Cpu 0], updated_at = 0\<rparr>, w_env = ()\<rparr>)) =
     [(Gpu, 0, forward_request demo_ctx demo_addr)]"
proof -
  let ?s = "\<lparr>gpu = [demo_upstream demo_addr Gpu 0\<lparr>status := Loading\<rparr>],
    cpu = [demo_upstream demo_addr3 Cpu 0], updated_at = 0\<rparr>"
  let ?w = "\<lparr>w_now = 0, w_pool = ?s, w_env = ()\<rparr>"
  have el: "\<forall>u\<in>set (gpu (w_pool ?w)). \<not> is_ok_eligible u (w_now ?w)"
    "\<exists>u\<in>set (cpu (w_pool ?w)). is_ok_eligible u (w_now ?w)"
    "pick_gpu (w_pool ?w) (w_now ?w) = Some (demo_addr, Gpu)"
    by (simp_all add: pick_gpu_def pick_ok_def pick_loading_def demo_upstream_def is_ok_eligible_def
        is_loading_eligible_def is_in_cooldown_def)
  have net: "net prompt_runtime Gpu 0 (forward_request demo_ctx demo_addr) (w_now ?w) = Some (1000, Answered 200 [] ''ok'')"
    "\<not> is_retryable (forward_answer demo_addr Gpu (Answered 200 [] ''ok''))" "(1000 :: duration) \<le> from_millis 5000"
    by (simp_all add: prompt_runtime_def prompt_net_def status_from_u16_def unwrap_or_def is_server_error_def
        from_millis_def nanos_per_milli_def)
  have "pick ?s 0 = Some (demo_addr3, Cpu)"
    by (simp add: pick_def pick_ok_def pick_loading_def demo_upstream_def is_ok_eligible_def is_in_cooldown_def)
  then show ?thesis
    using loading_gpu_before_ok_cpu[OF el net, of default_config] by simp
qed

end
