(* ===== verification/Sequential.thy ===== *)
theory Sequential
  imports Fallback
begin

text \<open>
  Facts about the sequential strategy of \<open>fallback.rs\<close> (\<open>sequential_timeout\<close>): its
  deadline, the upstreams it contacts, the trips it leaves behind, and the trimmed backoff.
\<close>

section \<open>Runs on a budget\<close>

text \<open>A run that started at \<open>t\<close> returns within \<open>B\<close>, or a trip leaves the clock range.\<close>

definition run_within :: "instant \<Rightarrow> duration \<Rightarrow> duration \<Rightarrow> ('env, 'r) run \<Rightarrow> bool" where
  "run_within t B C x =
     (case x of
        Returned es r w \<Rightarrow> t \<le> w_now w \<and> w_now w \<le> t + B
      | Hung es \<Rightarrow> False
      | Aborted es \<Rightarrow> instant_max < t + B + C)"

lemma run_within_Returned [simp]:
  "run_within t B C (Returned es r w) \<longleftrightarrow> t \<le> w_now w \<and> w_now w \<le> t + B"
  by (simp add: run_within_def)

lemma run_within_mono: "run_within t B C x \<Longrightarrow> B \<le> B' \<Longrightarrow> run_within t B' C x"
  by (auto simp: run_within_def split: run.splits)

lemma run_within_prepend [simp]: "run_within t B C (prepend es x) = run_within t B C x"
  by (cases x) (simp_all add: run_within_def)

lemma run_within_bind:
  assumes "run_within t B C m"
    and "\<And>es r w. m = Returned es r w \<Longrightarrow> run_within (w_now w) B' C (k r w)"
  shows "run_within t (B + B') C (bind_run m k)"
proof (cases m)
  case (Returned es r w)
  have "run_within (w_now w) B' C (k r w)" by (rule assms(2)[OF Returned])
  then show ?thesis using assms(1) Returned
    by (auto simp: run_within_def split: run.splits)
qed (use assms(1) in \<open>auto simp: run_within_def\<close>)

text \<open>A computation on a budget whose trips last at most \<open>C\<close>.\<close>

locale budgeted_request = bounded_task m B
  for m :: "(effect, 'r) async" and B :: duration +
  fixes C :: duration
  assumes trip_durations: "(s, Trip a d) \<in> set (fst (m t)) \<Longrightarrow> d \<le> C"
begin

lemma run_async_within: "run_within (w_now w) B C (run_async E m w)"
proof (cases "perform_all E (fst (m (w_now w))) w")
  case None
  then obtain s a d where e: "(s, Trip a d) \<in> set (fst (m (w_now w)))" "instant_max < s + d"
    using perform_all_None by blast
  have "s \<le> w_now w + B" "d \<le> C"
    using effects_in_budget[OF e(1)] trip_durations[OF e(1)] by auto
  then show ?thesis using e(2) None by (simp add: run_async_def run_within_def)
next
  case (Some w')
  obtain t' r where "snd (m (w_now w)) = Some (t', r)" "w_now w \<le> t'" "t' \<le> w_now w + B"
    by (rule result)
  with Some show ?thesis by (simp add: run_async_def)
qed

end

section \<open>One attempt\<close>

definition trimmed_forward ::
  "'env runtime \<Rightarrow> config \<Rightarrow> duration \<Rightarrow> forward_ctx \<Rightarrow> socket_addr \<Rightarrow> (effect, outcome) async" where
  "trimmed_forward E c per fc ga =
     forward_with_retry (net E) (attempt_cfg (retry_config_of c) per) fc ga Gpu"

lemma attempt_cfg_sel [simp]:
  "max_retries (attempt_cfg rc per) = max_retries rc"
  "rc_cooldown (attempt_cfg rc per) = rc_cooldown rc"
  by (simp_all add: attempt_cfg_def Let_def)

text \<open>The three ways in which an attempt on a GPU ends.\<close>

lemma gpu_attempt_cases:
  obtains
    (answered) t' resp where "snd (trimmed_forward E c per fc ga now) = Some (t', Inr resp)"
      "t' \<le> now + per" "\<not> is_server_error (resp_status resp)"
      "gpu_attempt E c per fc ga now =
        (fst (trimmed_forward E c per fc ga now), Some (t', Some (Inr resp)))"
  | (failed) t' r l where "snd (trimmed_forward E c per fc ga now) = Some (t', r)"
      "t' \<le> now + per" "is_retryable r"
      "gpu_attempt E c per fc ga now =
        (fst (trimmed_forward E c per fc ga now) @ [(t', Log l)], Some (t', None))"
  | (timed_out) "\<forall>t' r. snd (trimmed_forward E c per fc ga now) = Some (t', r) \<longrightarrow> now + per < t'"
      "gpu_attempt E c per fc ga now =
        (effects_until (now + per) (fst (trimmed_forward E c per fc ga now)) @
          [(now + per, Trip ga (cooldown c)), (now + per, Log (GpuTimedOut ga (ms per)))],
         Some (now + per, None))"
proof -
  let ?m = "trimmed_forward E c per fc ga"
  note unf = gpu_attempt_def[folded trimmed_forward_def] await_def[of "timeout _ _"] timeout_def
  show thesis
  proof (cases "\<exists>t' r. snd (?m now) = Some (t', r) \<and> t' \<le> now + per")
    case True
    then obtain t' r where r: "snd (?m now) = Some (t', r)" "t' \<le> now + per" by blast
    show thesis
    proof (cases r)
      case (Inl e)
      with r show thesis
        by (intro failed[of t' r "GpuError ga (app_error_display e)"])
          (simp_all add: unf ready_def)
    next
      case (Inr resp)
      show thesis
      proof (cases "is_server_error (resp_status resp)")
        case True
        with r Inr show thesis
          by (intro failed[of t' r "GpuServerError ga (resp_status resp)"])
            (simp_all add: unf ready_def)
      next
        case False
        with r Inr show thesis by (intro answered) (simp_all add: unf ready_def)
      qed
    qed
  next
    case False
    then have late: "\<forall>t' r. snd (?m now) = Some (t', r) \<longrightarrow> now + per < t'" by (auto simp: not_le)
    then have "timeout per ?m now = (effects_until (now + per) (fst (?m now)), Some (now + per, None))"
      by (auto simp: timeout_def split: option.splits)
    with late show thesis
      by (intro timed_out)
        (simp_all add: gpu_attempt_def[folded trimmed_forward_def] await_def[of "timeout _ _"]
          ready_def retry_config_of_def)
  qed
qed

lemma gpu_attempt_ok [async_ok]: "timeline_ok t (gpu_attempt E c per fc ga t)"
  unfolding gpu_attempt_def
  by (rule await_ok[OF timeout_ok[OF forward_with_retry_ok]])
    (simp split: option.split sum.split add: ready_def timeline_ok_def)

lemma gpu_attempt_trip:
  "(s, Trip a d) \<in> set (fst (gpu_attempt E c per fc ga now)) \<Longrightarrow> a = ga \<and> d = cooldown c"
  by (cases rule: gpu_attempt_cases[of E c per fc ga now])
    (auto simp: trimmed_forward_def effects_until_def retry_config_of_def
      dest!: forward_with_retry_trips)

lemma cpu_attempt_trip:
  "(s, Trip a d) \<in> set (fst (forward_cpu_with_timeout E c per fc ca now)) \<Longrightarrow> a = ca \<and> d = cooldown c"
  by (auto simp: forward_cpu_with_timeout_def await_def timeout_def effects_until_def emit_def
      ready_def retry_config_of_def dest!: forward_with_retry_trips split: option.splits if_splits)

interpretation gpu_try: budgeted_request "gpu_attempt E c per fc ga" per "cooldown c"
  for E c per fc ga
proof
  fix t
  show "timeline_ok t (gpu_attempt E c per fc ga t)" by (rule gpu_attempt_ok)
  show "\<exists>t' r. snd (gpu_attempt E c per fc ga t) = Some (t', r) \<and> t' \<le> t + per"
    by (cases rule: gpu_attempt_cases[of E c per fc ga t]) auto
qed (auto dest: gpu_attempt_trip)

interpretation cpu_try: budgeted_request "forward_cpu_with_timeout E c per fc ca" per "cooldown c"
  for E c per fc ca
proof
  fix t
  show "timeline_ok t (forward_cpu_with_timeout E c per fc ca t)"
    unfolding forward_cpu_with_timeout_def
    by (rule await_ok[OF timeout_ok[OF forward_with_retry_ok]])
      (simp split: option.split add: ready_def timeline_ok_def)
  show "\<exists>t' r. snd (forward_cpu_with_timeout E c per fc ca t) = Some (t', r) \<and> t' \<le> t + per"
    by (auto simp: forward_cpu_with_timeout_def await_def timeout_def emit_def ready_def
        split: option.splits)
qed (auto dest: cpu_attempt_trip)

section \<open>The whole strategy\<close>

lemma gpu_loop_within:
  "run_within (w_now w) ((max_gpu_attempts - length tried) * per) (cooldown c)
     (gpu_loop E c per fc tried cand w)"
proof (induction E c per fc tried cand w rule: gpu_loop.induct)
  case (2 E c per fc tried ga t w)
  show ?case
  proof (cases "max_gpu_attempts \<le> length tried")
    case False
    then have budget: "(max_gpu_attempts - length tried) * per =
        per + (max_gpu_attempts - length (tried @ [ga])) * per"
      by (simp add: Suc_diff_le[symmetric] mult_Suc[symmetric] not_le less_eq_Suc_le del: mult_Suc)
    show ?thesis
      unfolding budget gpu_loop.simps if_not_P[OF False]
      by (rule run_within_bind[OF gpu_try.run_async_within])
        (use 2[OF False] in \<open>auto simp: Let_def split: option.split\<close>)
  qed simp
qed simp

lemma sequential_within:
  "run_within (w_now w) (max_gpu_attempts * per + per) (cooldown c)
     (sequential_timeout E c per fc w)"
  unfolding sequential_timeout_def
proof (rule run_within_bind)
  show "run_within (w_now w) (max_gpu_attempts * per) (cooldown c)
     (gpu_loop E c per fc [] (pick_gpu (w_pool w) (w_now w)) w)"
    using gpu_loop_within[of w "[]" per c] by simp
qed (auto simp: cpu_try.run_async_within split: option.split)

text \<open>
  The upstreams a run contacts: \<open>sent_to\<close> says that all its requests are the buffered
  request, to the GPUs \<open>gs\<close> and the CPUs \<open>cs\<close>.
\<close>

definition sent_to ::
  "forward_ctx \<Rightarrow> socket_addr list \<Rightarrow> socket_addr list \<Rightarrow> (instant \<times> effect) list \<Rightarrow> bool" where
  "sent_to fc gs cs es \<longleftrightarrow>
     (\<forall>(t, k, rq)\<in>set (sends es).
        rq \<in> forward_request fc ` set (case t of Gpu \<Rightarrow> gs | Cpu \<Rightarrow> cs))"

lemma sent_to_simps [simp]:
  "sent_to fc gs cs []" "sent_to fc gs cs ((s, Log l) # es) = sent_to fc gs cs es"
  "sent_to fc gs cs (es @ es') \<longleftrightarrow> sent_to fc gs cs es \<and> sent_to fc gs cs es'"
  by (simp_all add: sent_to_def ball_Un)

lemma sent_to_mono: "sent_to fc gs cs es \<Longrightarrow> set gs \<subseteq> set gs' \<Longrightarrow> set cs \<subseteq> set cs' \<Longrightarrow> sent_to fc gs' cs' es"
  by (fastforce simp: sent_to_def split: pool_type.splits)

lemma effects_of_prepend:
  "sent_to fc gs cs es \<Longrightarrow> sent_to fc gs cs (effects_of x) \<Longrightarrow> sent_to fc gs cs (effects_of (prepend es x))"
  by (cases x) auto

lemma effects_of_run_async: "set (effects_of (run_async E m w)) \<subseteq> set (fst (m (w_now w)))"
  using before_panic_subset by (fastforce simp: run_async_def split: option.splits)

lemma gpu_attempt_sent_to: "sent_to fc [ga] [] (fst (gpu_attempt E c per fc ga now))"
  by (cases rule: gpu_attempt_cases[of E c per fc ga now])
    (auto simp: sent_to_def sends_mem trimmed_forward_def effects_until_def
      dest!: forward_with_retry_sends)

lemma cpu_attempt_sent_to: "sent_to fc [] [ca] (fst (forward_cpu_with_timeout E c per fc ca now))"
  by (auto simp: sent_to_def sends_mem forward_cpu_with_timeout_def await_def timeout_def
      effects_until_def emit_def ready_def
      dest!: forward_with_retry_sends split: option.splits if_splits)

lemma sent_to_subset: "sent_to fc gs cs es \<Longrightarrow> set es' \<subseteq> set es \<Longrightarrow> sent_to fc gs cs es'"
  by (fastforce simp: sent_to_def sends_mem)

definition fresh_cand :: "socket_addr list \<Rightarrow> choice \<Rightarrow> bool" where
  "fresh_cand tried cand \<longleftrightarrow> (case cand of None \<Rightarrow> True | Some (a, _) \<Rightarrow> a \<notin> set tried)"

lemma fresh_cand_nil [simp]: "fresh_cand [] cand"
  by (simp add: fresh_cand_def split: option.split)

lemma gpu_loop_sent_to:
  "distinct tried \<Longrightarrow> length tried \<le> max_gpu_attempts \<Longrightarrow> fresh_cand tried cand \<Longrightarrow>
     \<exists>gs. distinct (tried @ gs) \<and> length (tried @ gs) \<le> max_gpu_attempts \<and>
       sent_to fc gs [] (effects_of (gpu_loop E c per fc tried cand w))"
proof (induction E c per fc tried cand w rule: gpu_loop.induct)
  case (1 E c per fc tried w)
  then show ?case by (intro exI[of _ "[]"]) simp
next
  case (2 E c per fc tried ga t w)
  show ?case
  proof (cases "max_gpu_attempts \<le> length tried")
    case True
    then show ?thesis using 2(2-) by (intro exI[of _ "[]"]) simp
  next
    case False
    have one: "sent_to fc [ga] [] (effects_of (run_async E (gpu_attempt E c per fc ga) w))"
      using gpu_attempt_sent_to effects_of_run_async by (rule sent_to_subset)
    have tried': "distinct (tried @ [ga])" "length (tried @ [ga]) \<le> max_gpu_attempts"
      using 2(2-4) False by (auto simp: fresh_cand_def)
    show ?thesis
    proof (cases "run_async E (gpu_attempt E c per fc ga) w")
      case (Returned es r w')
      show ?thesis
      proof (cases r)
        case None
        have "fresh_cand (tried @ [ga]) (pick_gpu_excluding_set (w_pool w') (tried @ [ga]) (w_now w'))"
          by (auto simp: fresh_cand_def split: option.split dest: pick_gpu_excluding_set_fresh)
        from 2(1)[OF False None refl tried' this] obtain gs where gs:
          "distinct ((tried @ [ga]) @ gs)" "length ((tried @ [ga]) @ gs) \<le> max_gpu_attempts"
          "sent_to fc gs [] (effects_of (gpu_loop E c per fc (tried @ [ga])
             (pick_gpu_excluding_set (w_pool w') (tried @ [ga]) (w_now w')) w'))" by blast
        have "sent_to fc (ga # gs) [] es" "sent_to fc (ga # gs) [] (effects_of
            (gpu_loop E c per fc (tried @ [ga])
             (pick_gpu_excluding_set (w_pool w') (tried @ [ga]) (w_now w')) w'))"
          using one gs(3) Returned by (auto elim: sent_to_mono)
        then show ?thesis using gs(1,2) False Returned None
          by (intro exI[of _ "ga # gs"]) (auto simp: effects_of_prepend Let_def)
      next
        case (Some out)
        then show ?thesis using tried' one False Returned by (intro exI[of _ "[ga]"]) simp
      qed
    qed (use tried' one False in \<open>auto intro!: exI[of _ "[ga]"]\<close>)
  qed
qed

lemma sequential_sent_to:
  "\<exists>gs cs. distinct gs \<and> length gs \<le> max_gpu_attempts \<and> length cs \<le> 1 \<and>
     sent_to fc gs cs (effects_of (sequential_timeout E c per fc w))"
proof -
  let ?loop = "gpu_loop E c per fc [] (pick_gpu (w_pool w) (w_now w)) w"
  obtain gs where gs: "distinct gs" "length gs \<le> max_gpu_attempts" "sent_to fc gs [] (effects_of ?loop)"
    using gpu_loop_sent_to[of "[]" "pick_gpu (w_pool w) (w_now w)" fc E c per w]
    unfolding fresh_cand_nil append_Nil by auto
  then have base: "\<exists>gs cs. distinct gs \<and> length gs \<le> max_gpu_attempts \<and> length cs \<le> 1 \<and>
      sent_to fc gs cs (effects_of ?loop)"
    by (intro exI[of _ gs, OF exI[of _ "[]"]]) simp
  show ?thesis
  proof (cases ?loop)
    case (Returned es r w')
    show ?thesis
    proof (cases "r = None \<and> pick_cpu (w_pool w') (w_now w') \<noteq> None")
      case True
      then obtain ca t where cpu: "pick_cpu (w_pool w') (w_now w') = Some (ca, t)" by auto
      have "sent_to fc gs [ca] (effects_of (run_async E (forward_cpu_with_timeout E c per fc ca) w'))"
        using cpu_attempt_sent_to effects_of_run_async
        by (rule sent_to_mono[OF sent_to_subset]) auto
      moreover have "sent_to fc gs [ca] es" using gs(3) Returned by (auto elim: sent_to_mono)
      ultimately show ?thesis using gs(1,2) True cpu Returned
        by (intro exI[of _ gs, OF exI[of _ "[ca]"]])
          (auto simp: sequential_timeout_def effects_of_prepend)
    next
      case False
      then have "effects_of (sequential_timeout E c per fc w) = es"
        using Returned by (auto simp: sequential_timeout_def split: option.split)
      then show ?thesis using gs Returned by (intro exI[of _ gs, OF exI[of _ "[]"]]) simp
    qed
  qed (use base in \<open>auto simp: sequential_timeout_def\<close>)
qed

section \<open>Trips and the trimmed backoff\<close>

text \<open>A GPU attempt that does not answer the request has tripped that GPU.\<close>

lemma gpu_attempt_failed_trips:
  assumes "snd (gpu_attempt E c per fc ga now) = Some (t', None)"
  shows "(t', Trip ga (cooldown c)) \<in> set (fst (gpu_attempt E c per fc ga now))"
proof (cases rule: gpu_attempt_cases[of E c per fc ga now])
  case (failed t'' r l)
  then have t': "t'' = t'" using assms by simp
  have "trips (fst (trimmed_forward E c per fc ga now)) = [(t'', ga, cooldown c)]"
    using forward_with_retry_result[OF failed(1)[unfolded trimmed_forward_def]] failed(3)
    by (simp add: trimmed_forward_def retry_config_of_def)
  then have "(t'', Trip ga (cooldown c)) \<in> set (fst (trimmed_forward E c per fc ga now))"
    unfolding trips_mem[symmetric] by simp
  then show ?thesis using failed(4) t' by simp
qed (use assms in auto)

text \<open>The sum of the sleeps of one attempt.\<close>

definition total_backoff :: "retry_config \<Rightarrow> duration" where
  "total_backoff rc = (\<Sum>k<unat (max_retries rc). nth_backoff rc k)"

lemma attempt_cfg_backoff:
  assumes "max_retries rc < 2 ^ 32 - 1"
  shows "nth_backoff (attempt_cfg rc per) k \<le> per div (unat (max_retries rc) + 1) div 2"
proof -
  have "unat (max_retries rc) < 2 ^ 32 - 1"
    using assms by (simp add: word_less_nat_alt)
  then have "initial_backoff (attempt_cfg rc per) \<le> per div (unat (max_retries rc) + 1) div 2"
    "max_backoff (attempt_cfg rc per) \<le> per div (unat (max_retries rc) + 1) div 2"
    by (simp_all add: attempt_cfg_def Let_def)
  then show ?thesis by (cases k) (auto simp: next_backoff_def)
qed

lemma trimmed_total_backoff:
  assumes "max_retries rc < 2 ^ 32 - 1"
  shows "total_backoff (attempt_cfg rc per) \<le> per div 2"
proof -
  define n where "n = unat (max_retries rc)"
  have "total_backoff (attempt_cfg rc per) \<le> n * (per div (n + 1) div 2)"
    unfolding total_backoff_def n_def attempt_cfg_sel
    using sum_bounded_above[of "{..<unat (max_retries rc)}" "nth_backoff (attempt_cfg rc per)"
        "per div (unat (max_retries rc) + 1) div 2"] attempt_cfg_backoff[OF assms]
    by simp
  also have "\<dots> \<le> (n + 1) * (per div (n + 1)) div 2"
    using div_mult2_eq[of "(n + 1) * (per div (n + 1))" 1 2]
    by (simp add: less_eq_div_iff_mult_less_eq) (metis add.commute add_le_mono div_times_less_eq_dividend
        le_add2 mult.assoc mult_le_mono2 trans_le_add2)
  also have "\<dots> \<le> per div 2"
    by (intro div_le_mono) (metis times_div_less_eq_dividend)
  finally show ?thesis .
qed

text \<open>The CPU stage: the outcome of its retry loop, or 503 when the budget is used up.\<close>

definition within_budget :: "instant \<Rightarrow> (instant \<times> outcome) option \<Rightarrow> instant \<times> outcome" where
  "within_budget deadline f =
     (case f of
        Some (t, r) \<Rightarrow> if t \<le> deadline then (t, r) else (deadline, Inl NoUpstreamAvailable)
      | None \<Rightarrow> (deadline, Inl NoUpstreamAvailable))"

lemma forward_cpu_spec:
  "snd (forward_cpu_with_timeout E c per fc ca now) =
     Some (within_budget (now + per) (retry_spec (net E) (retry_config_of c) fc ca Cpu now))"
  unfolding forward_with_retry_spec[symmetric]
  by (auto simp: forward_cpu_with_timeout_def await_def timeout_def within_budget_def ready_def emit_def
      split: option.split prod.split)

text \<open>A GPU stage: only a non-5xx response ends the request.\<close>

lemma gpu_attempt_spec:
  "snd (gpu_attempt E c per fc ga now) =
     Some (case retry_spec (net E) (attempt_cfg (retry_config_of c) per) fc ga Gpu now of
             Some (t, r) \<Rightarrow>
               if t \<le> now + per then (t, if is_retryable r then None else Some r) else (now + per, None)
           | None \<Rightarrow> (now + per, None))"
proof -
  have spec: "retry_spec (net E) (attempt_cfg (retry_config_of c) per) fc ga Gpu now =
      snd (trimmed_forward E c per fc ga now)"
    by (simp add: trimmed_forward_def forward_with_retry_spec)
  show ?thesis
    unfolding spec
  proof (cases rule: gpu_attempt_cases[of E c per fc ga now])
    case timed_out
    then show "snd (gpu_attempt E c per fc ga now) = Some (case snd (trimmed_forward E c per fc ga now) of
             Some (t, r) \<Rightarrow>
               if t \<le> now + per then (t, if is_retryable r then None else Some r) else (now + per, None)
           | None \<Rightarrow> (now + per, None))"
      by (auto split: option.split)
  qed simp_all
qed

section \<open>Failed requests leave no untripped GPU behind\<close>

definition gpus_tripped :: "config \<Rightarrow> forward_ctx \<Rightarrow> (instant \<times> effect) list \<Rightarrow> bool" where
  "gpus_tripped c fc es \<longleftrightarrow>
     (\<forall>(t, k, rq)\<in>set (sends es). t = Gpu \<longrightarrow>
        (\<exists>a s. rq = forward_request fc a \<and> (s, Trip a (cooldown c)) \<in> set es))"

lemma gpus_tripped_simps [simp]:
  "gpus_tripped c fc []" "gpus_tripped c fc [(s, Log l)]"
  by (simp_all add: gpus_tripped_def)

lemma gpus_tripped_append:
  "gpus_tripped c fc es \<Longrightarrow> gpus_tripped c fc es' \<Longrightarrow> gpus_tripped c fc (es @ es')"
  by (fastforce simp: gpus_tripped_def)

lemma gpu_attempt_None_tripped:
  assumes "run_async E (gpu_attempt E c per fc ga) w = Returned es None w'"
  shows "gpus_tripped c fc es"
proof -
  have es: "es = fst (gpu_attempt E c per fc ga (w_now w))"
    "snd (gpu_attempt E c per fc ga (w_now w)) = Some (w_now w', None)"
    using run_async_Returned[OF assms] by auto
  show ?thesis
    using gpu_attempt_failed_trips[OF es(2)] gpu_attempt_sent_to[of fc ga E c per "w_now w"]
    unfolding es(1) gpus_tripped_def sent_to_def by fastforce
qed

lemma gpu_attempt_Some:
  assumes "snd (gpu_attempt E c per fc ga now) = Some (t, Some out)"
  shows "\<not> is_retryable out"
  by (cases rule: gpu_attempt_cases[of E c per fc ga now]) (use assms in auto)

lemma gpu_loop_tripped:
  "gpu_loop E c per fc tried cand w = Returned es r w' \<Longrightarrow>
     (case r of None \<Rightarrow> gpus_tripped c fc es | Some out \<Rightarrow> \<not> is_retryable out)"
proof (induction E c per fc tried cand w arbitrary: es r w' rule: gpu_loop.induct)
  case (2 E c per fc tried ga t w)
  show ?case
  proof (cases "max_gpu_attempts \<le> length tried")
    case True
    then show ?thesis using 2(2) by auto
  next
    case False
    obtain es1 r1 w1 where one: "run_async E (gpu_attempt E c per fc ga) w = Returned es1 r1 w1"
      using 2(2) False by (cases "run_async E (gpu_attempt E c per fc ga) w") auto
    show ?thesis
    proof (cases r1)
      case None
      let ?tried = "tried @ [ga]"
      obtain es2 where es2: "gpu_loop E c per fc ?tried
          (pick_gpu_excluding_set (w_pool w1) ?tried (w_now w1)) w1 = Returned es2 r w'" "es = es1 @ es2"
        using 2(2) False one None
        by (cases "gpu_loop E c per fc ?tried (pick_gpu_excluding_set (w_pool w1) ?tried (w_now w1)) w1")
          (auto simp: Let_def)
      show ?thesis
        using 2(1)[OF False None refl es2(1)] gpu_attempt_None_tripped[OF one[unfolded None]] es2(2)
        by (auto split: option.splits intro: gpus_tripped_append)
    next
      case (Some out)
      then have "r = Some out" using 2(2) False one by auto
      then show ?thesis
        using gpu_attempt_Some[OF run_async_Returned[OF one, THEN conjunct2, unfolded Some]] by simp
    qed
  qed
qed auto

lemma cpu_gpus_tripped:
  assumes "run_async E (forward_cpu_with_timeout E c per fc ca) w = Returned es r w'"
  shows "gpus_tripped c fc es"
  using run_async_Returned[OF assms] cpu_attempt_sent_to[of fc ca E c per "w_now w"]
  by (force simp: gpus_tripped_def sent_to_def)

lemma sequential_failed_tripped:
  assumes "sequential_timeout E c per fc w = Returned es r w'" and "is_retryable r"
  shows "gpus_tripped c fc es"
proof -
  let ?loop = "gpu_loop E c per fc [] (pick_gpu (w_pool w) (w_now w)) w"
  obtain es1 r1 w1 where one: "?loop = Returned es1 r1 w1"
    using assms(1) by (cases ?loop) (auto simp: sequential_timeout_def)
  have "r1 = None"
    using gpu_loop_tripped[OF one] assms one by (cases r1) (auto simp: sequential_timeout_def)
  then have es1: "gpus_tripped c fc es1" using gpu_loop_tripped[OF one] by simp
  show ?thesis
  proof (cases "pick_cpu (w_pool w1) (w_now w1)")
    case None
    then show ?thesis using assms(1) one \<open>r1 = None\<close> es1 by (simp add: sequential_timeout_def)
  next
    case (Some cand)
    obtain ca t where cand: "cand = (ca, t)" by fastforce
    obtain es2 where "run_async E (forward_cpu_with_timeout E c per fc ca) w1 = Returned es2 r w'" "es = es1 @ es2"
      using assms(1) one \<open>r1 = None\<close> Some cand
      by (cases "run_async E (forward_cpu_with_timeout E c per fc ca) w1") (auto simp: sequential_timeout_def)
    then show ?thesis using es1 cpu_gpus_tripped gpus_tripped_append by blast
  qed
qed

section \<open>A silent GPU\<close>

text \<open>The only upstream, a GPU, never answers: the request trips it at its deadline.\<close>

definition lone_gpu :: "instant option \<Rightarrow> instant \<Rightarrow> pool_snapshot" where
  "lone_gpu cd t = \<lparr>gpu = [demo_upstream demo_addr Gpu 0\<lparr>cooldown_until := cd\<rparr>], cpu = [], updated_at = t\<rparr>"

abbreviation cooled_gpu :: pool_snapshot where
  "cooled_gpu \<equiv> lone_gpu (Some (from_millis 1000 + from_secs 30)) (from_millis 1000)"

lemma silent_run:
  "sequential_timeout silent_runtime default_config (from_millis 1000) fc \<lparr>w_now = 0, w_pool = lone_gpu None 0, w_env = ()\<rparr> =
     Returned
       [(0, SendRequest Gpu 0 (forward_request fc demo_addr)),
        (from_millis 1000, Trip demo_addr (from_secs 30)),
        (from_millis 1000, Log (GpuTimedOut demo_addr (ms (from_millis 1000))))]
       (Inl NoUpstreamAvailable) \<lparr>w_now = from_millis 1000, w_pool = cooled_gpu, w_env = ()\<rparr>"
proof -
  let ?w = "\<lparr>w_now = 0, w_pool = lone_gpu None 0, w_env = ()\<rparr>"
  let ?es = "[(0, SendRequest Gpu 0 (forward_request fc demo_addr)),
    (from_millis 1000, Trip demo_addr (from_secs 30)),
    (from_millis 1000, Log (GpuTimedOut demo_addr (ms (from_millis 1000))))]"
  have adv: "advance silent_runtime t w = w\<lparr>w_now := t\<rparr>" for t and w :: "unit world"
    by (rule advance_still) (simp add: silent_runtime_def)
  have attempt: "gpu_attempt silent_runtime default_config (from_millis 1000) fc demo_addr 0 =
      (?es, Some (from_millis 1000, None))"
    by (simp add: gpu_attempt_def await_def[of "timeout _ _"] timeout_def effects_until_def
        forward_with_retry_hang silent_runtime_def ready_def retry_config_of_def default_config_def)
  have "trip_at (lone_gpu None 0) demo_addr (from_secs 30) (from_millis 1000) = Some cooled_gpu"
    by (simp add: trip_at_def trip_def already_cooled_def demo_upstream_def is_in_cooldown_def lone_gpu_def
        instant_add_def trip_next_def from_secs_def from_millis_def time_defs)
  then have run: "run_async silent_runtime (gpu_attempt silent_runtime default_config (from_millis 1000) fc demo_addr) ?w =
      Returned ?es None \<lparr>w_now = from_millis 1000, w_pool = cooled_gpu, w_env = ()\<rparr>"
    by (simp add: run_async_def attempt adv Let_def)
  have picks: "pick_gpu (lone_gpu None 0) 0 = Some (demo_addr, Gpu)" "pick_cpu (lone_gpu cd t) now = None"
    "pick_gpu_excluding_set (lone_gpu cd t) [demo_addr] now = None" for cd t now
    by (simp_all add: pick_gpu_tier pick_cpu_tier pick_gpu_excluding_set_def pick_tier_def lone_gpu_def
        demo_upstream_def is_ok_eligible_def is_in_cooldown_def)
  show ?thesis by (simp add: sequential_timeout_def picks max_gpu_attempts_def run Let_def)
qed

section \<open>Properties\<close>

text \<open>C8: a control-plane request always returns, whatever the network and the other tasks
  do, and no later than three times the per-upstream budget after it started; the process
  aborts only if a cooldown window leaves the range of the clock.\<close>
theorem sequential_deadline:
  "case sequential_timeout E c per fc w of
     Returned es r w' \<Rightarrow> w_now w \<le> w_now w' \<and> w_now w' \<le> w_now w + 3 * per
   | Hung es \<Rightarrow> False
   | Aborted es \<Rightarrow> instant_max < w_now w + 3 * per + cooldown c"
proof -
  have "max_gpu_attempts * per + per = 3 * per" unfolding max_gpu_attempts_def by simp
  from sequential_within[of w per c E fc, unfolded this run_within_def] show ?thesis .
qed

text \<open>C19: a control-plane request contacts at most two GPUs, all different, and then at most
  one CPU upstream, and every request it sends is the buffered request.\<close>
theorem sequential_contacts:
  "\<exists>gs cs. distinct gs \<and> length gs \<le> 2 \<and> length cs \<le> 1 \<and>
     sent_to fc gs cs (effects_of (sequential_timeout E c per fc w))"
  using sequential_sent_to[of fc E c per w] unfolding max_gpu_attempts_def .

text \<open>C20: when a control-plane request ends with a 5xx response or an error, every GPU it sent
  a request to has been tripped for the configured cooldown on the way; a non-5xx response of
  a GPU always ends the request.\<close>
theorem failed_request_trips_gpus:
  assumes "sequential_timeout E c per fc w = Returned es r w'" and "is_retryable r"
    and "(Gpu, k, rq) \<in> set (sends es)"
  shows "\<exists>a s. rq = forward_request fc a \<and> (s, Trip a (cooldown c)) \<in> set es"
  using sequential_failed_tripped[OF assms(1,2)] assms(3) unfolding gpus_tripped_def by blast

lemma failed_request_trips_gpus_witness:
  "\<exists>a s. forward_request demo_ctx demo_addr = forward_request demo_ctx a \<and>
     (s, Trip a (from_secs 30)) \<in> set (effects_of (sequential_timeout silent_runtime default_config
        (from_millis 1000) demo_ctx \<lparr>w_now = 0, w_pool = lone_gpu None 0, w_env = ()\<rparr>))"
  using failed_request_trips_gpus[OF silent_run[of demo_ctx], of 0 "forward_request demo_ctx demo_addr"]
    silent_run[of demo_ctx]
  by (simp add: default_config_def)

text \<open>A GPU attempt that does not answer the request (a 5xx response, a transport error
  or the timeout) ends with a trip of exactly that GPU for the configured cooldown.\<close>
lemma failed_gpu_attempt_trips:
  assumes "snd (gpu_attempt E c per fc ga now) = Some (t', None)"
  shows "(t', Trip ga (cooldown c)) \<in> set (fst (gpu_attempt E c per fc ga now))"
  using assms by (rule gpu_attempt_failed_trips)

lemma failed_gpu_attempt_trips_witness:
  "(from_millis 1000, Trip demo_addr (from_secs 30)) \<in>
     set (fst (gpu_attempt (silent_runtime) default_config (from_millis 1000) demo_ctx demo_addr 0))"
proof -
  have "snd (gpu_attempt silent_runtime default_config (from_millis 1000) demo_ctx demo_addr 0) =
      Some (from_millis 1000, None)"
    by (simp add: gpu_attempt_def await_def[of "timeout _ _"] timeout_def
        forward_with_retry_hang silent_runtime_def ready_def)
  from failed_gpu_attempt_trips[OF this] show ?thesis by (simp add: default_config_def)
qed

text \<open>With an accepted retry count the trimmed backoff of one attempt uses at most half
  of the per-upstream budget, all sleeps together.\<close>
lemma trimmed_backoff_fits:
  assumes "max_retries rc \<le> max_retry_count"
  shows "total_backoff (attempt_cfg rc per) \<le> per div 2"
proof (rule trimmed_total_backoff)
  show "max_retries rc < 2 ^ 32 - 1"
    using assms by (simp add: max_retry_count_def word_le_nat_alt word_less_nat_alt)
qed

lemma trimmed_backoff_fits_witness:
  "total_backoff (attempt_cfg (retry_config_of default_config) (from_millis 1000)) \<le> from_millis 1000 div 2"
  by (rule trimmed_backoff_fits)
    (simp add: retry_config_of_def default_config_def max_retry_count_def)

text \<open>C26: what the two kinds of stages of a control-plane request give, and when. A GPU stage
  answers with the non-5xx response of its retry loop (with the trimmed backoff) and otherwise
  passes on, at the end of the loop or at the deadline. The CPU stage gives whatever its retry
  loop gives, a 5xx response or a transport error included, and 503 at the deadline.\<close>
theorem stage_outcomes:
  "snd (gpu_attempt E c per fc ga now) =
     Some (case retry_spec (net E) (attempt_cfg (retry_config_of c) per) fc ga Gpu now of
             Some (t, r) \<Rightarrow>
               if t \<le> now + per then (t, if is_retryable r then None else Some r) else (now + per, None)
           | None \<Rightarrow> (now + per, None)) \<and>
   snd (forward_cpu_with_timeout E c per fc ca now) =
     Some (case retry_spec (net E) (retry_config_of c) fc ca Cpu now of
             Some (t, r) \<Rightarrow>
               if t \<le> now + per then (t, r) else (now + per, Inl NoUpstreamAvailable)
           | None \<Rightarrow> (now + per, Inl NoUpstreamAvailable))"
  unfolding forward_cpu_spec within_budget_def gpu_attempt_spec by (rule conjI refl)+

end
