(* ===== verification/Handlers.thy ===== *)
theory Handlers
  imports Race Sequential
begin

text \<open>
  The request handlers (\<open>src/handler/health.rs\<close>, \<open>src/handler/proxy.rs\<close>) and the
  router that dispatches to them (\<open>src/bootstrap/router.rs\<close>). Durations are kept exact
  where the source renders them as seconds in floating point. The three middleware layers of
  \<open>tower-http\<close> are not part of the sources: they are transformers of a service, arguments
  of \<open>build\<close>.
\<close>

section \<open>Router health\<close>

record upstream_view =
  v_addr :: string
  v_pool_type :: string
  v_status :: string
  v_queue_depth :: u32
  v_live_workers :: u32
  v_last_seen_ago :: duration
  v_cooldown_remaining :: "duration option"

record router_health_response =
  rh_status :: string
  rh_gpu_upstreams :: "upstream_view list"
  rh_cpu_upstreams :: "upstream_view list"

fun status_as_str :: "upstream_status \<Rightarrow> string" where
  "status_as_str Ok = ''ok''"
| "status_as_str Loading = ''loading''"
| "status_as_str Fail = ''fail''"
| "status_as_str Unknown = ''unknown''"

definition cooldown_remaining :: "upstream_info \<Rightarrow> instant \<Rightarrow> duration option" where
  "cooldown_remaining u now =
     (case map_option (\<lambda>t. duration_since t now) (cooldown_until u) of
        Some d \<Rightarrow> if 0 < d then Some d else None
      | None \<Rightarrow> None)"

definition from_info :: "upstream_info \<Rightarrow> instant \<Rightarrow> upstream_view" where
  "from_info u now =
     \<lparr>v_addr = show_addr (addr u),
      v_pool_type = (case pool_type u of Gpu \<Rightarrow> ''gpu'' | Cpu \<Rightarrow> ''cpu''),
      v_status = status_as_str (status u),
      v_queue_depth = queue_depth u, v_live_workers = live_workers u,
      v_last_seen_ago = duration_since now (last_seen u),
      v_cooldown_remaining = cooldown_remaining u now\<rparr>"

definition router_health :: "pool_snapshot \<Rightarrow> instant \<Rightarrow> u16 \<times> router_health_response" where
  "router_health s now =
     (let g = map (\<lambda>u. from_info u now) (gpu s);
          p = map (\<lambda>u. from_info u now) (cpu s);
          gpu_ok = length (filter (\<lambda>v. v_status v = ''ok'') g);
          cpu_ok = length (filter (\<lambda>v. v_status v = ''ok'') p);
          st = (if 0 < gpu_ok \<or> 0 < cpu_ok then ''ok'' else ''degraded'');
          has_any_upstream = (g \<noteq> [] \<or> p \<noteq> [])
      in (if has_any_upstream then 200 else 503,
          \<lparr>rh_status = st, rh_gpu_upstreams = g, rh_cpu_upstreams = p\<rparr>))"

section \<open>The proxy handler\<close>

text \<open>
  A request as the handler sees it. \<open>hr_body\<close> is what collecting the body stream gives and
  how long it takes; \<open>None\<close> is a client that never finishes sending.
\<close>

record http_request =
  hr_method :: string
  hr_path :: string
  hr_path_and_query :: "string option"
  hr_headers :: header_map
  hr_body :: "(duration \<times> (ext_error + string)) option"

definition path_and_query_of :: "http_request \<Rightarrow> string" where
  "path_and_query_of rq = (case hr_path_and_query rq of None \<Rightarrow> hr_path rq | Some pq \<Rightarrow> pq)"

definition handle_proxy :: "'env runtime \<Rightarrow> config \<Rightarrow> http_request \<Rightarrow> 'env world \<Rightarrow> ('env, response) run" where
  "handle_proxy E c rq w =
     (let pq = path_and_query_of rq
      in case hr_body rq of
           None \<Rightarrow> Hung []
         | Some (d, Inl e) \<Rightarrow>
             Returned [(w_now w + d, Log (BodyReadFailed (err_text e)))]
               (text_response 400 ''failed to read request body'') (advance E (w_now w + d) w)
         | Some (d, Inr body) \<Rightarrow>
             bind_run (route E c (hr_method rq) pq (hr_headers rq) body (advance E (w_now w + d) w))
               (\<lambda>result w'. case result of
                  Inr resp \<Rightarrow> Returned [] resp w'
                | Inl e \<Rightarrow>
                    Returned [(w_now w', Log (RoutingFailed (app_error_display e) pq))]
                      (app_error_into_response e) w'))"

section \<open>The router\<close>

datatype endpoint = RouterHealth | MethodNotAllowed | ProxyFallback

text \<open>\<open>get(...)\<close> answers GET and HEAD on its path; all other paths go to the fallback.\<close>

definition dispatch :: "http_request \<Rightarrow> endpoint" where
  "dispatch rq =
     (if hr_path rq = ''/router/health''
      then (if hr_method rq \<in> {''GET'', ''HEAD''} then RouterHealth else MethodNotAllowed)
      else ProxyFallback)"

type_synonym 'env service = "http_request \<Rightarrow> 'env world \<Rightarrow> ('env, response) run"

text \<open>
  The service: \<open>health_reply\<close> renders the health view as a JSON response and
  \<open>not_allowed\<close> is the framework's 405; the layer added last is the outermost one.
\<close>

definition routes ::
  "(u16 \<times> router_health_response \<Rightarrow> response) \<Rightarrow> response \<Rightarrow> 'env runtime \<Rightarrow> config \<Rightarrow> 'env service" where
  "routes health_reply not_allowed E c rq w =
     (case dispatch rq of
        RouterHealth \<Rightarrow> Returned [] (health_reply (router_health (w_pool w) (w_now w))) w
      | MethodNotAllowed \<Rightarrow> Returned [] not_allowed w
      | ProxyFallback \<Rightarrow> handle_proxy E c rq w)"

definition build ::
  "(string \<Rightarrow> 'env service \<Rightarrow> 'env service) \<Rightarrow> (string \<Rightarrow> 'env service \<Rightarrow> 'env service) \<Rightarrow> ('env service \<Rightarrow> 'env service) \<Rightarrow>
   (u16 \<times> router_health_response \<Rightarrow> response) \<Rightarrow> response \<Rightarrow> 'env runtime \<Rightarrow> config \<Rightarrow> 'env service" where
  "build propagate_request_id set_request_id trace health_reply not_allowed E c =
     trace (set_request_id ''x-request-id'' (propagate_request_id ''x-request-id''
       (routes health_reply not_allowed E c)))"

text \<open>The buffered request that \<open>handle_proxy\<close> forwards once the body is read.\<close>

definition ctx_of :: "config \<Rightarrow> http_request \<Rightarrow> string \<Rightarrow> forward_ctx" where
  "ctx_of c rq body =
     \<lparr>fc_scheme = upstream_scheme_of c, fc_method = hr_method rq,
      fc_path_and_query = path_and_query_of rq, fc_headers = hr_headers rq, fc_body = body\<rparr>"

section \<open>Facts\<close>

lemma status_as_str_ok [simp]: "status_as_str st = ''ok'' \<longleftrightarrow> st = Ok"
  by (cases st) simp_all

lemma status_as_str_inj: "status_as_str a = status_as_str b \<longleftrightarrow> a = b"
  by (cases a; cases b) simp_all

lemma cooldown_remaining_iff: "cooldown_remaining u now \<noteq> None \<longleftrightarrow> is_in_cooldown u now"
  by (auto simp: cooldown_remaining_def is_in_cooldown_def duration_since_def split: option.splits)

lemma cooldown_remaining_value:
  "cooldown_remaining u now = Some d \<longleftrightarrow> 0 < d \<and> cooldown_until u = Some (now + d)"
  by (auto simp: cooldown_remaining_def duration_since_def split: option.splits if_splits)

lemma route_sequential:
  "\<not> is_inference_path pq \<Longrightarrow>
     run_within (w_now w) (3 * control_timeout c) (cooldown c) (route E c m pq hs b w)"
proof -
  assume "\<not> is_inference_path pq"
  moreover have "max_gpu_attempts * control_timeout c + control_timeout c = 3 * control_timeout c"
    unfolding max_gpu_attempts_def by simp
  ultimately show ?thesis
    using sequential_within[of w "control_timeout c" c E]
    by (simp only: route_def for_path_def Let_def if_False route_policy.case)
qed

text \<open>Without a routable upstream a request ends at once.\<close>

lemma route_no_upstream:
  assumes "pick (w_pool w) (w_now w) = None"
  shows "route E c m pq hs b w = Returned [] (Inl NoUpstreamAvailable) w"
proof -
  have "pick_gpu (w_pool w) (w_now w) = None" "pick_cpu (w_pool w) (w_now w) = None"
    using assms unfolding pick_None_iff pick_gpu_None pick_cpu_None by auto
  then show ?thesis
    by (simp add: route_def for_path_def hedged_race_def sequential_timeout_def
        secondary_candidate_def Let_def)
qed

section \<open>Properties\<close>

text \<open>C15: a control-plane request whose body arrives after \<open>d\<close> is answered no later than
  three control timeouts after that, whatever the upstreams do.\<close>
theorem control_plane_answered:
  assumes "hr_body rq = Some (d, b)" and "\<not> is_inference_path (path_and_query_of rq)"
  shows "case handle_proxy E c rq w of
      Returned es resp w' \<Rightarrow> w_now w' \<le> w_now w + d + 3 * control_timeout c
    | Hung es \<Rightarrow> False
    | Aborted es \<Rightarrow> instant_max < w_now w + d + 3 * control_timeout c + cooldown c"
proof (cases b)
  case (Inl e)
  then show ?thesis using assms(1) by (simp add: handle_proxy_def Let_def)
next
  case (Inr body)
  let ?w = "advance E (w_now w + d) w"
  let ?k = "\<lambda>result w'. case result of Inr resp \<Rightarrow> Returned [] resp w'
     | Inl e \<Rightarrow> Returned [(w_now w', Log (RoutingFailed (app_error_display e) (path_and_query_of rq)))]
         (app_error_into_response e) w'"
  have "run_within (w_now ?w) (3 * control_timeout c + 0) (cooldown c)
      (bind_run (route E c (hr_method rq) (path_and_query_of rq) (hr_headers rq) body ?w) ?k)"
    by (rule run_within_bind[OF route_sequential[OF assms(2)]]) (simp split: sum.split)
  then have "run_within (w_now w + d) (3 * control_timeout c) (cooldown c) (handle_proxy E c rq w)"
    using assms(1) Inr by (simp add: handle_proxy_def Let_def)
  then show ?thesis by (auto simp: run_within_def split: run.splits)
qed

definition demo_request :: http_request where
  "demo_request = \<lparr>hr_method = ''GET'', hr_path = ''/v1/models'', hr_path_and_query = Some ''/v1/models'',
     hr_headers = [], hr_body = Some (0, Inr [])\<rparr>"

lemma control_plane_answered_witness:
  "case handle_proxy silent_runtime default_config demo_request \<lparr>w_now = 0, w_pool = demo_snapshot, w_env = ()\<rparr> of
     Returned es resp w' \<Rightarrow> w_now w' \<le> 3 * control_timeout default_config
   | Hung es \<Rightarrow> False
   | Aborted es \<Rightarrow> instant_max < 3 * control_timeout default_config + cooldown default_config"
proof -
  have "hr_body demo_request = Some (0, Inr [])" "\<not> is_inference_path (path_and_query_of demo_request)"
    by (simp_all add: demo_request_def path_and_query_of_def is_inference_path_def starts_with_def)
  from control_plane_answered[OF this, where E = silent_runtime and c = default_config and w = "\<lparr>w_now = 0, w_pool = demo_snapshot, w_env = ()\<rparr>"]
  show ?thesis by (simp only: world.simps add_0 add_0_right)
qed

text \<open>C27: when the policy finds no upstream, every proxied request with a readable body is
  answered with 503 and the text of the error at once, and no upstream is contacted or
  tripped.\<close>
theorem no_upstream_503:
  assumes "hr_body rq = Some (d, Inr body)"
    and "pick (w_pool (advance E (w_now w + d) w)) (w_now w + d) = None"
  shows "handle_proxy E c rq w =
    Returned [(w_now w + d, Log (RoutingFailed ''no upstream available'' (path_and_query_of rq)))]
      (text_response 503 ''no upstream available'') (advance E (w_now w + d) w)"
  using assms route_no_upstream[of "advance E (w_now w + d) w"]
  by (simp add: handle_proxy_def Let_def app_error_into_response_def)

lemma no_upstream_503_witness:
  "handle_proxy silent_runtime default_config demo_request \<lparr>w_now = 4, w_pool = default_snapshot 0, w_env = ()\<rparr> =
     Returned [(4, Log (RoutingFailed ''no upstream available'' ''/v1/models''))]
       (text_response 503 ''no upstream available'') \<lparr>w_now = 4, w_pool = default_snapshot 0, w_env = ()\<rparr>"
proof -
  have "hr_body demo_request = Some (0, Inr [])" by (simp add: demo_request_def)
  moreover have "pick (w_pool (advance silent_runtime (4 + 0) \<lparr>w_now = 4, w_pool = default_snapshot 0, w_env = ()\<rparr>)) (4 + 0) = None"
    by (simp add: advance_def silent_runtime_def default_snapshot_def pick_None_iff)
  ultimately show ?thesis
    using no_upstream_503[of demo_request 0 "[]" silent_runtime "\<lparr>w_now = 4, w_pool = default_snapshot 0, w_env = ()\<rparr>"]
    by (simp add: advance_def silent_runtime_def demo_request_def path_and_query_of_def)
qed

text \<open>C35: the health endpoint answers 200 exactly when any upstream is known, and reports
  \<open>ok\<close> exactly when one of them has status \<open>Ok\<close>, cooling down or not. Its two lists show the
  GPU and the CPU upstreams, in their order and each with its own address, status and
  remaining cooldown; an upstream shows a remaining cooldown exactly while it is cooling down,
  and then the time from now to the end of its window.\<close>
theorem router_health_meaning:
  "fst (router_health s now) = (if upstreams s = [] then 503 else 200) \<and>
   rh_status (snd (router_health s now)) =
     (if filter (\<lambda>u. status u = Ok) (upstreams s) = [] then ''degraded'' else ''ok'') \<and>
   map v_addr (rh_gpu_upstreams (snd (router_health s now))) = map show_addr (addrs_of (gpu s)) \<and>
   map v_addr (rh_cpu_upstreams (snd (router_health s now))) = map show_addr (addrs_of (cpu s)) \<and>
   map v_status (rh_gpu_upstreams (snd (router_health s now))) = map (status_as_str \<circ> status) (gpu s) \<and>
   map v_status (rh_cpu_upstreams (snd (router_health s now))) = map (status_as_str \<circ> status) (cpu s) \<and>
   map v_cooldown_remaining (rh_gpu_upstreams (snd (router_health s now))) =
     map (\<lambda>u. cooldown_remaining u now) (gpu s) \<and>
   map v_cooldown_remaining (rh_cpu_upstreams (snd (router_health s now))) =
     map (\<lambda>u. cooldown_remaining u now) (cpu s) \<and>
   (cooldown_remaining u now \<noteq> None \<longleftrightarrow> is_in_cooldown u now) \<and>
   (cooldown_remaining u now = Some d \<longleftrightarrow> 0 < d \<and> cooldown_until u = Some (now + d))"
  unfolding cooldown_remaining_iff cooldown_remaining_value
  by (auto simp: router_health_def Let_def from_info_def comp_def filter_map filter_empty_conv)

end
