(* ===== verification/Health_Poll.thy ===== *)
theory Health_Poll
  imports Snapshot "HOL-Library.Multiset"
begin

text \<open>
  \<open>src/upstream/health.rs\<close>: one round of health polling. The HTTP client and the JSON
  decoder are not part of the sources; what one \<open>GET /health\<close> gives is a \<open>poll_reply\<close>
  supplied by the environment. A polling task that panics or is aborted is a
  \<open>JoinError\<close>. \<open>poll_concurrent\<close> receives the finished tasks in the order in which
  the join set yields them, which may be any order.
\<close>

section \<open>Data\<close>

record workers_field =
  live :: u32

record bge_m_health_response =
  body_status :: string
  body_workers :: "workers_field option"
  body_queue_depth :: "u32 option"

datatype poll_reply =
    SendError                                       \<comment> \<open>\<open>Err(e)\<close>, a timeout included\<close>
  | NonSuccess u16                                  \<comment> \<open>\<open>Ok(_)\<close> with a non-2xx status\<close>
  | Success "bge_m_health_response option"          \<comment> \<open>2xx; \<open>None\<close>: the body did not arrive or decode\<close>

datatype task_result = Joined poll_reply | JoinError

record poll_result =
  pr_addr :: socket_addr
  pr_status :: upstream_status
  pr_queue_depth :: u32
  pr_live_workers :: u32

section \<open>Operations\<close>

definition health_url :: "upstream_scheme \<Rightarrow> socket_addr \<Rightarrow> string" where
  "health_url scheme a = fmt_scheme scheme @ ''://'' @ show_addr a @ ''/health''"

text \<open>The request of one task: the URL and its four-second timeout.\<close>

definition poll_request :: "upstream_scheme \<Rightarrow> socket_addr \<Rightarrow> string \<times> duration" where
  "poll_request scheme a = (health_url scheme a, from_secs 4)"

fun poll_one :: "socket_addr \<Rightarrow> poll_reply \<Rightarrow> poll_result" where
  "poll_one a (Success (Some body)) =
     \<lparr>pr_addr = a,
      pr_status = parse_status (body_status body),
      pr_queue_depth = (case body_queue_depth body of None \<Rightarrow> 0 | Some q \<Rightarrow> q),
      pr_live_workers = (case body_workers body of None \<Rightarrow> 0 | Some w \<Rightarrow> live w)\<rparr>"
| "poll_one a (Success None) =
     \<lparr>pr_addr = a, pr_status = Unknown, pr_queue_depth = 0, pr_live_workers = 0\<rparr>"
| "poll_one a (NonSuccess code) =
     \<lparr>pr_addr = a, pr_status = Fail, pr_queue_depth = 0, pr_live_workers = 0\<rparr>"
| "poll_one a SendError =
     \<lparr>pr_addr = a, pr_status = Fail, pr_queue_depth = 0, pr_live_workers = 0\<rparr>"

fun poll_concurrent :: "(socket_addr \<times> task_result) list \<Rightarrow> poll_result list" where
  "poll_concurrent [] = []"
| "poll_concurrent ((a, JoinError) # ts) = poll_concurrent ts"
| "poll_concurrent ((a, Joined r) # ts) = poll_one a r # poll_concurrent ts"

definition apply_result :: "poll_result list \<Rightarrow> instant \<Rightarrow> upstream_info \<Rightarrow> upstream_info" where
  "apply_result results now u =
     (case find (\<lambda>r. pr_addr r = addr u) results of
        Some r \<Rightarrow>
          \<lparr>addr = addr u, pool_type = pool_type u, status = pr_status r,
           queue_depth = pr_queue_depth r, live_workers = pr_live_workers r,
           last_seen = now, cooldown_until = cooldown_until u\<rparr>
      | None \<Rightarrow> u)"

definition update_pool :: "pool \<Rightarrow> poll_result list \<Rightarrow> instant \<Rightarrow> pool" where
  "update_pool p results now = map (apply_result results now) p"

definition apply_updates :: "pool_snapshot \<Rightarrow> poll_result list \<Rightarrow> instant \<Rightarrow> pool_snapshot" where
  "apply_updates current results now =
     \<lparr>gpu = update_pool (gpu current) results now,
      cpu = update_pool (cpu current) results now,
      updated_at = now\<rparr>"

text \<open>The addresses of one round: those of the snapshot loaded at its start.\<close>

definition poll_targets :: "pool_snapshot \<Rightarrow> socket_addr list" where
  "poll_targets s = addrs_of (upstreams s)"

text \<open>
  One round: no request and no store when no upstream is known; otherwise the results are
  applied to the snapshot \<open>current\<close> that is loaded when the last task has finished.
  \<open>Some\<close> is the snapshot that is stored.
\<close>

definition poll_all ::
  "pool_snapshot \<Rightarrow> (socket_addr \<times> task_result) list \<Rightarrow> pool_snapshot \<Rightarrow> instant \<Rightarrow>
     pool_snapshot option" where
  "poll_all loaded finished current now =
     (if poll_targets loaded = [] then None
      else Some (apply_updates current (poll_concurrent finished) now))"

text \<open>The tasks of a round: one for every entry of the two vectors, finished in any order.\<close>

definition finished_round :: "pool_snapshot \<Rightarrow> (socket_addr \<times> task_result) list \<Rightarrow> bool" where
  "finished_round loaded finished \<longleftrightarrow> mset (map fst finished) = mset (poll_targets loaded)"

section \<open>What a round changes\<close>

lemma apply_result_fields [simp, frame_simps]:
  "addr (apply_result rs now u) = addr u"
  "pool_type (apply_result rs now u) = pool_type u"
  "cooldown_until (apply_result rs now u) = cooldown_until u"
  by (auto simp: apply_result_def split: option.splits)

lemma apply_result_cooldown [simp]:
  "is_in_cooldown (apply_result rs now u) t = is_in_cooldown u t"
  by (simp add: is_in_cooldown_def)

lemma update_pool_addrs [simp, frame_simps]: "addrs_of (update_pool p rs now) = addrs_of p"
  by (simp add: update_pool_def comp_def)

lemma update_pool_cooldowns [frame_simps]:
  "map cooldown_until (update_pool p rs now) = map cooldown_until p"
  by (simp add: update_pool_def comp_def)

lemma apply_updates_sel [simp]:
  "gpu (apply_updates s rs now) = update_pool (gpu s) rs now"
  "cpu (apply_updates s rs now) = update_pool (cpu s) rs now"
  "updated_at (apply_updates s rs now) = now"
  by (simp_all add: apply_updates_def)

interpretation health_writer: membership_writer "\<lambda>s. apply_updates s rs now" for rs now
  by unfold_locales (auto simp: typed_snapshot_def typed_pool_def update_pool_def)

lemma apply_updates_typed [wf_intros]: "typed_snapshot s \<Longrightarrow> typed_snapshot (apply_updates s rs now)"
  by (rule health_writer.wr_typed)

lemma poll_one_addr [simp]: "pr_addr (poll_one a r) = a"
  by (cases "(a, r)" rule: poll_one.cases) simp_all

lemma poll_concurrent_addrs: "set (map pr_addr (poll_concurrent ts)) \<subseteq> set (map fst ts)"
  by (induction ts rule: poll_concurrent.induct) auto

lemma poll_concurrent_answers:
  assumes "(a, Joined r) \<in> set ts"
  shows "\<exists>r'. (a, Joined r') \<in> set ts \<and>
     find (\<lambda>p. pr_addr p = a) (poll_concurrent ts) = Some (poll_one a r')"
  using assms
proof (induction ts rule: poll_concurrent.induct)
  case (3 b q ts)
  show ?case
  proof (cases "b = a")
    case True
    then show ?thesis by auto
  next
    case False
    with 3 show ?thesis by auto
  qed
qed auto

text \<open>An address with a single task: the status shown is the one that task reported.\<close>

lemma apply_result_answered:
  assumes "(addr u, Joined r) \<in> set ts" and "\<And>r'. (addr u, Joined r') \<in> set ts \<Longrightarrow> r' = r"
  shows "apply_result (poll_concurrent ts) now u =
     u\<lparr>status := pr_status (poll_one (addr u) r),
       queue_depth := pr_queue_depth (poll_one (addr u) r),
       live_workers := pr_live_workers (poll_one (addr u) r), last_seen := now\<rparr>"
proof -
  obtain r' where "(addr u, Joined r') \<in> set ts"
    "find (\<lambda>p. pr_addr p = addr u) (poll_concurrent ts) = Some (poll_one (addr u) r')"
    using poll_concurrent_answers[OF assms(1)] by blast
  with assms(2) show ?thesis by (simp add: apply_result_def)
qed

lemma apply_result_unanswered:
  assumes "\<And>r. (addr u, Joined r) \<notin> set ts"
  shows "apply_result (poll_concurrent ts) now u = u"
proof -
  have "find (\<lambda>p. pr_addr p = addr u) (poll_concurrent ts) = None"
    using assms by (induction ts rule: poll_concurrent.induct) auto
  then show ?thesis by (simp add: apply_result_def)
qed

text \<open>Only a 2xx reply whose body says \<open>ok\<close>, \<open>warn\<close>, \<open>loading\<close> or \<open>idle\<close> is usable.\<close>

lemma poll_one_status:
  "pr_status (poll_one a r) = Ok \<longleftrightarrow>
     (\<exists>b. r = Success (Some b) \<and> body_status b \<in> {''ok'', ''warn''})"
  "pr_status (poll_one a r) = Loading \<longleftrightarrow>
     (\<exists>b. r = Success (Some b) \<and> body_status b \<in> {''loading'', ''idle''})"
  by (cases "(a, r)" rule: poll_one.cases; auto simp: parse_status_cases)+

lemma poll_one_not_ok:
  "pr_status (poll_one a r) \<notin> {Ok, Loading} \<Longrightarrow> r = Success (Some b) \<Longrightarrow>
     body_status b \<notin> {''ok'', ''warn'', ''loading'', ''idle''}"
  by (auto simp: parse_status_def split: if_splits)

section \<open>Properties\<close>

text \<open>A polling round over distinct upstreams, its replies arriving in any order: every
  upstream whose task finished shows the status, queue depth and live workers of its own
  reply and is marked as seen now; its address, pool and cooldown stay.\<close>
lemma poll_round_applied:
  assumes "distinct (map fst ts)" and "(addr u, Joined r) \<in> set ts" and "u \<in> set p"
  shows "u\<lparr>status := pr_status (poll_one (addr u) r),
          queue_depth := pr_queue_depth (poll_one (addr u) r),
          live_workers := pr_live_workers (poll_one (addr u) r), last_seen := now\<rparr>
     \<in> set (update_pool p (poll_concurrent ts) now)"
proof -
  have "r' = r" if "(addr u, Joined r') \<in> set ts" for r'
    using eq_key_imp_eq_value[OF assms(1) that assms(2)] by simp
  from apply_result_answered[OF assms(2) this] assms(3) show ?thesis
    unfolding update_pool_def by (metis (no_types, lifting) image_eqI set_map)
qed

lemma poll_round_applied_witness:
  "demo_upstream demo_addr Gpu 1\<lparr>status := Fail, queue_depth := 0, live_workers := 0, last_seen := 9\<rparr>
     \<in> set (update_pool (gpu demo_snapshot)
         (poll_concurrent [(demo_addr2, JoinError), (demo_addr, Joined SendError)]) 9)"
proof -
  have "distinct (map fst [(demo_addr2, JoinError), (demo_addr, Joined SendError)])"
    "(addr (demo_upstream demo_addr Gpu 1), Joined SendError)
       \<in> set [(demo_addr2, JoinError), (demo_addr, Joined SendError)]"
    "demo_upstream demo_addr Gpu 1 \<in> set (gpu demo_snapshot)"
    by (simp_all add: demo_addr_def demo_addr2_def demo_upstream_def demo_snapshot_def)
  from poll_round_applied[OF this, of 9] show ?thesis by simp
qed

text \<open>A polling round adds and removes no upstream, and neither starts, ends nor moves a
  cooldown.\<close>
lemma poll_round_frame:
  "addrs_of (upstreams (apply_updates s rs now)) = addrs_of (upstreams s) \<and>
   map pool_type (upstreams (apply_updates s rs now)) = map pool_type (upstreams s) \<and>
   map cooldown_until (upstreams (apply_updates s rs now)) = map cooldown_until (upstreams s)"
  by (simp add: update_pool_def comp_def)

text \<open>An upstream becomes routable by a poll only through a 2xx reply whose body decodes:
  status \<open>Ok\<close> needs the text ok or warn, status \<open>Loading\<close> loading or idle; no reply at all
  and a non-2xx reply both give \<open>Fail\<close>.\<close>
lemma poll_status_meaning:
  "(pr_status (poll_one a r) = Ok \<longleftrightarrow> (\<exists>b. r = Success (Some b) \<and> body_status b \<in> {''ok'', ''warn''})) \<and>
   (pr_status (poll_one a r) = Loading \<longleftrightarrow> (\<exists>b. r = Success (Some b) \<and> body_status b \<in> {''loading'', ''idle''})) \<and>
   pr_status (poll_one a SendError) = Fail \<and> pr_status (poll_one a (NonSuccess code)) = Fail"
  using poll_one_status[of a r] by simp

end
