(* ===== verification/Schedule.thy ===== *)
theory Schedule
  imports Prelude
begin

text \<open>
  \<open>tokio::time::interval\<close> with \<open>MissedTickBehavior::Skip\<close>, as the background loops of
  \<open>src/metrics.rs\<close> and \<open>src/upstream/health.rs\<close> use it. The timer is documented as: a zero
  period panics; the first tick is due at once, the others at multiples of the period; a
  \<open>tick\<close> that is awaited too late completes at once, and the next one is due at the next
  multiple of the period, the missed ones being skipped.
\<close>

record ticker =
  tk_period :: duration
  tk_due :: instant

definition interval :: "duration \<Rightarrow> instant \<Rightarrow> ticker option" where
  "interval period start = (if period = 0 then None else Some \<lparr>tk_period = period, tk_due = start\<rparr>)"

text \<open>\<open>tick().await\<close> at \<open>now\<close>: when it completes, and the timer afterwards.\<close>

definition tick :: "ticker \<Rightarrow> instant \<Rightarrow> instant \<times> ticker" where
  "tick tk now =
     (let t = max now (tk_due tk)
      in (t, tk\<lparr>tk_due := tk_due tk + ((t - tk_due tk) div tk_period tk + 1) * tk_period tk\<rparr>))"

text \<open>
  \<open>loop { interval.tick().await; body }\<close> for bodies that take the given times: the start and
  the end of each turn.
\<close>

fun tick_loop :: "ticker \<Rightarrow> instant \<Rightarrow> (instant \<Rightarrow> duration) list \<Rightarrow> (instant \<times> instant) list" where
  "tick_loop tk now [] = []"
| "tick_loop tk now (body # bodies) =
     (let (t, tk') = tick tk now in (t, t + body t) # tick_loop tk' (t + body t) bodies)"

section \<open>Facts\<close>

lemma tick_loop_length [simp]: "length (tick_loop tk now bs) = length bs"
  by (induction tk now bs rule: tick_loop.induct) (simp_all add: split_beta Let_def)

lemma tick_period [simp]: "tk_period (snd (tick tk now)) = tk_period tk"
  by (simp add: tick_def Let_def)

lemma tick_bounds:
  assumes "0 < tk_period tk"
  shows "now \<le> fst (tick tk now)" and "tk_due tk \<le> fst (tick tk now)"
    and "fst (tick tk now) < tk_due (snd (tick tk now))"
    and "tk_due (snd (tick tk now)) \<le> fst (tick tk now) + tk_period tk"
proof -
  define t q m where "t = max now (tk_due tk)" and "q = (t - tk_due tk) div tk_period tk"
    and "m = (t - tk_due tk) mod tk_period tk"
  have sel: "fst (tick tk now) = t" "tk_due (snd (tick tk now)) = tk_due tk + q * tk_period tk + tk_period tk"
    by (simp_all add: tick_def Let_def t_def q_def)
  have "t - tk_due tk = q * tk_period tk + m" "tk_due tk \<le> t"
    by (simp_all add: q_def m_def t_def)
  then have "t = tk_due tk + q * tk_period tk + m" by linarith
  moreover have "m < tk_period tk" using assms by (simp add: m_def)
  ultimately show "fst (tick tk now) < tk_due (snd (tick tk now))"
    and "tk_due (snd (tick tk now)) \<le> fst (tick tk now) + tk_period tk"
    unfolding sel by linarith+
qed (simp_all add: tick_def Let_def)

text \<open>The first tick after the loop starts, for a loop that is not late.\<close>

lemma tick_on_time:
  assumes "now \<le> tk_due tk"
  shows "tick tk now = (tk_due tk, tk\<lparr>tk_due := tk_due tk + tk_period tk\<rparr>)"
  using assms by (simp add: tick_def Let_def max_def)

lemma tick_loop_start:
  assumes "bs \<noteq> []"
  shows "fst (tick_loop tk now bs ! 0) = fst (tick tk now)"
  using assms by (cases bs) (simp_all add: split_beta Let_def)

text \<open>Turns never overlap, and the next one starts a period after the last one or as soon as that ends.\<close>

lemma tick_loop_gap:
  "0 < tk_period tk \<Longrightarrow> Suc i < length bs \<Longrightarrow>
     snd (tick_loop tk now bs ! i) \<le> fst (tick_loop tk now bs ! Suc i) \<and>
     fst (tick_loop tk now bs ! Suc i) \<le>
       max (snd (tick_loop tk now bs ! i)) (fst (tick_loop tk now bs ! i) + tk_period tk)"
proof (induction tk now bs arbitrary: i rule: tick_loop.induct)
  case (2 tk now b bs)
  obtain t tk' where tk': "tick tk now = (t, tk')" by fastforce
  have tb: "tk_due tk' \<le> t + tk_period tk" "tk_period tk' = tk_period tk"
    using tick_bounds(4)[OF 2(2), of now] tick_period[of tk now] by (simp_all add: tk')
  show ?case
  proof (cases i)
    case 0
    then have "bs \<noteq> []" using 2(3) by auto
    then show ?thesis
      using tb by (simp add: 0 tk' tick_loop_start) (auto simp: tick_def Let_def)
  next
    case (Suc j)
    then show ?thesis using 2(1)[OF tk'[symmetric] refl, of j] 2(2,3) tb by (simp add: tk')
  qed
qed simp

lemma tick_loop_turn:
  "i < length bs \<Longrightarrow> snd (tick_loop tk now bs ! i) =
     fst (tick_loop tk now bs ! i) + (bs ! i) (fst (tick_loop tk now bs ! i))"
proof (induction tk now bs arbitrary: i rule: tick_loop.induct)
  case (2 tk now b bs)
  obtain t tk' where tk': "tick tk now = (t, tk')" by fastforce
  show ?case using 2(1)[OF tk'[symmetric] refl] 2(2) by (cases i) (simp_all add: tk')
qed simp

text \<open>Bodies that fit into the period: every turn starts on its multiple.\<close>

lemma tick_loop_exact:
  "now \<le> tk_due tk \<Longrightarrow> \<forall>b\<in>set bs. \<forall>t. b t \<le> tk_period tk \<Longrightarrow> i < length bs \<Longrightarrow>
     fst (tick_loop tk now bs ! i) = tk_due tk + i * tk_period tk"
proof (induction tk now bs arbitrary: i rule: tick_loop.induct)
  case (2 tk now b bs)
  note tk' = tick_on_time[OF 2(2)]
  show ?case
  proof (cases i)
    case (Suc j)
    then show ?thesis using 2(1)[OF tk'[symmetric] refl, of j] 2(3,4) by (simp add: tk')
  qed (simp add: tk')
qed simp

end
