(* ===== verification/Health_Loop.thy ===== *)
theory Health_Loop
  imports Health_Poll Config Schedule
begin

text \<open>
  \<open>src/upstream/health.rs\<close> in time: how long a \<open>GET /health\<close> takes under its timeout, when
  the tasks of a round have all been joined, and the instants of the rounds of \<open>run\<close>.
  \<open>RequestBuilder::timeout\<close> of the HTTP client is documented to run from the start of the
  connection until the body has been read, so it may strike before the head (the \<open>Err\<close>
  branch) or while \<open>json()\<close> reads the body (status \<open>Unknown\<close>).
\<close>

section \<open>One request\<close>

datatype response_head = HeadError | Head u16

text \<open>
  What an upstream does with a request if nobody gives up: the head after some time, then
  the body after some more (\<open>None\<close>: never).
\<close>

record exchange =
  ex_head :: "(duration \<times> response_head) option"
  ex_body :: "(duration \<times> bge_m_health_response option) option"

definition is_success :: "u16 \<Rightarrow> bool" where
  "is_success code \<longleftrightarrow> 200 \<le> code \<and> code < 300"

definition timed_reply :: "duration \<Rightarrow> exchange \<Rightarrow> duration \<times> poll_reply" where
  "timed_reply limit x =
     (case ex_head x of
        None \<Rightarrow> (limit, SendError)
      | Some (d, head) \<Rightarrow>
          if limit < d then (limit, SendError)
          else (case head of
                  HeadError \<Rightarrow> (d, SendError)
                | Head code \<Rightarrow>
                    if \<not> is_success code then (d, NonSuccess code)
                    else (case ex_body x of
                            None \<Rightarrow> (limit, Success None)
                          | Some (d', body) \<Rightarrow>
                              if limit < d + d' then (limit, Success None) else (d + d', Success body))))"

type_synonym health_net = "string \<Rightarrow> instant \<Rightarrow> exchange"

text \<open>One task of a round that starts at \<open>t\<close>: its duration and its reply.\<close>

definition poll_task ::
  "health_net \<Rightarrow> upstream_scheme \<Rightarrow> instant \<Rightarrow> socket_addr \<Rightarrow> duration \<times> poll_reply" where
  "poll_task net scheme t a =
     (let (url, limit) = poll_request scheme a in timed_reply limit (net url t))"

section \<open>One round\<close>

text \<open>The tasks in the order in which the join set yields them, and when the last one ends.\<close>

definition round_tasks ::
  "health_net \<Rightarrow> upstream_scheme \<Rightarrow> instant \<Rightarrow> pool_snapshot \<Rightarrow> (socket_addr \<times> duration \<times> poll_reply) list" where
  "round_tasks net scheme t loaded =
     sort_key (\<lambda>(a, d, r). d) (map (\<lambda>a. (a, poll_task net scheme t a)) (poll_targets loaded))"

definition joined :: "(socket_addr \<times> duration \<times> poll_reply) list \<Rightarrow> (socket_addr \<times> task_result) list" where
  "joined ts = map (\<lambda>(a, d, r). (a, Joined r)) ts"

definition round_time :: "(socket_addr \<times> duration \<times> poll_reply) list \<Rightarrow> duration" where
  "round_time ts = (if ts = [] then 0 else fst (snd (last ts)))"

text \<open>
  The first rounds of the loop, for the snapshots that they load: the start and the end of
  each round. \<open>None\<close> is the panic of \<open>tokio::time::interval\<close> for a zero period.
\<close>

definition health_run ::
  "config \<Rightarrow> health_net \<Rightarrow> instant \<Rightarrow> pool_snapshot list \<Rightarrow> (instant \<times> instant) list option" where
  "health_run c net start loads =
     map_option
       (\<lambda>tk. tick_loop tk start
          (map (\<lambda>loaded t. round_time (round_tasks net (upstream_scheme_of c) t loaded)) loads))
       (interval (health_poll c) start)"

section \<open>Facts\<close>

lemma timed_reply_bound: "fst (timed_reply limit x) \<le> limit"
  by (auto simp: timed_reply_def not_less split: option.split response_head.split)

text \<open>A usable answer was complete before the timeout.\<close>

lemma timed_reply_body:
  "snd (timed_reply limit x) = Success (Some b) \<longleftrightarrow>
     (\<exists>d1 d2 code. ex_head x = Some (d1, Head code) \<and> is_success code \<and>
        ex_body x = Some (d2, Some b) \<and> d1 + d2 \<le> limit)"
  by (auto simp: timed_reply_def not_less split: option.split response_head.split)

lemma poll_task_bound: "fst (poll_task net scheme t a) \<le> from_secs 4"
  by (simp add: poll_task_def poll_request_def timed_reply_bound)

lemma round_tasks_mem:
  "(a, d, r) \<in> set (round_tasks net scheme t loaded) \<longleftrightarrow>
     a \<in> set (poll_targets loaded) \<and> (d, r) = poll_task net scheme t a"
  by (auto simp: round_tasks_def)

lemma round_time_bound: "round_time (round_tasks net scheme t loaded) \<le> from_secs 4"
proof (cases "round_tasks net scheme t loaded = []")
  case False
  obtain a d r where l: "last (round_tasks net scheme t loaded) = (a, d, r)" by (cases "last (round_tasks net scheme t loaded)") auto
  then have "(a, d, r) \<in> set (round_tasks net scheme t loaded)" using False by (metis last_in_set)
  then have "d = fst (poll_task net scheme t a)" unfolding round_tasks_mem by (metis fst_conv)
  then show ?thesis using False l poll_task_bound by (simp add: round_time_def)
qed (simp add: round_time_def)

text \<open>No task is still running when the round ends.\<close>

lemma round_time_covers:
  assumes "(a, d, r) \<in> set (round_tasks net scheme t loaded)"
  shows "d \<le> round_time (round_tasks net scheme t loaded)"
proof -
  let ?ts = "round_tasks net scheme t loaded"
  have "sorted (map (\<lambda>(a, d, r). d) ?ts)" by (simp add: round_tasks_def)
  moreover obtain i where i: "i < length ?ts" "?ts ! i = (a, d, r)" using assms by (auto simp: in_set_conv_nth)
  ultimately have "(\<lambda>(a, d, r). d) (?ts ! i) \<le> (\<lambda>(a, d, r). d) (?ts ! (length ?ts - 1))"
    using sorted_nth_mono[of "map (\<lambda>(a, d, r). d) ?ts" i "length ?ts - 1"] by simp
  then show ?thesis using i
    by (auto simp: round_time_def last_conv_nth split_beta)
qed

lemma joined_finished: "finished_round loaded (joined (round_tasks net scheme t loaded))"
proof -
  have "map fst (joined ts) = map fst ts" for ts by (simp add: joined_def split_beta comp_def)
  then show ?thesis by (simp add: finished_round_def round_tasks_def image_mset.compositionality comp_def)
qed

text \<open>Where the rounds start and end.\<close>

lemma rounds_eq:
  assumes "health_run c net start loads = Some rounds"
  shows "0 < health_poll c \<and> rounds = tick_loop \<lparr>tk_period = health_poll c, tk_due = start\<rparr> start
     (map (\<lambda>loaded t. round_time (round_tasks net (upstream_scheme_of c) t loaded)) loads)"
  using assms by (auto simp: health_run_def interval_def split: if_splits)

lemma round_end:
  "health_run c net start loads = Some rounds \<Longrightarrow> i < length loads \<Longrightarrow>
     snd (rounds ! i) \<le> fst (rounds ! i) + from_secs 4"
  by (drule rounds_eq) (simp add: tick_loop_turn round_time_bound)

lemma rounds_gap:
  assumes "health_run c net start loads = Some rounds" and "Suc i < length loads"
  shows "snd (rounds ! i) \<le> fst (rounds ! Suc i) \<and>
    fst (rounds ! Suc i) \<le> fst (rounds ! i) + max (health_poll c) (from_secs 4)"
proof -
  have "snd (rounds ! i) \<le> fst (rounds ! Suc i) \<and>
      fst (rounds ! Suc i) \<le> max (snd (rounds ! i)) (fst (rounds ! i) + health_poll c)"
    using rounds_eq[OF assms(1)] tick_loop_gap[of "\<lparr>tk_period = health_poll c, tk_due = start\<rparr>" i _ start] assms(2)
    by simp
  then show ?thesis using round_end[OF assms(1), of i] assms(2) by (auto simp: max_def split: if_splits)
qed

lemma rounds_exact:
  assumes "health_run c net start loads = Some rounds" and "i < length loads" and "from_secs 4 \<le> health_poll c"
  shows "fst (rounds ! i) = start + i * health_poll c"
proof -
  let ?tk = "\<lparr>tk_period = health_poll c, tk_due = start\<rparr>"
  let ?bs = "map (\<lambda>loaded t. round_time (round_tasks net (upstream_scheme_of c) t loaded)) loads"
  have "\<forall>b\<in>set ?bs. \<forall>t. b t \<le> tk_period ?tk"
    using assms(3) by (auto intro: order_trans[OF round_time_bound])
  from tick_loop_exact[of start ?tk ?bs i, OF _ this] show ?thesis
    using assms(2) rounds_eq[OF assms(1)] by simp
qed

section \<open>Properties\<close>

text \<open>C22: a polling round takes at most the four seconds of its timeout, whatever the upstreams
  do; rounds never overlap, the next one starts no later than the larger of the polling
  interval and four seconds after the last one, and with an interval of at least four seconds
  (the default is five) no round is ever late or skipped.\<close>
theorem polling_on_time:
  assumes "health_run c net start loads = Some rounds" and "i < length loads"
  shows "snd (rounds ! i) \<le> fst (rounds ! i) + from_secs 4 \<and>
    (Suc i < length loads \<longrightarrow>
       snd (rounds ! i) \<le> fst (rounds ! Suc i) \<and>
       fst (rounds ! Suc i) \<le> fst (rounds ! i) + max (health_poll c) (from_secs 4)) \<and>
    (from_secs 4 \<le> health_poll c \<longrightarrow> fst (rounds ! i) = start + i * health_poll c)"
proof -
  note round_end[OF assms] rounds_gap[OF assms(1), of i] rounds_exact[OF assms]
  then show ?thesis by blast
qed

lemma polling_on_time_witness:
  "fst (the (health_run default_config (\<lambda>_ _. \<lparr>ex_head = None, ex_body = None\<rparr>) 0
     [demo_snapshot, demo_snapshot]) ! 1) = from_secs 5"
proof -
  let ?net = "\<lambda>_ _. \<lparr>ex_head = None, ex_body = None\<rparr>"
  obtain rounds where r: "health_run default_config ?net 0 [demo_snapshot, demo_snapshot] = Some rounds"
    by (simp add: health_run_def interval_def default_config_def from_secs_def time_defs)
  have "health_poll default_config = from_secs 5" by (simp add: default_config_def)
  with polling_on_time[OF r, of 1] have "fst (rounds ! 1) = from_secs 5"
    by (simp add: from_secs_def)
  then show ?thesis unfolding r by simp
qed

text \<open>C23: a round reports an upstream as usable (\<open>Ok\<close> or \<open>Loading\<close>) exactly when a complete 2xx
  answer with such a status arrived within four seconds; a late head is \<open>Fail\<close>.\<close>
theorem usable_needs_timely_answer:
  assumes "(a, Joined r) \<in> set (joined (round_tasks net scheme t loaded))"
  shows "(pr_status (poll_one a r) \<in> {Ok, Loading} \<longleftrightarrow>
      (\<exists>d1 d2 code b. ex_head (net (health_url scheme a) t) = Some (d1, Head code) \<and> is_success code \<and>
         ex_body (net (health_url scheme a) t) = Some (d2, Some b) \<and> d1 + d2 \<le> from_secs 4 \<and>
         body_status b \<in> {''ok'', ''warn'', ''loading'', ''idle''})) \<and>
    ((case ex_head (net (health_url scheme a) t) of None \<Rightarrow> True | Some (d1, h) \<Rightarrow> from_secs 4 < d1) \<longrightarrow>
       pr_status (poll_one a r) = Fail)"
proof -
  obtain d where "(a, d, r) \<in> set (round_tasks net scheme t loaded)"
    using assms by (auto simp: joined_def)
  then have r: "timed_reply (from_secs 4) (net (health_url scheme a) t) = (d, r)"
    by (simp add: round_tasks_mem poll_task_def poll_request_def)
  have "pr_status (poll_one a r) \<in> {Ok, Loading} \<longleftrightarrow>
      (\<exists>b. r = Success (Some b) \<and> body_status b \<in> {''ok'', ''warn'', ''loading'', ''idle''})"
    using poll_one_status[of a r] by auto
  moreover have "r = Success (Some b) \<longleftrightarrow> (\<exists>d1 d2 code. ex_head (net (health_url scheme a) t) = Some (d1, Head code) \<and>
      is_success code \<and> ex_body (net (health_url scheme a) t) = Some (d2, Some b) \<and> d1 + d2 \<le> from_secs 4)" for b
    using timed_reply_body[of "from_secs 4" "net (health_url scheme a) t" b] unfolding r snd_conv .
  moreover have "pr_status (poll_one a r) = Fail"
    if "case ex_head (net (health_url scheme a) t) of None \<Rightarrow> True | Some (d1, h) \<Rightarrow> from_secs 4 < d1"
    using that r by (auto simp: timed_reply_def split: option.splits)
  ultimately show ?thesis by blast
qed

lemma usable_needs_timely_answer_witness:
  "pr_status (poll_one demo_addr
     (Success (Some \<lparr>body_status = ''idle'', body_workers = None, body_queue_depth = None\<rparr>))) \<in> {Ok, Loading}"
proof -
  let ?b = "\<lparr>body_status = ''idle'', body_workers = None, body_queue_depth = None\<rparr>"
  let ?net = "\<lambda>_ _. \<lparr>ex_head = Some (1000, Head 200), ex_body = Some (1000, Some ?b)\<rparr>"
  let ?s = "\<lparr>gpu = [demo_upstream demo_addr Gpu 0], cpu = [], updated_at = 0\<rparr>"
  have limit: "1000 \<le> from_secs 4" "2000 \<le> from_secs 4" by (simp_all add: from_secs_def nanos_per_sec_def)
  have "timed_reply (from_secs 4) (?net u t) = (2000, Success (Some ?b))" for u t
    using limit by (simp add: timed_reply_def is_success_def)
  then have "(demo_addr, Joined (Success (Some ?b))) \<in> set (joined (round_tasks ?net Http 0 ?s))"
    by (simp add: joined_def round_tasks_def poll_targets_def poll_task_def poll_request_def demo_upstream_def)
  from usable_needs_timely_answer[OF this] limit show ?thesis by (simp add: is_success_def)
qed

end
