(* ===== verification/Metrics.thy ===== *)
theory Metrics
  imports Health_Loop
begin

text \<open>
  \<open>src/metrics.rs\<close>: the heartbeat event and its loop.
  The sums are \<open>u32\<close> sums of a release build: they wrap.
\<close>

record heartbeat_event =
  hb_gpu_upstreams :: nat
  hb_cpu_upstreams :: nat
  hb_gpu_ok :: nat
  hb_cpu_ok :: nat
  hb_gpu_queue_sum :: u32
  hb_cpu_queue_sum :: u32

definition queue_sum :: "pool \<Rightarrow> u32" where
  "queue_sum p = sum_list (map queue_depth p)"

definition ok_count :: "pool \<Rightarrow> nat" where
  "ok_count p = length (filter (\<lambda>u. status u = Ok) p)"

definition emit_heartbeat :: "pool_snapshot \<Rightarrow> heartbeat_event" where
  "emit_heartbeat s =
     \<lparr>hb_gpu_upstreams = length (gpu s), hb_cpu_upstreams = length (cpu s),
      hb_gpu_ok = ok_count (gpu s), hb_cpu_ok = ok_count (cpu s),
      hb_gpu_queue_sum = queue_sum (gpu s), hb_cpu_queue_sum = queue_sum (cpu s)\<rparr>"

section \<open>The heartbeat loop\<close>

text \<open>
  The instants of the first \<open>n\<close> heartbeats of \<open>run\<close>: the first tick, due at once, is skipped;
  emitting a heartbeat takes no time. \<open>None\<close> is the panic for a zero period.
\<close>

definition metrics_run :: "config \<Rightarrow> instant \<Rightarrow> nat \<Rightarrow> instant list option" where
  "metrics_run c start n =
     map_option (\<lambda>tk. let (t, tk') = tick tk start in map fst (tick_loop tk' t (replicate n (\<lambda>_. 0))))
       (interval (heartbeat c) start)"

definition metrics_spawn :: "config \<Rightarrow> instant \<Rightarrow> nat \<Rightarrow> instant list option" where
  "metrics_spawn c start n = (if heartbeat c = 0 then Some [] else metrics_run c start n)"

section \<open>Facts\<close>

lemma queue_sum_unat: "unat (queue_sum p) = (\<Sum>u\<leftarrow>p. unat (queue_depth u)) mod 2 ^ 32"
proof (induction p)
  case (Cons u p)
  then show ?case by (simp add: queue_sum_def unat_word_ariths mod_simps)
qed (simp add: queue_sum_def)

text \<open>Heartbeats come at the multiples of the interval, the first one after one interval.\<close>

lemma metrics_run_beats:
  assumes "heartbeat c \<noteq> 0"
  shows "metrics_run c start n = Some (map (\<lambda>k. start + Suc k * heartbeat c) [0..<n])"
proof -
  let ?tk = "\<lparr>tk_period = heartbeat c, tk_due = start + heartbeat c\<rparr>"
  have "map fst (tick_loop ?tk start (replicate n (\<lambda>_. 0))) = map (\<lambda>k. start + Suc k * heartbeat c) [0..<n]"
    by (rule nth_equalityI) (simp_all add: tick_loop_exact)
  then show ?thesis
    using assms tick_on_time[of start "\<lparr>tk_period = heartbeat c, tk_due = start\<rparr>"]
    by (simp add: metrics_run_def interval_def)
qed

section \<open>Properties\<close>

text \<open>The heartbeat reports the sizes, the numbers of \<open>Ok\<close> upstreams, and the queue depth
  sums modulo 2 to the 32.\<close>
lemma heartbeat_values:
  "hb_gpu_upstreams (emit_heartbeat s) = length (gpu s) \<and>
   hb_gpu_ok (emit_heartbeat s) + hb_cpu_ok (emit_heartbeat s) =
     length (filter (\<lambda>u. status u = Ok) (upstreams s)) \<and>
   unat (hb_gpu_queue_sum (emit_heartbeat s)) = (\<Sum>u\<leftarrow>gpu s. unat (queue_depth u)) mod 2 ^ 32 \<and>
   unat (hb_cpu_queue_sum (emit_heartbeat s)) = (\<Sum>u\<leftarrow>cpu s. unat (queue_depth u)) mod 2 ^ 32"
  by (simp add: emit_heartbeat_def ok_count_def queue_sum_unat)

text \<open>C40: a zero heartbeat interval disables the heartbeat, which never panics; a zero polling
  interval is accepted by the configuration but panics in the polling task.\<close>
theorem zero_intervals:
  "metrics_spawn c start n \<noteq> None \<and>
   metrics_spawn (c\<lparr>heartbeat := 0\<rparr>) start n = Some [] \<and>
   (\<exists>c'. from_lookup (\<lambda>key. if key = ''BGE_ROUTER_HEALTH_POLL_SECS'' then Some ''0'' else None) = Inr c' \<and>
      health_run c' net start loads = None)"
proof -
  have zero: "str_parse_u64 ''0'' = Some 0" by (simp add: digit_val_def)
  have "\<exists>c'. from_lookup (\<lambda>key. if key = ''BGE_ROUTER_HEALTH_POLL_SECS'' then Some ''0'' else None) = Inr c' \<and>
      health_poll c' = 0"
    by (simp add: from_lookup_def parse_u64_def parse_optional_u64_def default_defs unwrap_or_def
        u32_try_from_def max_retry_count_def bail_if_def tls_enabled_def Let_def zero
        del: str_parse_u64.simps) (simp add: from_secs_def)
  then show ?thesis
    by (auto simp: metrics_spawn_def metrics_run_def health_run_def interval_def)
qed

end
