(* ===== verification/Logging.thy ===== *)
theory Logging
  imports Prelude
begin

text \<open>
  \<open>src/logging.rs\<close>: the wrapper that puts a \<open>bge_module\<close> key at the front of every JSON
  log line, and the choice of the log format. The inner formatter of \<open>tracing\<close> is not part
  of the sources: it is an argument that renders an event or fails.
\<close>

definition bge_module :: string where
  "bge_module = ''router''"

definition quote_char :: char where
  "quote_char = CHR 0x22"

definition newline :: char where
  "newline = CHR 0x0A"

fun strip_prefix :: "char \<Rightarrow> string \<Rightarrow> string option" where
  "strip_prefix c [] = None"
| "strip_prefix c (x # xs) = (if x = c then Some xs else None)"

definition ends_with_newline :: "string \<Rightarrow> bool" where
  "ends_with_newline buf \<longleftrightarrow> buf \<noteq> [] \<and> last buf = newline"

text \<open>The key and its value as they are written: \<open>"bge_module":"router"\<close>.\<close>

definition module_field :: string where
  "module_field =
     [quote_char] @ ''bge_module'' @ [quote_char] @ '':'' @ [quote_char] @ bge_module @ [quote_char]"

text \<open>What \<open>format_event\<close> writes when the inner formatter has rendered \<open>buf\<close>.\<close>

definition rewrite_line :: "string \<Rightarrow> string" where
  "rewrite_line buf =
     (let trailing_newline = ends_with_newline buf;
          body = (if trailing_newline then butlast buf else buf);
          out =
            (case strip_prefix CHR ''{'' body of
               Some rest \<Rightarrow>
                 (case strip_prefix CHR ''}'' rest of
                    Some rest' \<Rightarrow> ''{'' @ module_field @ ''}'' @ rest'
                  | None \<Rightarrow> ''{'' @ module_field @ '','' @ rest)
             | None \<Rightarrow> body)
      in if trailing_newline then out @ [newline] else out)"

text \<open>The wrapper, with the inner formatter as a function from events to lines.\<close>

record 'ev prepend_module =
  inner :: "'ev \<Rightarrow> string option"

definition prepend_module_new :: "('ev \<Rightarrow> string option) \<Rightarrow> 'ev prepend_module" where
  "prepend_module_new f = \<lparr>inner = f\<rparr>"

text \<open>An error of the inner formatter is returned before anything is written.\<close>

definition format_event :: "'ev prepend_module \<Rightarrow> 'ev \<Rightarrow> string option" where
  "format_event self ev = map_option rewrite_line (inner self ev)"

definition want_json :: "string option \<Rightarrow> bool \<Rightarrow> bool" where
  "want_json log_format stdout_is_terminal =
     (if log_format = Some ''text'' \<or> log_format = Some ''pretty'' then False
      else if log_format = Some ''json'' then True
      else \<not> stdout_is_terminal)"

text \<open>
  The global subscriber: its filter directive, and whether it writes JSON through the wrapper.
\<close>

record subscriber =
  sub_filter :: string
  sub_json :: bool

text \<open>
  \<open>valid_filter\<close> is the parser of the filter library: an unset or invalid \<open>RUST_LOG\<close> gives
  \<open>info\<close>. \<open>try_init\<close> fails, and the failure is ignored, when a subscriber is installed already.
\<close>

definition init ::
  "(string \<Rightarrow> bool) \<Rightarrow> string option \<Rightarrow> string option \<Rightarrow> bool \<Rightarrow> subscriber option \<Rightarrow> subscriber option"
where
  "init valid_filter rust_log log_format stdout_is_terminal installed =
     (let env_filter =
            (case rust_log of
               Some f \<Rightarrow> if valid_filter f then f else ''info''
             | None \<Rightarrow> ''info'');
          sub = \<lparr>sub_filter = env_filter, sub_json = want_json log_format stdout_is_terminal\<rparr>
      in if installed = None then Some sub else installed)"

text \<open>Initializing twice is harmless.\<close>

lemma init_twice:
  "init v r f t (init v' r' f' t' installed) = init v' r' f' t' installed"
  by (simp add: init_def Let_def)

section \<open>Facts\<close>

lemma ends_with_newline_snoc [simp]: "ends_with_newline (xs @ [newline])"
  by (simp add: ends_with_newline_def)

text \<open>The body of a line without its trailing newline, and the newline if there is one.\<close>

definition line_body :: "string \<Rightarrow> string" where
  "line_body buf = (if ends_with_newline buf then butlast buf else buf)"

definition line_end :: "string \<Rightarrow> string" where
  "line_end buf = (if ends_with_newline buf then [newline] else [])"

lemma line_split: "line_body buf @ line_end buf = buf"
  by (simp add: line_body_def line_end_def ends_with_newline_def) (metis append_butlast_last_id)

lemma rewrite_line_eq:
  "rewrite_line buf =
     (case strip_prefix CHR ''{'' (line_body buf) of
        Some rest \<Rightarrow>
          (case strip_prefix CHR ''}'' rest of
             Some rest' \<Rightarrow> ''{'' @ module_field @ ''}'' @ rest'
           | None \<Rightarrow> ''{'' @ module_field @ '','' @ rest)
      | None \<Rightarrow> line_body buf) @ line_end buf"
  by (simp add: rewrite_line_def line_body_def line_end_def Let_def split: option.split)

lemma strip_prefix_iff: "strip_prefix c s = Some r \<longleftrightarrow> s = c # r"
  by (cases s) auto

text \<open>The reader of the wrapped lines: it drops the module key again.\<close>

fun strip_text :: "string \<Rightarrow> string \<Rightarrow> string option" where
  "strip_text [] s = Some s"
| "strip_text (p # ps) [] = None"
| "strip_text (p # ps) (c # cs) = (if p = c then strip_text ps cs else None)"

lemma strip_text_append [simp]: "strip_text p (p @ s) = Some s"
  by (induction p) simp_all

definition strip_module :: "string \<Rightarrow> string" where
  "strip_module line =
     (case strip_text (''{'' @ module_field) line of
        Some (CHR '','' # rest) \<Rightarrow> ''{'' @ rest
      | Some (CHR ''}'' # rest) \<Rightarrow> ''{}'' @ rest
      | _ \<Rightarrow> line)"

lemma strip_module_simps:
  "strip_module (''{'' @ module_field @ '','' @ rest) = ''{'' @ rest"
  "strip_module (''{'' @ module_field @ ''}'' @ rest) = ''{}'' @ rest"
  using strip_text_append[of "''{'' @ module_field"] by (simp_all add: strip_module_def)

lemma strip_module_other: "strip_prefix CHR ''{'' line = None \<Longrightarrow> strip_module line = line"
  by (cases line) (auto simp: strip_module_def)

section \<open>Properties\<close>

text \<open>C36: no log line is corrupted: from what the wrapper writes, dropping the module key gives
  back exactly the line the inner formatter rendered, JSON object or not, with or without a
  trailing newline.\<close>
theorem log_line_roundtrip: "strip_module (rewrite_line buf) = buf"
proof (cases "strip_prefix CHR ''{'' (line_body buf)")
  case None
  have "strip_prefix CHR ''{'' (line_body buf @ line_end buf) = None"
    using None by (cases "line_body buf") (auto simp: line_end_def newline_def split: if_splits)
  then show ?thesis using None by (simp add: rewrite_line_eq line_split strip_module_other)
next
  case (Some rest)
  then have buf: "buf = ''{'' @ rest @ line_end buf"
    using line_split[of buf] by (simp add: strip_prefix_iff)
  show ?thesis
  proof (cases "strip_prefix CHR ''}'' rest")
    case None
    with Some have "rewrite_line buf = ''{'' @ module_field @ '','' @ (rest @ line_end buf)"
      by (simp add: rewrite_line_eq)
    then show ?thesis using buf by (simp only: strip_module_simps)
  next
    case (Some rest')
    then have rest: "rest = ''}'' @ rest'" by (simp add: strip_prefix_iff)
    with \<open>strip_prefix CHR ''{'' (line_body buf) = Some rest\<close>
    have "rewrite_line buf = ''{'' @ module_field @ ''}'' @ (rest' @ line_end buf)"
      by (simp add: rewrite_line_eq)
    then show ?thesis using buf rest strip_module_simps(2)[of "rest' @ line_end buf"] by simp
  qed
qed

text \<open>A rendered JSON object gets the module key as its first key: \<open>{}\<close> becomes an object
  with this key only, any other object keeps all of its text after the key and a comma, the
  trailing newline stays, and a line that is no object is passed through unchanged.\<close>
lemma module_key_prepended:
  "rewrite_line (''{}'' @ rest) =
     (''{'' @ module_field @ ''}'' @ rest) \<and>
   rewrite_line (''{'' @ [quote_char] @ rest) = ''{'' @ module_field @ '','' @ [quote_char] @ rest \<and>
   (strip_prefix CHR ''{'' (line_body buf) = None \<longleftrightarrow> rewrite_line buf = buf)"
proof (intro conjI)
  have q: "quote_char \<noteq> CHR ''}''" "newline \<noteq> CHR ''}''" "newline \<noteq> CHR ''{''" "quote_char \<noteq> newline"
    by (simp_all add: quote_char_def newline_def)
  have le: "line_body (c # d # r) = c # d # line_body r \<and> line_end (c # d # r) = line_end r"
    if "d \<noteq> newline" for c d r
    using that by (auto simp: line_body_def line_end_def ends_with_newline_def)
  show "rewrite_line (''{}'' @ rest) = ''{'' @ module_field @ ''}'' @ rest"
    using le[of "CHR ''}''" "CHR ''{''" rest] line_split[of rest] q by (simp add: rewrite_line_eq)
  show "rewrite_line (''{'' @ [quote_char] @ rest) = ''{'' @ module_field @ '','' @ [quote_char] @ rest"
    using le[of quote_char "CHR ''{''" rest] line_split[of rest] q by (simp add: rewrite_line_eq)
  show "strip_prefix CHR ''{'' (line_body buf) = None \<longleftrightarrow> rewrite_line buf = buf"
  proof
    assume "strip_prefix CHR ''{'' (line_body buf) = None"
    then show "rewrite_line buf = buf" by (simp add: rewrite_line_eq line_split)
  next
    assume eq: "rewrite_line buf = buf"
    show "strip_prefix CHR ''{'' (line_body buf) = None"
    proof (rule ccontr)
      assume "strip_prefix CHR ''{'' (line_body buf) \<noteq> None"
      then have "length (line_body buf @ line_end buf) < length (rewrite_line buf)"
        by (auto simp: rewrite_line_eq strip_prefix_iff module_field_def split: option.split)
      then show False unfolding eq line_split by simp
    qed
  qed
qed

end
