(* ===== verification/Startup.thy ===== *)
theory Startup
  imports Handlers Metrics Logging
begin

text \<open>
  Start-up: \<open>src/state.rs\<close> (the application state), \<open>src/lib.rs\<close> (\<open>run\<close>),
  \<open>src/bootstrap/server.rs\<close> (\<open>serve\<close>) and \<open>src/main.rs\<close>. Files, certificates, the TLS
  acceptor, sockets and the server loops are not part of the sources: they are the fields of
  \<open>platform\<close>. An error made with \<open>with_context\<close> or \<open>anyhow!\<close> is its text and source.
\<close>

section \<open>The platform\<close>

record client_setup =
  cs_pool_max_idle :: nat
  cs_root_certificate :: "string option"
  cs_accept_invalid_hostnames :: bool

text \<open>The signals of the operating system that the documentation names.\<close>

datatype os_signal = Sigint | Sigterm

record ('client, 'tls, 'listener) platform =
  read_file :: "string \<Rightarrow> ext_error + string"
  certificate_from_pem :: "string \<Rightarrow> ext_error + string"
  build_client :: "client_setup \<Rightarrow> ext_error + 'client"
  rustls_from_pem_file :: "string \<Rightarrow> string \<Rightarrow> ext_error + 'tls"
  parse_bind :: "string \<Rightarrow> ext_error + socket_addr"
  tcp_bind :: "string \<Rightarrow> ext_error + 'listener"
  serve_tls :: "socket_addr \<Rightarrow> 'tls \<Rightarrow> (instant \<times> duration) option \<Rightarrow> ext_error + unit"
    \<comment> \<open>the last argument: when the handle is told to shut down, and the drain limit\<close>
  serve_plain :: "'listener \<Rightarrow> instant option \<Rightarrow> ext_error + unit"
    \<comment> \<open>the last argument: when the graceful-shutdown future completes\<close>
  installs_ctrl_c :: bool
  signals :: "(instant \<times> os_signal) list"
    \<comment> \<open>the signals sent to the process, in time order\<close>

datatype boot_event =
    Starting config u64 u64 u64 u64
  | LegacyBudgetDeprecated u64
  | HostnameCheckDisabled
  | CaBundleWithoutTls
  | SpawnDiscovery
  | SpawnHealth
  | SpawnMetrics
  | Ready string string
  | ShutdownReceived
  | TlsDraining

section \<open>The application state\<close>

record 'client app_state =
  st_pool :: pool_snapshot
  st_config :: config
  st_client :: 'client

definition with_context :: "string \<Rightarrow> ext_error + 'a \<Rightarrow> ext_error + 'a" where
  "with_context msg x = (case x of Inl e \<Rightarrow> Inl (ExtError msg (Some e)) | Inr v \<Rightarrow> Inr v)"

text \<open>The settings of the HTTP client, and the warning that goes with a CA bundle.\<close>

definition client_setup_for ::
  "('client, 'tls, 'l) platform \<Rightarrow> config \<Rightarrow> ext_error + (client_setup \<times> boot_event list)" where
  "client_setup_for P c =
     (case upstream_ca_bundle c of
        None \<Rightarrow>
          Inr (\<lparr>cs_pool_max_idle = 32, cs_root_certificate = None, cs_accept_invalid_hostnames = False\<rparr>, [])
      | Some path \<Rightarrow>
          and_then (with_context (''reading upstream CA bundle from '' @ path) (read_file P path)) (\<lambda>pem.
          and_then (with_context ''upstream CA bundle is not valid PEM'' (certificate_from_pem P pem)) (\<lambda>cert.
          Inr (\<lparr>cs_pool_max_idle = 32, cs_root_certificate = Some cert,
                cs_accept_invalid_hostnames = True\<rparr>, [HostnameCheckDisabled]))))"

definition app_state_new ::
  "('client, 'tls, 'l) platform \<Rightarrow> config \<Rightarrow> instant \<Rightarrow> boot_event list \<times> (ext_error + 'client app_state)"
where
  "app_state_new P c now =
     (case client_setup_for P c of
        Inl e \<Rightarrow> ([], Inl e)
      | Inr (setup, warnings) \<Rightarrow>
          (warnings,
           and_then (with_context ''building reqwest::Client'' (build_client P setup)) (\<lambda>client.
           Inr \<lparr>st_pool = default_snapshot now, st_config = c, st_client = client\<rparr>)))"

definition state_upstream_scheme :: "'client app_state \<Rightarrow> upstream_scheme" where
  "state_upstream_scheme st = upstream_scheme_of (st_config st)"

definition state_retry_config :: "'client app_state \<Rightarrow> retry_config" where
  "state_retry_config st = retry_config_of (st_config st)"

section \<open>Serving\<close>

definition drain_limit :: duration where
  "drain_limit = from_secs 30"

text \<open>\<open>tokio::signal::ctrl_c\<close> completes at the first SIGINT after it is awaited.\<close>

definition ctrl_c :: "('client, 'tls, 'l) platform \<Rightarrow> instant \<Rightarrow> instant option" where
  "ctrl_c P now = map_option fst (find (\<lambda>(s, g). g = Sigint \<and> now \<le> s) (signals P))"

text \<open>When the signal comes, if ever, and the log event; \<open>None\<close> is the panic of \<open>expect\<close>.\<close>

definition shutdown_signal ::
  "('client, 'tls, 'l) platform \<Rightarrow> instant \<Rightarrow> (instant option \<times> boot_event list) option" where
  "shutdown_signal P now =
     (if \<not> installs_ctrl_c P then None
      else Some (ctrl_c P now, if ctrl_c P now = None then [] else [ShutdownReceived]))"

text \<open>
  \<open>tls\<close> is the cargo feature; without both paths the listener is a plain one. The result is
  \<open>None\<close> when the process aborts.
\<close>

definition serve ::
  "bool \<Rightarrow> ('client, 'tls, 'l) platform \<Rightarrow> 'client app_state \<Rightarrow> instant \<Rightarrow>
     boot_event list \<times> (ext_error + unit) option" where
  "serve tls P st now =
     (let bind = bind_addr (st_config st)
      in case (if tls then (tls_cert_path (st_config st), tls_key_path (st_config st)) else (None, None)) of
           (Some cert, Some key) \<Rightarrow>
             (case rustls_from_pem_file P cert key of
                Inl e \<Rightarrow> ([], Some (Inl (ExtError (''TLS config error: '' @ err_text e) None)))
              | Inr tls_config \<Rightarrow>
                  (case parse_bind P bind of
                     Inl e \<Rightarrow>
                       ([], Some (Inl (ExtError (''invalid bind addr '' @ [CHR 0x27] @ bind @ [CHR 0x27] @ '': '' @ err_text e) None)))
                   | Inr a \<Rightarrow>
                       (case shutdown_signal P now of
                          None \<Rightarrow> ([Ready bind ''tls''], None)
                        | Some (at, logs) \<Rightarrow>
                            ([Ready bind ''tls''] @ logs @ (if at = None then [] else [TlsDraining]),
                             Some (serve_tls P a tls_config (map_option (\<lambda>s. (s, drain_limit)) at))))))
         | _ \<Rightarrow>
             (case tcp_bind P bind of
                Inl e \<Rightarrow> ([], Some (Inl (ExtError (''failed to bind '' @ bind @ '': '' @ err_text e) None)))
              | Inr listener \<Rightarrow>
                  (case shutdown_signal P now of
                     None \<Rightarrow> ([Ready bind ''plain''], None)
                   | Some (at, logs) \<Rightarrow>
                       ([Ready bind ''plain''] @ logs, Some (serve_plain P listener at)))))"

section \<open>The start of the process\<close>

definition starting_log :: "config \<Rightarrow> boot_event list" where
  "starting_log c =
     Starting c (ms (hedge_delay c)) (ms (control_timeout c)) (ms (retry_initial_backoff c))
       (ms (retry_max_backoff c)) #
     (if legacy_fallback_budget_set c then [LegacyBudgetDeprecated (ms (hedge_delay c))] else [])"

definition run ::
  "bool \<Rightarrow> ('client, 'tls, 'l) platform \<Rightarrow> lookup \<Rightarrow> instant \<Rightarrow>
     boot_event list \<times> (ext_error + unit) option" where
  "run tls P env now =
     (case from_env env of
        Inl msg \<Rightarrow> ([], Some (Inl (ExtError msg None)))
      | Inr c \<Rightarrow>
          (case app_state_new P c now of
             (warnings, Inl e) \<Rightarrow> (starting_log c @ warnings, Some (Inl e))
           | (warnings, Inr st) \<Rightarrow>
               (let (served, result) = serve tls P st now
                in (starting_log c @ warnings @
                    (if upstream_ca_bundle c \<noteq> None \<and> \<not> upstream_tls c then [CaBundleWithoutTls] else []) @
                    [SpawnDiscovery, SpawnHealth, SpawnMetrics] @ served,
                    result))))"

text \<open>The process: logging first, then \<open>run\<close>.\<close>

definition main_fn ::
  "bool \<Rightarrow> ('client, 'tls, 'l) platform \<Rightarrow> (string \<Rightarrow> bool) \<Rightarrow> lookup \<Rightarrow> bool \<Rightarrow> instant \<Rightarrow>
     subscriber option \<times> boot_event list \<times> (ext_error + unit) option" where
  "main_fn tls P valid_filter env tty now =
     (init valid_filter (env ''RUST_LOG'') (env ''BGE_ROUTER_LOG_FORMAT'') tty None, run tls P env now)"

section \<open>Facts\<close>

lemma client_setup_hostnames:
  "client_setup_for P c = Inr (setup, ws) \<Longrightarrow>
     cs_accept_invalid_hostnames setup = (cs_root_certificate setup \<noteq> None) \<and>
     (cs_root_certificate setup \<noteq> None) = (upstream_ca_bundle c \<noteq> None)"
  by (auto simp: client_setup_for_def and_then_Inr_iff split: option.splits)

lemma starting_log_spawns: "SpawnDiscovery \<notin> set (starting_log c)" "Ready b m \<notin> set (starting_log c)"
  by (auto simp: starting_log_def)

lemma client_setup_events:
  "client_setup_for P c = Inr (setup, ws) \<Longrightarrow> set ws \<subseteq> {HostnameCheckDisabled}"
  by (auto simp: client_setup_for_def and_then_Inr_iff split: option.splits)

lemma app_state_new_events: "set (fst (app_state_new P c now)) \<subseteq> {HostnameCheckDisabled}"
  by (auto simp: app_state_new_def split: sum.split prod.split dest: client_setup_events)

lemma app_state_new_state:
  "app_state_new P c now = (ws, Inr st) \<Longrightarrow> st_config st = c \<and> st_pool st = default_snapshot now"
  by (auto simp: app_state_new_def and_then_Inr_iff split: sum.splits prod.splits)

lemma find_filter: "find P (filter Q xs) = find (\<lambda>x. Q x \<and> P x) xs"
  by (induction xs) auto

lemma ctrl_c_ignores_sigterm:
  "ctrl_c (P\<lparr>signals := filter (\<lambda>(s, g). g \<noteq> Sigterm) (signals P)\<rparr>) now = ctrl_c P now"
proof -
  have "(\<lambda>x. (case x of (s, g) \<Rightarrow> g \<noteq> Sigterm) \<and> (case x of (s, g) \<Rightarrow> g = Sigint \<and> now \<le> s)) =
      (\<lambda>(s, g). g = Sigint \<and> now \<le> s)"
    by auto
  then show ?thesis by (simp add: ctrl_c_def find_filter)
qed

lemma signals_update_sel:
  "rustls_from_pem_file (P\<lparr>signals := x\<rparr>) = rustls_from_pem_file P"
  "parse_bind (P\<lparr>signals := x\<rparr>) = parse_bind P" "tcp_bind (P\<lparr>signals := x\<rparr>) = tcp_bind P"
  "serve_tls (P\<lparr>signals := x\<rparr>) = serve_tls P" "serve_plain (P\<lparr>signals := x\<rparr>) = serve_plain P"
  "installs_ctrl_c (P\<lparr>signals := x\<rparr>) = installs_ctrl_c P"
  by simp_all

lemma serve_ignores_sigterm:
  "serve tls (P\<lparr>signals := filter (\<lambda>(s, g). g \<noteq> Sigterm) (signals P)\<rparr>) st now = serve tls P st now"
  unfolding serve_def shutdown_signal_def ctrl_c_ignores_sigterm signals_update_sel ..

section \<open>Properties\<close>

text \<open>A SIGTERM never reaches the server: serving with any SIGTERMs sent to the process is the
  same as serving without them. Only a SIGINT starts the graceful shutdown, at its instant,
  with the thirty-second drain limit for TLS and no limit for the plain listener.\<close>
lemma sigterm_never_drains:
  "serve tls (P\<lparr>signals := filter (\<lambda>(s, g). g \<noteq> Sigterm) (signals P)\<rparr>) st now = serve tls P st now \<and>
   ctrl_c (P\<lparr>signals := (s, Sigterm) # sigs\<rparr>) now = ctrl_c (P\<lparr>signals := sigs\<rparr>) now \<and>
   ctrl_c (P\<lparr>signals := (now + d, Sigint) # sigs\<rparr>) now = Some (now + d)"
  unfolding serve_ignores_sigterm by (simp add: ctrl_c_def)

text \<open>Background tasks are spawned exactly when the environment gives an accepted
  configuration and the application state can be built from it; a rejected configuration
  starts nothing and is the error of the process.\<close>
lemma tasks_need_valid_config:
  "(SpawnDiscovery \<in> set (fst (run tls P env now)) \<longleftrightarrow>
      (\<exists>c st ws. from_env env = Inr c \<and> app_state_new P c now = (ws, Inr st))) \<and>
   (\<exists>msg. from_env env = Inl msg \<and> run tls P env now = ([], Some (Inl (ExtError msg None))) \<or>
      (\<exists>c. from_env env = Inr c \<and> Starting c (ms (hedge_delay c)) (ms (control_timeout c))
        (ms (retry_initial_backoff c)) (ms (retry_max_backoff c)) \<in> set (fst (run tls P env now))))"
proof (cases "from_env env")
  case (Inl msg)
  then show ?thesis by (simp add: run_def)
next
  case (Inr c)
  obtain ws x where A: "app_state_new P c now = (ws, x)" by fastforce
  have "SpawnDiscovery \<notin> set ws" using app_state_new_events[of P c now] A by auto
  then show ?thesis
    using Inr A starting_log_spawns(1)[of c]
    by (cases x) (auto simp: run_def starting_log_def split: prod.split)
qed

end
