(* ===== verification/Discovery.thy ===== *)
theory Discovery
  imports Snapshot
begin

text \<open>
  \<open>src/upstream/discovery.rs\<close>: DNS discovery. The resolver is not part of the sources; the
  answers it gives are values of \<open>lookup_answer\<close> supplied by the environment. The merge
  step, the adaptive refresh interval and the loop around them are the code.
\<close>

section \<open>Data\<close>

definition initial_retry_interval :: duration where
  "initial_retry_interval = from_secs 2"

datatype resolve_result = Resolved "socket_addr list" | Failed

fun has_addrs :: "resolve_result \<Rightarrow> bool" where
  "has_addrs (Resolved as) \<longleftrightarrow> as \<noteq> []"
| "has_addrs Failed \<longleftrightarrow> False"

section \<open>Resolving and merging\<close>

datatype lookup_answer = LookupOk "socket_addr list" | LookupErr

definition resolve_host :: "string \<Rightarrow> u16 \<Rightarrow> string" where
  "resolve_host dns_name port = dns_name @ '':'' @ show_nat (unat port)"

fun resolve :: "(string \<Rightarrow> lookup_answer) \<Rightarrow> string \<Rightarrow> u16 \<Rightarrow> resolve_result" where
  "resolve lookup_host dns_name port =
     (case lookup_host (resolve_host dns_name port) of
        LookupOk as \<Rightarrow> Resolved as
      | LookupErr \<Rightarrow> Failed)"

fun describe_resolve :: "resolve_result \<Rightarrow> string" where
  "describe_resolve (Resolved as) = ''ok('' @ show_nat (length as) @ '')''"
| "describe_resolve Failed = ''failed''"

definition new_upstream :: "socket_addr \<Rightarrow> pool_type \<Rightarrow> instant \<Rightarrow> upstream_info" where
  "new_upstream a t now =
     \<lparr>addr = a, pool_type = t, status = Unknown, queue_depth = 0, live_workers = 0,
      last_seen = now, cooldown_until = None\<rparr>"

text \<open>
  \<open>clk i\<close> is the clock reading for the \<open>i\<close>-th resolved address; the code reads the clock
  anew for every address it has not seen before.
\<close>

definition merge_entry ::
  "pool \<Rightarrow> pool_type \<Rightarrow> (nat \<Rightarrow> instant) \<Rightarrow> nat \<times> socket_addr \<Rightarrow> upstream_info" where
  "merge_entry existing t clk ia =
     (case find (\<lambda>u. addr u = snd ia) existing of
        Some u \<Rightarrow> u
      | None \<Rightarrow> new_upstream (snd ia) t (clk (fst ia)))"

fun merge_pool :: "pool \<Rightarrow> resolve_result \<Rightarrow> pool_type \<Rightarrow> (nat \<Rightarrow> instant) \<Rightarrow> pool" where
  "merge_pool existing Failed t clk = existing"
| "merge_pool existing (Resolved resolved) t clk =
     map (merge_entry existing t clk) (enumerate 0 resolved)"

record merge_clock =
  mc_gpu :: "nat \<Rightarrow> instant"
  mc_cpu :: "nat \<Rightarrow> instant"
  mc_updated :: instant

definition merge ::
  "pool_snapshot \<Rightarrow> resolve_result \<Rightarrow> resolve_result \<Rightarrow> merge_clock \<Rightarrow> pool_snapshot" where
  "merge current g c clk =
     \<lparr>gpu = merge_pool (gpu current) g Gpu (mc_gpu clk),
      cpu = merge_pool (cpu current) c Cpu (mc_cpu clk),
      updated_at = mc_updated clk\<rparr>"

section \<open>The refresh interval and the loop\<close>

definition compute_next_interval :: "duration \<Rightarrow> bool \<Rightarrow> bool \<Rightarrow> duration \<Rightarrow> duration" where
  "compute_next_interval previous was_healthy is_healthy mx =
     (let initial = min initial_retry_interval mx
      in if is_healthy then mx
         else if was_healthy then initial
         else max (min (saturating_mul previous 2) mx) initial)"

datatype discovery_log =
    DnsRefresh string string
  | AllLookupsFailed
  | BecameHealthy nat nat
  | BecameUnhealthy nat nat

fun log_state_transition :: "bool \<Rightarrow> bool \<Rightarrow> pool_snapshot \<Rightarrow> discovery_log list" where
  "log_state_transition was_healthy is_healthy s =
     (if is_healthy then [BecameHealthy (length (gpu s)) (length (cpu s))]
      else if was_healthy then [BecameUnhealthy (length (gpu s)) (length (cpu s))]
      else [])"

text \<open>
  \<open>refresh\<close>: the two answers, then the merge into the snapshot \<open>current\<close> that is loaded
  when both have arrived. The result is the snapshot that is stored and the log events.
\<close>

definition refresh ::
  "resolve_result \<Rightarrow> resolve_result \<Rightarrow> pool_snapshot \<Rightarrow> merge_clock \<Rightarrow>
     pool_snapshot \<times> discovery_log list" where
  "refresh g c current clk =
     (merge current g c clk,
      DnsRefresh (describe_resolve g) (describe_resolve c) #
      (if g = Failed \<and> c = Failed then [AllLookupsFailed] else []))"

record loop_state =
  sleep_for :: duration
  last_healthy :: bool

definition initial_loop :: loop_state where
  "initial_loop = \<lparr>sleep_for = 0, last_healthy = True\<rparr>"

text \<open>
  One turn of the loop after its sleep: \<open>stored\<close> is the snapshot the log reads when the
  state changes. The sleep itself is \<open>sleep_for\<close>; a zero sleep is skipped.
\<close>

definition loop_turn ::
  "duration \<Rightarrow> loop_state \<Rightarrow> resolve_result \<times> resolve_result \<Rightarrow> loop_state" where
  "loop_turn dns_refresh st answers =
     (let healthy = has_addrs (fst answers) \<or> has_addrs (snd answers)
      in \<lparr>sleep_for = compute_next_interval (sleep_for st) (last_healthy st) healthy dns_refresh,
          last_healthy = healthy\<rparr>)"

definition turn_log ::
  "loop_state \<Rightarrow> resolve_result \<times> resolve_result \<Rightarrow> pool_snapshot \<Rightarrow> discovery_log list" where
  "turn_log st answers stored =
     (let healthy = has_addrs (fst answers) \<or> has_addrs (snd answers)
      in if healthy \<noteq> last_healthy st
         then log_state_transition (last_healthy st) healthy stored else [])"

text \<open>The sleeps between consecutive refreshes of a run of the loop.\<close>

fun loop_run ::
  "duration \<Rightarrow> loop_state \<Rightarrow> (resolve_result \<times> resolve_result) list \<Rightarrow> loop_state list" where
  "loop_run mx st [] = []"
| "loop_run mx st (x # xs) = (let st' = loop_turn mx st x in st' # loop_run mx st' xs)"

section \<open>Merging\<close>

lemma find_addr: "find (\<lambda>u. addr u = a) p = Some u \<Longrightarrow> addr u = a \<and> u \<in> set p"
  by (drule find_SomeD) simp

lemma merge_entry_addr [simp]: "addr (merge_entry p t clk ia) = snd ia"
  by (auto simp: merge_entry_def new_upstream_def split: option.splits dest: find_addr)

lemma merge_entry_tag: "typed_pool t p \<Longrightarrow> pool_type (merge_entry p t clk ia) = t"
  by (auto simp: merge_entry_def new_upstream_def split: option.splits
      dest: find_addr typed_poolD)

lemma merge_pool_addrs [frame_simps]:
  "addrs_of (merge_pool p r t clk) = (case r of Failed \<Rightarrow> addrs_of p | Resolved as \<Rightarrow> as)"
  by (cases r) (simp_all add: comp_def)

lemma merge_pool_typed: "typed_pool t p \<Longrightarrow> typed_pool t (merge_pool p r t clk)"
  by (cases r) (auto simp: merge_entry_tag typed_pool_def[of t "map _ _"])

lemma merge_sel [simp]:
  "gpu (merge s g c clk) = merge_pool (gpu s) g Gpu (mc_gpu clk)"
  "cpu (merge s g c clk) = merge_pool (cpu s) c Cpu (mc_cpu clk)"
  "updated_at (merge s g c clk) = mc_updated clk"
  by (simp_all add: merge_def)

interpretation dns_writer: snapshot_writer "\<lambda>s. merge s g c clk" for g c clk
  by unfold_locales (simp add: typed_snapshot_def merge_pool_typed)

lemma merge_typed [wf_intros]: "typed_snapshot s \<Longrightarrow> typed_snapshot (merge s g c clk)"
  by (rule dns_writer.wr_typed)

text \<open>A known address keeps its whole entry, a new one enters without any health state.\<close>

lemma merge_pool_nth:
  assumes "i < length as"
  shows "merge_pool p (Resolved as) t clk ! i =
    (case find (\<lambda>u. addr u = as ! i) p of
       Some u \<Rightarrow> u | None \<Rightarrow> new_upstream (as ! i) t (clk i))"
  using assms by (simp add: merge_entry_def nth_enumerate_eq split: option.split)

lemma merge_pool_known:
  assumes "u \<in> set (merge_pool p r t clk)"
  shows "u \<in> set p \<or>
    (\<exists>as i. r = Resolved as \<and> i < length as \<and> addr u \<notin> set (addrs_of p) \<and>
       u = new_upstream (as ! i) t (clk i))"
proof (cases r)
  case (Resolved as)
  with assms obtain i where i: "i < length as" "u = merge_pool p (Resolved as) t clk ! i"
    by (metis in_set_conv_nth length_enumerate length_map merge_pool.simps(2))
  show ?thesis
  proof (cases "find (\<lambda>u. addr u = as ! i) p")
    case None
    then have "as ! i \<notin> set (addrs_of p)" by (auto simp: find_None_iff_ball)
    then show ?thesis using Resolved i None
      by (auto simp: merge_pool_nth new_upstream_def simp del: merge_pool.simps)
  next
    case (Some v)
    then show ?thesis using i
      by (auto simp: merge_pool_nth simp del: merge_pool.simps dest: find_addr)
  qed
qed (use assms in simp)

lemma merge_pool_same_addrs:
  assumes "distinct (addrs_of p)"
  shows "merge_pool p (Resolved (addrs_of p)) t clk = p"
proof (rule nth_equalityI)
  fix i assume "i < length (merge_pool p (Resolved (addrs_of p)) t clk)"
  then have i: "i < length p" by simp
  have "p = take i p @ p ! i # drop (Suc i) p" using i by (simp add: id_take_nth_drop)
  moreover have "addr (p ! i) \<notin> set (addrs_of (take i p))"
    using assms i by (auto simp: distinct_conv_nth in_set_conv_nth)
  ultimately have "find (\<lambda>u. addr u = addr (p ! i)) p = Some (p ! i)"
  proof -
    have "find (\<lambda>u. addr u = a) (xs @ v # ys) = Some v"
      if "a \<notin> set (addrs_of xs)" "addr v = a" for a xs v ys
      using that by (induction xs) auto
    then show ?thesis
      using \<open>p = _\<close> \<open>addr (p ! i) \<notin> _\<close> by metis
  qed
  then show "merge_pool p (Resolved (addrs_of p)) t clk ! i = p ! i"
    using i by (simp add: merge_pool_nth del: merge_pool.simps)
qed simp

section \<open>The refresh interval\<close>

lemma saturating_double: "mx \<le> duration_max \<Longrightarrow> min (saturating_mul d 2) mx = min (2 * d) mx"
  by (auto simp: saturating_mul_def min_def)

lemma next_interval_healthy: "compute_next_interval p w True mx = mx"
  by (simp add: compute_next_interval_def)

lemma next_interval_drop: "compute_next_interval p True False mx = min initial_retry_interval mx"
  by (simp add: compute_next_interval_def)

lemma next_interval_bounds:
  "min initial_retry_interval mx \<le> compute_next_interval p w h mx \<and>
   compute_next_interval p w h mx \<le> mx"
  by (auto simp: compute_next_interval_def Let_def min_def max_def)

lemma next_interval_double:
  assumes "mx \<le> duration_max" and "min initial_retry_interval mx \<le> p"
  shows "compute_next_interval p False False mx = min (2 * p) mx"
  using assms saturating_double[OF assms(1)]
  by (auto simp: compute_next_interval_def Let_def min_def max_def)

lemma loop_run_length [simp]: "length (loop_run mx st xs) = length xs"
  by (induction xs arbitrary: st) (auto simp: Let_def)

lemma loop_run_bounds:
  "st' \<in> set (loop_run mx st xs) \<Longrightarrow>
     min initial_retry_interval mx \<le> sleep_for st' \<and> sleep_for st' \<le> mx"
proof (induction xs arbitrary: st)
  case (Cons x xs)
  then show ?case
    using next_interval_bounds by (auto simp: loop_turn_def Let_def)
qed simp

text \<open>A run of refreshes that all come back empty.\<close>

definition unhealthy :: "resolve_result \<times> resolve_result \<Rightarrow> bool" where
  "unhealthy x \<longleftrightarrow> \<not> has_addrs (fst x) \<and> \<not> has_addrs (snd x)"

lemma loop_turn_unhealthy:
  "unhealthy x \<Longrightarrow> loop_turn mx st x =
     \<lparr>sleep_for = compute_next_interval (sleep_for st) (last_healthy st) False mx,
      last_healthy = False\<rparr>"
  by (simp add: loop_turn_def unhealthy_def)

lemma min_double_cap: "min (2 * min (2 ^ k * a) m) m = min (2 ^ Suc k * a) (m::nat)"
  by (auto simp: min_def)

lemma backoff_schedule_from:
  assumes "mx \<le> duration_max" and "\<forall>x\<in>set xs. unhealthy x" and "k < length xs"
    and "\<not> last_healthy st" and "sleep_for st = min (2 ^ j * initial_retry_interval) mx"
  shows "sleep_for (loop_run mx st xs ! k) = min (2 ^ (j + Suc k) * initial_retry_interval) mx"
  using assms
proof (induction xs arbitrary: st j k)
  case (Cons x xs)
  let ?st = "loop_turn mx st x"
  have "1 * initial_retry_interval \<le> 2 ^ j * initial_retry_interval"
    by (rule mult_le_mono1) simp
  then have ge: "min initial_retry_interval mx \<le> sleep_for st"
    unfolding Cons.prems(5) by (intro min.mono) simp_all
  have "sleep_for ?st = min (2 * sleep_for st) mx"
    using Cons.prems ge by (simp add: loop_turn_unhealthy next_interval_double)
  then have st': "sleep_for ?st = min (2 ^ Suc j * initial_retry_interval) mx"
    unfolding Cons.prems(5) by (simp only: min_double_cap)
  have "\<not> last_healthy ?st" using Cons.prems(2) by (simp add: loop_turn_unhealthy)
  then show ?case
  proof (cases k)
    case 0
    then show ?thesis using st' by (simp add: Let_def)
  next
    case (Suc k')
    then show ?thesis
      using Cons.IH[of k' ?st "Suc j"] Cons.prems st' \<open>\<not> last_healthy ?st\<close>
      by (simp add: Let_def)
  qed
qed simp

text \<open>After a healthy refresh (or at the start): 2 s, 4 s, 8 s and so on, capped.\<close>

lemma backoff_schedule:
  assumes "mx \<le> duration_max" and "\<forall>x\<in>set xs. unhealthy x" and "k < length xs"
    and "last_healthy st"
  shows "sleep_for (loop_run mx st xs ! k) = min (2 ^ k * initial_retry_interval) mx"
proof (cases xs)
  case (Cons x ys)
  let ?st = "loop_turn mx st x"
  have st': "sleep_for ?st = min (2 ^ 0 * initial_retry_interval) mx" "\<not> last_healthy ?st"
    using assms(2,4) Cons by (simp_all add: loop_turn_unhealthy next_interval_drop)
  show ?thesis
  proof (cases k)
    case 0
    then show ?thesis using Cons st' by (simp add: Let_def)
  next
    case (Suc k')
    then show ?thesis
      using backoff_schedule_from[OF assms(1), of ys k' ?st 0] assms(2,3) Cons st'
      by (simp add: Let_def)
  qed
qed (use assms in simp)

section \<open>Properties\<close>

text \<open>C29: while every lookup comes back empty or failed, the sleeps of the discovery loop after
  a healthy state (or after the start) are 2 s, 4 s, 8 s and so on, capped at the configured
  refresh interval.\<close>
theorem discovery_backoff:
  assumes "mx \<le> duration_max" and "list_all unhealthy xs" and "k < length xs" and "last_healthy st"
  shows "sleep_for (loop_run mx st xs ! k) = min (2 ^ k * from_secs 2) mx"
  using backoff_schedule[of mx xs k st] assms
  by (simp add: list_all_iff initial_retry_interval_def)

lemma discovery_backoff_witness:
  "sleep_for (loop_run (from_secs 30) initial_loop (replicate 5 (Failed, Resolved [])) ! 4) = from_secs 30"
proof -
  have "from_secs 30 \<le> duration_max" by (simp add: from_secs_def time_defs)
  moreover have "list_all unhealthy (replicate 5 (Failed, Resolved []))"
    by (simp add: list_all_iff unhealthy_def)
  ultimately have "sleep_for (loop_run (from_secs 30) initial_loop (replicate 5 (Failed, Resolved [])) ! 4) =
      min (2 ^ 4 * from_secs 2) (from_secs 30)"
    by (rule discovery_backoff) (simp_all add: initial_loop_def)
  then show ?thesis by (simp add: from_secs_def nanos_per_sec_def)
qed



text \<open>A lookup that gives the addresses a pool already has, in their order and without
  duplicates, leaves the pool as it is.\<close>
lemma merge_same_addresses:
  assumes "distinct (addrs_of p)"
  shows "merge_pool p (Resolved (addrs_of p)) t clk = p"
  using assms by (rule merge_pool_same_addrs)

end
