(* ===== verification/Pool_System.thy ===== *)
theory Pool_System
  imports Circuit_Breaker Policy Health_Poll Discovery
begin

text \<open>
  The tasks that share the snapshot cell (\<open>src/lib.rs\<close>, \<open>run\<close>): DNS discovery, health
  polling, and the circuit breaker of any number of requests. The cell is an \<open>ArcSwap\<close>:
  each load, store and \<open>rcu\<close> is atomic, and every other task may run between a load and the
  store that follows it. Discovery (\<open>refresh\<close>) and the poller (\<open>poll_all\<close>) load, compute
  and store; the breaker replaces the cell with \<open>rcu\<close>, so its step is atomic but for its
  fast path, whose \<open>loaded\<close> snapshot may be any.
\<close>

section \<open>States and steps\<close>

record system =
  cell :: pool_snapshot
  clock :: instant
  dns_cur :: "pool_snapshot option"
    \<comment> \<open>\<open>current\<close> of \<open>refresh\<close>, between its load and its store\<close>
  poll_round :: "pool_snapshot option"
    \<comment> \<open>the snapshot a polling round started with, while the round runs\<close>
  poll_cur :: "((socket_addr \<times> task_result) list \<times> pool_snapshot) option"
    \<comment> \<open>the finished tasks and \<open>current\<close> of \<open>poll_all\<close>, between its load and its store\<close>

datatype label =
    Tick instant
  | DnsLoad
  | DnsStore resolve_result resolve_result merge_clock
  | PollStart
  | PollLoad "(socket_addr \<times> task_result) list"
  | PollStore
  | Tripped pool_snapshot socket_addr duration trip_clock

definition initial_system :: "instant \<Rightarrow> system" where
  "initial_system t0 =
     \<lparr>cell = default_snapshot t0, clock = t0, dns_cur = None, poll_round = None, poll_cur = None\<rparr>"

inductive step :: "system \<Rightarrow> label \<Rightarrow> system \<Rightarrow> bool" where
  tick: "clock s \<le> t \<Longrightarrow> step s (Tick t) (s\<lparr>clock := t\<rparr>)"
| dns_load: "dns_cur s = None \<Longrightarrow> step s DnsLoad (s\<lparr>dns_cur := Some (cell s)\<rparr>)"
| dns_store: "dns_cur s = Some current \<Longrightarrow>
    step s (DnsStore g c clk) (s\<lparr>cell := fst (refresh g c current clk), dns_cur := None\<rparr>)"
| poll_start: "poll_round s = None \<Longrightarrow> poll_targets (cell s) \<noteq> [] \<Longrightarrow>
    step s PollStart (s\<lparr>poll_round := Some (cell s)\<rparr>)"
| poll_load: "poll_round s = Some loaded \<Longrightarrow> poll_cur s = None \<Longrightarrow> finished_round loaded ts \<Longrightarrow>
    step s (PollLoad ts) (s\<lparr>poll_cur := Some (ts, cell s)\<rparr>)"
| poll_store: "poll_round s = Some loaded \<Longrightarrow> poll_cur s = Some (ts, current) \<Longrightarrow>
    poll_all loaded ts current (clock s) = Some next \<Longrightarrow>
    step s PollStore (s\<lparr>cell := next, poll_round := None, poll_cur := None\<rparr>)"
| trip_step: "trip loaded (cell s) a d c = Some next \<Longrightarrow> monotone_clock c \<Longrightarrow> tc_updated c \<le> clock s \<Longrightarrow>
    step s (Tripped loaded a d c) (s\<lparr>cell := next\<rparr>)"

inductive_cases stepE: "step s l s'"

inductive_simps step_simps:
  "step s (Tick t) s'" "step s DnsLoad s'" "step s (DnsStore g c clk) s'" "step s PollStart s'"
  "step s (PollLoad ts) s'" "step s PollStore s'" "step s (Tripped loaded a d c) s'"

text \<open>The same system as a function: the state after a label, \<open>None\<close> when it is not enabled.\<close>

fun step_fun :: "system \<Rightarrow> label \<Rightarrow> system option" where
  "step_fun s (Tick t) = (if clock s \<le> t then Some (s\<lparr>clock := t\<rparr>) else None)"
| "step_fun s DnsLoad = (if dns_cur s = None then Some (s\<lparr>dns_cur := Some (cell s)\<rparr>) else None)"
| "step_fun s (DnsStore g c clk) =
     map_option (\<lambda>current. s\<lparr>cell := fst (refresh g c current clk), dns_cur := None\<rparr>) (dns_cur s)"
| "step_fun s PollStart =
     (if poll_round s = None \<and> poll_targets (cell s) \<noteq> [] then Some (s\<lparr>poll_round := Some (cell s)\<rparr>)
      else None)"
| "step_fun s (PollLoad ts) =
     (case poll_round s of
        Some loaded \<Rightarrow>
          if poll_cur s = None \<and> finished_round loaded ts then Some (s\<lparr>poll_cur := Some (ts, cell s)\<rparr>)
          else None
      | None \<Rightarrow> None)"
| "step_fun s PollStore =
     (case (poll_round s, poll_cur s) of
        (Some loaded, Some (ts, current)) \<Rightarrow>
          map_option (\<lambda>next. s\<lparr>cell := next, poll_round := None, poll_cur := None\<rparr>)
            (poll_all loaded ts current (clock s))
      | _ \<Rightarrow> None)"
| "step_fun s (Tripped loaded a d c) =
     (if monotone_clock c \<and> tc_updated c \<le> clock s
      then map_option (\<lambda>next. s\<lparr>cell := next\<rparr>) (trip loaded (cell s) a d c) else None)"

lemma step_iff: "step s l s' \<longleftrightarrow> step_fun s l = Some s'"
  by (cases l) (auto simp: step_simps split: option.splits)

inductive steps :: "system \<Rightarrow> label list \<Rightarrow> system \<Rightarrow> bool" where
  steps_nil: "steps s [] s"
| steps_snoc: "steps s ls s' \<Longrightarrow> step s' l s'' \<Longrightarrow> steps s (ls @ [l]) s''"

inductive_simps steps_nil_iff [simp]: "steps s [] s'"

lemma steps_append: "steps s' ls' s'' \<Longrightarrow> steps s ls s' \<Longrightarrow> steps s (ls @ ls') s''"
proof (induction rule: steps.induct)
  case (steps_snoc s1 ls1 s2 l s3)
  then show ?case unfolding append_assoc[symmetric] by (blast intro: steps.steps_snoc)
qed simp

lemma steps_Cons: "step s l s' \<Longrightarrow> steps s' ls s'' \<Longrightarrow> steps s (l # ls) s''"
  using steps_append[of s' ls s'' s "[l]"] steps_snoc[OF steps_nil, of s l s'] by simp

definition reach :: "instant \<Rightarrow> label list \<Rightarrow> system \<Rightarrow> bool" where
  "reach t0 ls s \<longleftrightarrow> steps (initial_system t0) ls s"

text \<open>The snapshots of a state: the cell and those that a task is about to replace.\<close>

definition snapshots :: "system \<Rightarrow> pool_snapshot set" where
  "snapshots s = {cell s} \<union> set_option (dns_cur s) \<union> snd ` set_option (poll_cur s)"

lemma step_snapshots:
  assumes "step s l s'" and "x \<in> snapshots s'"
  obtains (old) "x \<in> snapshots s"
  | (dns) g c clk current where "l = DnsStore g c clk" "current \<in> snapshots s" "x = merge current g c clk"
  | (poll) ts current where "l = PollStore" "(ts, current) \<in> set_option (poll_cur s)"
      "x = apply_updates current (poll_concurrent ts) (clock s)"
  | (trip) loaded a d c where "l = Tripped loaded a d c" "trip loaded (cell s) a d c = Some x"
      "monotone_clock c" "tc_updated c \<le> clock s"
  using assms
  by cases (auto simp: snapshots_def refresh_def poll_all_def split: if_splits)

text \<open>Invariants of single snapshots carry over to runs.\<close>

lemma steps_invariant:
  assumes "steps s ls s'" and "\<forall>x\<in>snapshots s. P x"
    and "\<And>current g c clk. P current \<Longrightarrow> P (merge current g c clk)"
    and "\<And>current ts now. P current \<Longrightarrow> P (apply_updates current (poll_concurrent ts) now)"
    and "\<And>loaded current a d c x. P current \<Longrightarrow> trip loaded current a d c = Some x \<Longrightarrow> P x"
  shows "\<forall>x\<in>snapshots s'. P x"
  using assms(1,2)
proof (induction rule: steps.induct)
  case (steps_snoc s ls s' l s'')
  have IH: "P x" if "x \<in> snapshots s'" for x using steps_snoc that by blast
  show ?case
  proof
    fix x assume "x \<in> snapshots s''"
    with steps_snoc(2) show "P x"
    proof (cases rule: step_snapshots)
      case (poll ts current)
      then have "current \<in> snapshots s'" by (force simp: snapshots_def)
      with poll show ?thesis using assms(4) IH by blast
    next
      case (trip loaded a d c)
      have "cell s' \<in> snapshots s'" by (simp add: snapshots_def)
      with trip show ?thesis using assms(5) IH by blast
    qed (use assms(3) IH in auto)
  qed
qed blast

lemma initial_snapshots: "snapshots (initial_system t0) = {default_snapshot t0}"
  by (auto simp: snapshots_def initial_system_def)

lemma initial_typed: "typed_snapshot (default_snapshot t0)"
  by (simp add: typed_snapshot_def typed_pool_def default_snapshot_def)

lemma reach_typed: "reach t0 ls s \<Longrightarrow> x \<in> snapshots s \<Longrightarrow> typed_snapshot x"
  unfolding reach_def
  by (drule steps_invariant[where P = typed_snapshot])
    (auto simp: initial_snapshots initial_typed intro: merge_typed apply_updates_typed
      elim: trip_typed)

section \<open>Where an upstream comes from\<close>

fun pool_of :: "pool_type \<Rightarrow> pool_snapshot \<Rightarrow> pool" where
  "pool_of Gpu s = gpu s"
| "pool_of Cpu s = cpu s"

fun answer_for :: "pool_type \<Rightarrow> resolve_result \<Rightarrow> resolve_result \<Rightarrow> resolve_result" where
  "answer_for Gpu g c = g"
| "answer_for Cpu g c = c"

lemma pool_of_default [simp]: "pool_of t (default_snapshot t0) = []"
  by (cases t) (simp_all add: default_snapshot_def)

text \<open>Some DNS answer for the pool had the address; some poll of it had a usable answer.\<close>

definition resolved_in :: "label list \<Rightarrow> pool_type \<Rightarrow> socket_addr \<Rightarrow> bool" where
  "resolved_in ls t a \<longleftrightarrow>
     (\<exists>g c clk as. DnsStore g c clk \<in> set ls \<and> answer_for t g c = Resolved as \<and> a \<in> set as)"

definition answered_in :: "label list \<Rightarrow> socket_addr \<Rightarrow> bool" where
  "answered_in ls a \<longleftrightarrow>
     (\<exists>ts b. PollLoad ts \<in> set ls \<and> (a, Joined (Success (Some b))) \<in> set ts \<and>
        body_status b \<in> {''ok'', ''warn'', ''loading'', ''idle''})"

definition sourced :: "label list \<Rightarrow> pool_snapshot \<Rightarrow> bool" where
  "sourced ls x \<longleftrightarrow>
     (\<forall>t. \<forall>u\<in>set (pool_of t x). resolved_in ls t (addr u) \<and>
        (status u \<in> {Ok, Loading} \<longrightarrow> answered_in ls (addr u)))"

lemma resolved_in_snoc: "resolved_in ls t a \<Longrightarrow> resolved_in (ls @ [l]) t a"
  by (auto simp: resolved_in_def)

lemma answered_in_snoc: "answered_in ls a \<Longrightarrow> answered_in (ls @ [l]) a"
  by (auto simp: answered_in_def)

lemma sourced_snoc: "sourced ls x \<Longrightarrow> sourced (ls @ [l]) x"
  by (auto simp: sourced_def intro: resolved_in_snoc answered_in_snoc)

lemma sourced_merge:
  assumes "sourced ls x"
  shows "sourced (ls @ [DnsStore g c clk]) (merge x g c clk)"
  unfolding sourced_def
proof (intro allI ballI)
  fix t u assume u: "u \<in> set (pool_of t (merge x g c clk))"
  then have u': "u \<in> set (merge_pool (pool_of t x) (answer_for t g c) t (case t of Gpu \<Rightarrow> mc_gpu clk | Cpu \<Rightarrow> mc_cpu clk))"
    by (cases t) simp_all
  show "resolved_in (ls @ [DnsStore g c clk]) t (addr u) \<and>
      (status u \<in> {Ok, Loading} \<longrightarrow> answered_in (ls @ [DnsStore g c clk]) (addr u))"
    using merge_pool_known[OF u']
  proof
    assume "u \<in> set (pool_of t x)"
    then show ?thesis using assms unfolding sourced_def
      by (meson resolved_in_snoc answered_in_snoc)
  next
    assume "\<exists>as i. answer_for t g c = Resolved as \<and> i < length as \<and> addr u \<notin> set (addrs_of (pool_of t x)) \<and>
      u = new_upstream (as ! i) t ((case t of Gpu \<Rightarrow> mc_gpu clk | Cpu \<Rightarrow> mc_cpu clk) i)"
    then show ?thesis by (fastforce simp: resolved_in_def new_upstream_def)
  qed
qed

lemma poll_concurrent_mem:
  "r \<in> set (poll_concurrent ts) \<Longrightarrow> \<exists>a q. (a, Joined q) \<in> set ts \<and> r = poll_one a q"
  by (induction ts rule: poll_concurrent.induct) auto

lemma sourced_poll:
  assumes "sourced ls x" and "PollLoad ts \<in> set ls"
  shows "sourced ls (apply_updates x (poll_concurrent ts) now)"
  unfolding sourced_def
proof (intro allI ballI)
  fix t u assume "u \<in> set (pool_of t (apply_updates x (poll_concurrent ts) now))"
  then obtain v where v: "v \<in> set (pool_of t x)" "u = apply_result (poll_concurrent ts) now v"
    by (cases t) (auto simp: update_pool_def)
  have "answered_in ls (addr v)" if "status u \<in> {Ok, Loading}"
  proof (cases "find (\<lambda>r. pr_addr r = addr v) (poll_concurrent ts)")
    case None
    then show ?thesis using v assms(1) that by (auto simp: apply_result_def sourced_def)
  next
    case (Some r)
    then have r: "r \<in> set (poll_concurrent ts)" "pr_addr r = addr v" "status u = pr_status r"
      using v(2) by (auto dest: find_SomeD simp: apply_result_def)
    then obtain a q where q: "(a, Joined q) \<in> set ts" "r = poll_one a q"
      using poll_concurrent_mem by blast
    with r that have "\<exists>b. q = Success (Some b) \<and> body_status b \<in> {''ok'', ''warn'', ''loading'', ''idle''}"
      using poll_one_status[of a q] by auto
    then show ?thesis using q r(2) assms(2) unfolding answered_in_def by auto
  qed
  then show "resolved_in ls t (addr u) \<and> (status u \<in> {Ok, Loading} \<longrightarrow> answered_in ls (addr u))"
    using v assms(1) by (auto simp: sourced_def)
qed

lemma trip_pool_origin:
  assumes "u \<in> set (fst (trip_pool p a until now))"
  obtains v where "v \<in> set p" "addr u = addr v" "status u = status v" "live_workers u = live_workers v"
proof -
  obtain i where i: "i < length p" "u = fst (trip_pool p a until now) ! i"
    using assms by (auto simp: in_set_conv_nth)
  from trip_pool_nth[OF i(1), of a until now] i show thesis by (auto intro!: that[of "p ! i"])
qed

lemma sourced_trip:
  assumes "sourced ls x" and "trip loaded x a d c = Some y"
  shows "sourced ls y"
  using assms(2)
proof (cases rule: trip_cases)
  case tripped
  have "resolved_in ls t (addr u) \<and> (status u \<in> {Ok, Loading} \<longrightarrow> answered_in ls (addr u))"
    if "u \<in> set (pool_of t y)" for t u
  proof -
    from that obtain p until now where "p = pool_of t x" "u \<in> set (fst (trip_pool p a until now))"
      by (cases t) (auto simp: tripped)
    then show ?thesis using assms(1) by (auto elim!: trip_pool_origin simp: sourced_def)
  qed
  then show ?thesis by (auto simp: sourced_def)
qed (use assms(1) in simp)

lemma steps_poll_cur:
  "steps s ls s' \<Longrightarrow> poll_cur s = None \<Longrightarrow> poll_cur s' = Some (ts, x) \<Longrightarrow> PollLoad ts \<in> set ls"
proof (induction arbitrary: ts x rule: steps.induct)
  case (steps_snoc s ls s' l s'')
  from steps_snoc(2) show ?case using steps_snoc by cases auto
qed simp

lemma reach_sourced:
  assumes "reach t0 ls s" and "x \<in> snapshots s"
  shows "sourced ls x"
  using assms(1)[unfolded reach_def] assms(2)
proof (induction "initial_system t0" ls s arbitrary: x rule: steps.induct)
  case steps_nil
  then show ?case
    by (auto simp: initial_snapshots sourced_def pool_of_default)
next
  case (steps_snoc ls s' l s'')
  from steps_snoc(3,4) show ?case
  proof (cases rule: step_snapshots)
    case old
    then show ?thesis using steps_snoc(2) sourced_snoc by blast
  next
    case (dns g c clk current)
    then show ?thesis using steps_snoc(2) sourced_merge by blast
  next
    case (poll ts current)
    then have "current \<in> snapshots s'" "poll_cur s' = Some (ts, current)"
      by (force simp: snapshots_def)+
    moreover have "PollLoad ts \<in> set ls"
      using steps_poll_cur[OF steps_snoc(1)] poll by (auto simp: initial_system_def)
    ultimately show ?thesis using poll steps_snoc(2) sourced_poll sourced_snoc by blast
  next
    case (trip loaded a d c)
    have "cell s' \<in> snapshots s'" by (simp add: snapshots_def)
    then show ?thesis using trip steps_snoc(2) sourced_trip sourced_snoc by blast
  qed
qed

section \<open>Clock and picks\<close>

lemma step_clock: "step s l s' \<Longrightarrow> clock s \<le> clock s'"
  by (erule stepE) auto

lemma steps_clock: "steps s ls s' \<Longrightarrow> clock s \<le> clock s'"
  by (induction rule: steps.induct) (auto dest: step_clock)

lemma pick_pool_of:
  assumes "pick x now = Some (a, t)"
  obtains u where "u \<in> set (pool_of t x)" "addr u = a" "routable u now"
proof -
  have "pick_ok (gpu x) Gpu now = Some (a, t) \<or> pick_ok (cpu x) Cpu now = Some (a, t) \<or>
      pick_loading (gpu x) Gpu now = Some (a, t) \<or> pick_loading (cpu x) Cpu now = Some (a, t)"
    using assms unfolding pick_def or_else_Some_iff by blast
  then show thesis
  proof (elim disjE)
    assume "pick_ok (gpu x) Gpu now = Some (a, t)"
    from ok.sel_routable[OF this] ok.sel_tag[OF this] show thesis by (auto intro: that)
  next
    assume "pick_ok (cpu x) Cpu now = Some (a, t)"
    from ok.sel_routable[OF this] ok.sel_tag[OF this] show thesis by (auto intro: that)
  next
    assume "pick_loading (gpu x) Gpu now = Some (a, t)"
    from loading.sel_routable[OF this] loading.sel_tag[OF this] show thesis by (auto intro: that)
  next
    assume "pick_loading (cpu x) Cpu now = Some (a, t)"
    from loading.sel_routable[OF this] loading.sel_tag[OF this] show thesis by (auto intro: that)
  qed
qed

section \<open>A concrete run\<close>

text \<open>One GPU is discovered and polled; a second round is about to be stored when a request
  trips the GPU.\<close>

definition ok_body :: bge_m_health_response where
  "ok_body = \<lparr>body_status = ''ok'', body_workers = None, body_queue_depth = None\<rparr>"

definition demo_clock :: merge_clock where
  "demo_clock = \<lparr>mc_gpu = (\<lambda>_. 0), mc_cpu = (\<lambda>_. 0), mc_updated = 0\<rparr>"

definition demo_answers :: "(socket_addr \<times> task_result) list" where
  "demo_answers = [(demo_addr, Joined (Success (Some ok_body)))]"

definition one_gpu :: "upstream_status \<Rightarrow> instant option \<Rightarrow> pool_snapshot" where
  "one_gpu st cd =
     \<lparr>gpu = [\<lparr>addr = demo_addr, pool_type = Gpu, status = st, queue_depth = 0, live_workers = 0,
               last_seen = 0, cooldown_until = cd\<rparr>],
      cpu = [], updated_at = 0\<rparr>"

definition idle :: "pool_snapshot \<Rightarrow> system" where
  "idle x = \<lparr>cell = x, clock = 0, dns_cur = None, poll_round = None, poll_cur = None\<rparr>"

definition demo_trace :: "label list" where
  "demo_trace = [DnsLoad, DnsStore (Resolved [demo_addr]) Failed demo_clock, PollStart,
     PollLoad demo_answers, PollStore]"

lemma demo_merge:
  "fst (refresh (Resolved [demo_addr]) Failed (default_snapshot 0) demo_clock) = one_gpu Unknown None"
  by (simp add: refresh_def merge_def merge_entry_def new_upstream_def default_snapshot_def
      demo_clock_def one_gpu_def)

lemma demo_poll:
  "poll_all (one_gpu st cd) demo_answers (one_gpu st cd') 0 = Some (one_gpu Ok cd')"
  by (simp add: poll_all_def poll_targets_def apply_updates_def update_pool_def apply_result_def
      demo_answers_def ok_body_def one_gpu_def parse_status_def)

lemma demo_round: "finished_round (one_gpu st cd) demo_answers"
  by (simp add: finished_round_def poll_targets_def demo_answers_def one_gpu_def)

lemma demo_targets: "poll_targets (one_gpu st cd) \<noteq> []"
  by (simp add: poll_targets_def one_gpu_def)

lemma demo_reach: "reach 0 demo_trace (idle (one_gpu Ok None))"
  unfolding reach_def demo_trace_def
  by (rule steps_Cons[where s' = "idle (default_snapshot 0)\<lparr>dns_cur := Some (default_snapshot 0)\<rparr>"]
      steps_Cons[where s' = "idle (one_gpu Unknown None)"]
      steps_Cons[where s' = "idle (one_gpu Unknown None)\<lparr>poll_round := Some (one_gpu Unknown None)\<rparr>"]
      steps_Cons[where s' = "idle (one_gpu Unknown None)\<lparr>poll_round := Some (one_gpu Unknown None),
        poll_cur := Some (demo_answers, one_gpu Unknown None)\<rparr>"]
      steps_Cons[where s' = "idle (one_gpu Ok None)"] steps_nil;
    simp add: step_simps initial_system_def idle_def demo_merge demo_round demo_targets demo_poll)+

definition racing :: "pool_snapshot \<Rightarrow> system" where
  "racing x = (idle x)\<lparr>poll_round := Some (one_gpu Ok None), poll_cur := Some (demo_answers, one_gpu Ok None)\<rparr>"

lemma racing_reach: "reach 0 (demo_trace @ [PollStart] @ [PollLoad demo_answers]) (racing (one_gpu Ok None))"
proof -
  have "step (idle (one_gpu Ok None)) PollStart ((idle (one_gpu Ok None))\<lparr>poll_round := Some (one_gpu Ok None)\<rparr>)"
    by (simp add: step_simps idle_def demo_targets)
  moreover have "step ((idle (one_gpu Ok None))\<lparr>poll_round := Some (one_gpu Ok None)\<rparr>)
      (PollLoad demo_answers) (racing (one_gpu Ok None))"
    by (simp add: step_simps idle_def racing_def demo_round)
  ultimately show ?thesis using demo_reach unfolding reach_def append_assoc[symmetric]
    by (blast intro: steps_snoc)
qed

lemma demo_trip:
  "step (racing (one_gpu Ok None)) (Tripped (one_gpu Ok None) demo_addr 100 (clock_at 0)) (racing (one_gpu Ok (Some 100)))"
proof -
  have "trip (one_gpu Ok None) (one_gpu Ok None) demo_addr 100 (clock_at 0) = Some (one_gpu Ok (Some 100))"
    by (simp add: trip_def already_cooled_def instant_add_def trip_next_def one_gpu_def
        is_in_cooldown_def time_defs clock_at_def)
  then show ?thesis by (auto simp: step_simps racing_def idle_def)
qed

lemma demo_lost: "step (racing (one_gpu Ok (Some 100))) PollStore (idle (one_gpu Ok None))"
  by (simp add: step_simps racing_def idle_def demo_poll)

section \<open>Properties\<close>

text \<open>C30: in every reachable state, however the tasks interleave, every entry of the GPU vector
  is tagged as a GPU and every entry of the CPU vector as a CPU, in the cell and in every
  snapshot a task is about to store.\<close>
theorem pools_stay_typed:
  assumes "reach t0 ls s"
  shows "typed_pool Gpu (gpu (cell s)) \<and> typed_pool Cpu (cpu (cell s))"
proof -
  have "cell s \<in> snapshots s" by (simp add: snapshots_def)
  from reach_typed[OF assms this] show ?thesis by (simp add: typed_snapshot_def)
qed

lemma pools_stay_typed_witness: "typed_pool Gpu (gpu (cell (idle (one_gpu Ok None))))"
  using pools_stay_typed[OF demo_reach] by blast

text \<open>The policy only ever picks an upstream that a DNS answer for its pool had before, and
  that answered an earlier health poll with a 2xx body of status ok, warn, loading or idle.\<close>
lemma picked_was_discovered_and_polled:
  assumes "reach t0 ls s" and "pick (cell s) now = Some (a, t)"
  shows "resolved_in ls t a \<and> answered_in ls a"
proof -
  have "cell s \<in> snapshots s" by (simp add: snapshots_def)
  from reach_sourced[OF assms(1) this] have src: "sourced ls (cell s)" .
  obtain u where "u \<in> set (pool_of t (cell s))" "addr u = a" "routable u now"
    using assms(2) by (rule pick_pool_of)
  with src show ?thesis by (auto simp: sourced_def routable_iff)
qed

lemma picked_was_discovered_and_polled_witness:
  "resolved_in demo_trace Gpu demo_addr \<and> answered_in demo_trace demo_addr"
proof -
  have "pick (cell (idle (one_gpu Ok None))) 0 = Some (demo_addr, Gpu)"
    by (simp add: idle_def one_gpu_def pick_def pick_ok_def is_ok_eligible_def is_in_cooldown_def)
  from picked_was_discovered_and_polled[OF demo_reach this] show ?thesis .
qed

text \<open>C24: a trip is lost when a polling round is between its load and its store: there is a
  reachable state in which a GPU has just been tripped for 100 ns and is not picked, and the
  next store of the poller, at the same instant, makes the policy pick it again.\<close>
theorem poll_store_loses_trip:
  "\<exists>ls s1 s2 x c. reach 0 (ls @ [Tripped x demo_addr 100 c]) s1 \<and> step s1 PollStore s2 \<and>
     clock s1 = 0 \<and> clock s2 = 0 \<and>
     pick (cell s1) 0 = None \<and> pick (cell s2) 0 = Some (demo_addr, Gpu)"
proof (intro exI conjI)
  show "reach 0 ((demo_trace @ [PollStart] @ [PollLoad demo_answers]) @ [Tripped (one_gpu Ok None) demo_addr 100 (clock_at 0)])
      (racing (one_gpu Ok (Some 100)))"
    using racing_reach demo_trip unfolding reach_def by (rule steps_snoc)
  show "step (racing (one_gpu Ok (Some 100))) PollStore (idle (one_gpu Ok None))" by (rule demo_lost)
qed (simp_all add: racing_def idle_def one_gpu_def pick_def pick_ok_def pick_loading_def
    is_ok_eligible_def is_loading_eligible_def is_in_cooldown_def)

end
