(* ===== verification/Net_Text.thy ===== *)
theory Net_Text
  imports Net
begin

text \<open>
  What the text of a socket address says about the address. The proxy puts that text into
  upstream URLs, so the network sees an upstream by its text only: two addresses have the same
  text exactly when they are the same endpoint, that is equal but for the flow information of
  an IPv6 address, which \<open>Display\<close> leaves out.
\<close>

section \<open>Hexadecimal digits\<close>

lemma of_char_hex: "d < 16 \<Longrightarrow> (of_char (hex_char d) :: nat) = (if d < 10 then 48 + d else 87 + d)"
  by (simp add: hex_char_def)

lemma hex_char_inj: "d < 16 \<Longrightarrow> e < 16 \<Longrightarrow> hex_char d = hex_char e \<longleftrightarrow> d = e"
proof
  assume "d < 16" "e < 16" "hex_char d = hex_char e"
  then have "(if d < 10 then 48 + d else 87 + d) = (if e < 10 then 48 + e else 87 + e)"
    by (metis of_char_hex)
  then show "d = e" by (simp split: if_splits)
qed simp

lemma hex_char_neq:
  assumes "d < 16"
  shows "hex_char d \<notin> {CHR '':'', CHR ''.'', CHR ''%'', CHR '']'', CHR ''[''}"
  using of_char_hex[OF assms] assms by (auto split: if_splits)

lemma show_hex_ne [simp]: "show_hex n \<noteq> []" "[] \<noteq> show_hex n"
  by (subst show_hex.simps, simp)+

lemma show_hex_chars: "set (show_hex n) \<inter> {CHR '':'', CHR ''.'', CHR ''%'', CHR '']'', CHR ''[''} = {}"
proof (induction n rule: show_hex.induct)
  case (1 n)
  show ?case
  proof (cases "n < 16")
    case True
    then show ?thesis using hex_char_neq[of n] by (subst show_hex.simps) auto
  next
    case False
    then show ?thesis using 1 hex_char_neq[of "n mod 16"] by (subst show_hex.simps) auto
  qed
qed

lemma show_hex_inj: "show_hex m = show_hex n \<longleftrightarrow> m = n"
proof
  show "show_hex m = show_hex n \<Longrightarrow> m = n"
  proof (induction m arbitrary: n rule: show_hex.induct)
    case (1 m)
    have m: "show_hex m = (if m < 16 then [hex_char m] else show_hex (m div 16) @ [hex_char (m mod 16)])"
      and n: "show_hex n = (if n < 16 then [hex_char n] else show_hex (n div 16) @ [hex_char (n mod 16)])"
      by (rule show_hex.simps)+
    show ?case
    proof (cases "m < 16")
      case True
      then show ?thesis using 1(2) hex_char_inj unfolding m n by (auto split: if_splits)
    next
      case False
      then have "\<not> n < 16" "show_hex (m div 16) = show_hex (n div 16)" "m mod 16 = n mod 16"
        using 1(2) hex_char_inj[of "m mod 16" "n mod 16"] unfolding m n by (auto split: if_splits)
      then show ?thesis using 1(1)[OF False] by (metis div_mult_mod_eq)
    qed
  qed
qed simp

section \<open>Fields\<close>

text \<open>The parts of a text between the colons.\<close>

fun fields :: "string \<Rightarrow> string list" where
  "fields [] = [[]]"
| "fields (c # s) =
     (if c = CHR '':'' then [] # fields s
      else (case fields s of f # fs \<Rightarrow> (c # f) # fs | [] \<Rightarrow> [[c]]))"

lemma fields_ne [simp]: "fields s \<noteq> []"
  by (induction s) (auto split: list.split)

lemma fields_plain: "CHR '':'' \<notin> set s \<Longrightarrow> fields s = [s]"
  by (induction s) auto

lemma fields_sep: "CHR '':'' \<notin> set a \<Longrightarrow> fields (a @ CHR '':'' # s) = a # fields s"
  by (induction a) auto

lemma hex_no_colon [simp]: "CHR '':'' \<notin> set (show_hex n)"
  using show_hex_chars by blast

definition hexes :: "u16 list \<Rightarrow> string list" where
  "hexes xs = (if xs = [] then [[]] else map (\<lambda>x. show_hex (unat x)) xs)"

lemma fields_fmt: "fields (fmt_subslice xs) = hexes xs"
  by (induction xs rule: fmt_subslice.induct) (auto simp: fields_sep fields_plain hexes_def)

lemma fields_fmt_sep: "fields (fmt_subslice xs @ CHR '':'' # s) = hexes xs @ fields s"
  by (induction xs rule: fmt_subslice.induct) (auto simp: fields_sep hexes_def)

lemma map_hex_inj: "map (\<lambda>x. show_hex (unat x)) xs = map (\<lambda>x. show_hex (unat x)) ys \<longleftrightarrow> xs = ys"
  for xs ys :: "u16 list"
proof -
  have "inj (\<lambda>x :: u16. show_hex (unat x))" by (simp add: inj_def show_hex_inj unsigned_word_eqI)
  then show ?thesis by (simp add: inj_map_eq_map)
qed

lemma hexes_inj: "hexes xs = hexes ys \<longleftrightarrow> xs = ys"
  by (auto simp: hexes_def map_hex_inj)

lemma hexes_empty [simp]: "[] \<in> set (hexes xs) \<longleftrightarrow> xs = []"
  by (auto simp: hexes_def)

text \<open>No field of a hexadecimal part has a dot, a percent sign or a bracket.\<close>

lemma hexes_chars: "f \<in> set (hexes xs) \<Longrightarrow> set f \<inter> {CHR ''.'', CHR ''%'', CHR '']''} = {}"
  using show_hex_chars by (fastforce simp: hexes_def split: if_splits)

lemma split_unique:
  "x \<notin> set a \<Longrightarrow> x \<notin> set b \<Longrightarrow> a @ x # u = b @ x # v \<Longrightarrow> a = b \<and> u = v"
proof (induction a arbitrary: b)
  case Nil
  then show ?case by (cases b) auto
next
  case (Cons y a)
  then show ?case by (cases b) auto
qed

lemma compressed_inj:
  assumes "hexes a @ [] # hexes b = hexes c @ [] # hexes d"
  shows "a = c \<and> b = d"
proof (cases "a = []")
  case True
  then have "c = []"
    using assms by (cases c) (auto simp: hexes_def)
  then show ?thesis using True assms by (simp add: hexes_def[of "[]"] hexes_inj)
next
  case False
  then have "c \<noteq> []"
    using assms by (cases a) (auto simp: hexes_def[of "[]"] hexes_def[of "_ # _"])
  then show ?thesis using False split_unique[OF _ _ assms] by (simp add: hexes_inj)
qed

section \<open>The run of zeros\<close>

definition zeros :: "u16 list \<Rightarrow> nat \<Rightarrow> nat \<Rightarrow> bool" where
  "zeros xs s l \<longleftrightarrow> s + l \<le> length xs \<and> take l (drop s xs) = replicate l 0"

lemma zeros_0 [simp]: "zeros xs s 0 \<longleftrightarrow> s \<le> length xs"
  by (simp add: zeros_def)

lemma zeros_append: "zeros xs s l \<Longrightarrow> zeros (xs @ ys) s l"
  by (simp add: zeros_def)

lemma zeros_snoc: "zeros xs s l \<Longrightarrow> s + l = length xs \<Longrightarrow> zeros (xs @ [0]) s (Suc l)"
  by (auto simp: zeros_def replicate_append_same)

lemma zeros_split: "zeros xs s l \<Longrightarrow> xs = take s xs @ replicate l 0 @ drop (s + l) xs"
  unfolding zeros_def by (metis append_take_drop_id drop_drop add.commute)

lemma zero_run_zeros:
  assumes "zero_run (length xs) (cs, cl) (ls, ll) ys = (s, l)"
    and "zeros xs ls ll" and "zeros xs cs cl" and "cl = 0 \<or> cs + cl = length xs"
  shows "zeros (xs @ ys) s l"
  using assms
proof (induction ys arbitrary: xs cs cl ls ll)
  case (Cons y ys)
  show ?case
  proof (cases "y = 0")
    case True
    define cs' where "cs' = (if cl = 0 then length xs else cs)"
    have z: "zeros (xs @ [0]) cs' (Suc cl)" "cs' + Suc cl = length (xs @ [0])"
      using zeros_snoc[of xs cs' cl] Cons(4,5) by (auto simp: cs'_def)
    show ?thesis
      using Cons(1)[of "xs @ [0]" cs' "Suc cl" "if ll < Suc cl then cs' else ls" "if ll < Suc cl then Suc cl else ll"]
        Cons(2,3) z zeros_append[of xs ls ll "[0]"] True
      by (auto simp: Let_def cs'_def split: if_splits)
  next
    case False
    then show ?thesis
      using Cons(1)[of "xs @ [y]" 0 0 ls ll] Cons(2,3) zeros_append[of xs ls ll "[y]"] by simp
  qed
qed simp

section \<open>IPv6 addresses\<close>

lemma length_segments [simp]: "length (segments w) = 8"
  by (simp add: segments_def)

lemma segment_bit:
  assumes "segments w ! (7 - n div 16) = segments v ! (7 - n div 16)" and "n < 128"
  shows "bit w n = bit v n"
proof -
  define k where "k = n div 16"
  have k: "k < 8" "n = 16 * k + n mod 16" using assms(2) by (simp_all add: k_def)
  then have "[0..<8] ! (7 - k) = 7 - k" by (subst nth_upt) simp_all
  then have "segments u ! (7 - k) = ucast (drop_bit (16 * k) u)" for u
    using k(1) by (simp add: segments_def)
  with assms(1) have "(ucast (drop_bit (16 * k) w) :: u16) = ucast (drop_bit (16 * k) v)"
    unfolding k_def[symmetric] by metis
  then have "bit (ucast (drop_bit (16 * k) w) :: u16) (n mod 16) = bit (ucast (drop_bit (16 * k) v) :: u16) (n mod 16)"
    by simp
  then show ?thesis using k(2) by (simp add: bit_simps)
qed

lemma segments_inj: "segments w = segments v \<longleftrightarrow> w = v"
  by (auto intro!: bit_word_eqI segment_bit)

text \<open>The four octets at the end of a mapped address.\<close>

definition mapped :: "128 word \<Rightarrow> bool" where
  "mapped w \<longleftrightarrow> take 6 (segments w) = [0, 0, 0, 0, 0, 0xffff]"

definition low_ipv4 :: "128 word \<Rightarrow> string" where
  "low_ipv4 w = show_ipv4 (ucast (drop_bit 24 w)) (ucast (drop_bit 16 w)) (ucast (drop_bit 8 w)) (ucast w)"

lemma show_ipv4_inj:
  assumes "show_ipv4 a b c d = show_ipv4 a' b' c' d'"
  shows "a = a' \<and> b = b' \<and> c = c' \<and> d = d'"
  using show_addr_V4_inj[of a b c d 0 a' b' c' d' 0] assms by simp

lemma low_ipv4_inj:
  assumes "low_ipv4 w = low_ipv4 v" and "n < 32"
  shows "bit w n = bit v n"
proof -
  have b: "bit w (8 * k + m) = bit v (8 * k + m)"
    if "(ucast (drop_bit (8 * k) w) :: u8) = ucast (drop_bit (8 * k) v)" "m < 8" for k m
  proof -
    have "bit (ucast (drop_bit (8 * k) w) :: u8) m = bit (ucast (drop_bit (8 * k) v) :: u8) m"
      using that(1) by simp
    then show ?thesis using that(2) by (simp add: bit_simps)
  qed
  have o: "(ucast (drop_bit (8 * 3) w) :: u8) = ucast (drop_bit (8 * 3) v)"
    "(ucast (drop_bit (8 * 2) w) :: u8) = ucast (drop_bit (8 * 2) v)"
    "(ucast (drop_bit (8 * 1) w) :: u8) = ucast (drop_bit (8 * 1) v)"
    "(ucast (drop_bit (8 * 0) w) :: u8) = ucast (drop_bit (8 * 0) v)"
    using show_ipv4_inj[OF assms(1)[unfolded low_ipv4_def]] by simp_all
  have "n div 8 \<in> {0, 1, 2, 3}" using assms(2) by auto
  then have "(ucast (drop_bit (8 * (n div 8)) w) :: u8) = ucast (drop_bit (8 * (n div 8)) v)"
    using o by (elim insertE) (simp_all only:, simp)
  from b[OF this, of "n mod 8"] show ?thesis by simp
qed

lemma mapped_inj:
  assumes "mapped w" and "mapped v" and "low_ipv4 w = low_ipv4 v"
  shows "w = v"
proof (rule bit_word_eqI)
  fix n assume n: "n < LENGTH(128)"
  show "bit w n = bit v n"
  proof (cases "n < 32")
    case True
    then show ?thesis by (rule low_ipv4_inj[OF assms(3)])
  next
    case False
    have "take 6 (segments w) ! (7 - n div 16) = take 6 (segments v) ! (7 - n div 16)"
      using assms(1,2) by (simp add: mapped_def)
    then have "segments w ! (7 - n div 16) = segments v ! (7 - n div 16)" using False by simp
    then show ?thesis using n by (intro segment_bit) simp_all
  qed
qed

text \<open>The three forms of the text.\<close>

lemma show_ipv6_cases [case_names mapped compressed full]:
  obtains (mapped) "mapped w" "show_ipv6 w = ''::ffff:'' @ low_ipv4 w"
  | (compressed) pre l post where "\<not> mapped w" "segments w = pre @ replicate l 0 @ post" "1 < l"
      "show_ipv6 w = fmt_subslice pre @ ''::'' @ fmt_subslice post"
  | (full) "\<not> mapped w" "show_ipv6 w = fmt_subslice (segments w)"
proof (cases "mapped w")
  case True
  then show thesis using that(1) by (simp add: show_ipv6_def mapped_def low_ipv4_def Let_def)
next
  case False
  obtain s l where sl: "zero_run 0 (0, 0) (0, 0) (segments w) = (s, l)" by fastforce
  then have "zeros (segments w) s l" using zero_run_zeros[of "[]" 0 0 0 0 "segments w" s l] by simp
  from zeros_split[OF this] show thesis
    using that(2)[of "take s (segments w)" l "drop (s + l) (segments w)"] that(3) False sl
    by (cases "1 < l") (simp_all add: show_ipv6_def mapped_def Let_def)
qed

lemma low_ipv4_plain: "CHR '':'' \<notin> set (low_ipv4 w)" "CHR ''.'' \<in> set (low_ipv4 w)"
  by (simp_all add: low_ipv4_def show_ipv4_def show_nat_no_sep)

lemma fields_low [simp]: "fields (low_ipv4 w) = [low_ipv4 w]"
  by (simp add: fields_plain low_ipv4_plain)

lemma fields_mapped: "fields (''::ffff:'' @ low_ipv4 w) = [[], [], ''ffff'', low_ipv4 w]"
  by simp

lemma fields_compressed:
  "fields (fmt_subslice pre @ CHR '':'' # CHR '':'' # fmt_subslice post) = hexes pre @ [] # hexes post"
  using fields_fmt_sep[of pre "CHR '':'' # fmt_subslice post"] by (simp add: fields_fmt)

lemma low_ipv4_ne: "low_ipv4 w \<noteq> []"
  using low_ipv4_plain(2)[of w] by auto

lemma hexes_low: "low_ipv4 w \<notin> set (hexes xs)"
  using hexes_chars low_ipv4_plain(2) by blast

lemma show_ipv6_inj: "show_ipv6 w = show_ipv6 v \<longleftrightarrow> w = v"
proof
  assume eq: "show_ipv6 w = show_ipv6 v"
  have seg: "segments w \<noteq> []" "segments v \<noteq> []"
    using length_segments by (metis list.size(3) zero_neq_numeral)+
  note fs = fields_mapped fields_compressed fields_fmt
  show "w = v"
  proof (cases w rule: show_ipv6_cases)
    case mapped
    note w = this
    then have f: "fields (show_ipv6 v) = [[], [], ''ffff'', low_ipv4 w]" using eq by (simp add: fields_mapped)
    then have mem: "low_ipv4 w \<in> set (fields (show_ipv6 v))" by simp
    show ?thesis
    proof (cases v rule: show_ipv6_cases)
      case mapped
      then show ?thesis using w f by (auto simp: fields_mapped intro: mapped_inj)
    qed (use mem hexes_low low_ipv4_ne in \<open>auto simp: fs\<close>)
  next
    case (compressed pre l post)
    note w = this
    then have f: "fields (show_ipv6 v) = hexes pre @ [] # hexes post" using eq by (simp add: fs)
    show ?thesis
    proof (cases v rule: show_ipv6_cases)
      case mapped
      then have "low_ipv4 v \<in> set (hexes pre @ [] # hexes post)" unfolding f[symmetric] by (simp add: mapped)
      then show ?thesis using hexes_low low_ipv4_ne by auto
    next
      case (compressed pre' l' post')
      then have "pre = pre' \<and> post = post'" using f by (intro compressed_inj) (simp add: fs)
      moreover from this have "l = l'" using w(2) compressed(2) length_segments
        by (metis add_left_cancel add_right_cancel length_append length_replicate)
      ultimately show ?thesis using w(2) compressed(2) segments_inj by metis
    next
      case full
      then have "[] \<in> set (hexes (segments v))" using f by (simp add: fs)
      then show ?thesis using seg by simp
    qed
  next
    case full
    note w = this
    then have f: "fields (show_ipv6 v) = hexes (segments w)" using eq by (simp add: fs)
    show ?thesis
    proof (cases v rule: show_ipv6_cases)
      case mapped
      then have "[] \<in> set (hexes (segments w))" using f[symmetric] by (simp add: fields_mapped)
      then show ?thesis using seg by simp
    next
      case (compressed pre' l' post')
      then have "[] \<in> set (hexes (segments w))" using f[symmetric] by (simp add: fs)
      then show ?thesis using seg by simp
    next
      case full
      then show ?thesis using f by (simp add: fs hexes_inj segments_inj)
    qed
  qed
qed simp

section \<open>Socket addresses\<close>

text \<open>The same address but for the flow information.\<close>

fun same_endpoint :: "socket_addr \<Rightarrow> socket_addr \<Rightarrow> bool" where
  "same_endpoint (V6 w p f s) b \<longleftrightarrow> (\<exists>g. b = V6 w p g s)"
| "same_endpoint a b \<longleftrightarrow> b = a"

lemma show_nat_no_char: "digit_val c = None \<Longrightarrow> c \<notin> set (show_nat n)"
proof (induction n rule: show_nat.induct)
  case (1 n)
  have "digit_char d \<noteq> c" if "d < 10" for d using 1(2) that by (metis digit_val_digit_char option.distinct(1))
  then show ?case using 1 by (subst show_nat.simps) (auto simp: eq_commute[of c])
qed

lemma show_nat_plain:
  "CHR ''%'' \<notin> set (show_nat n)" "CHR '']'' \<notin> set (show_nat n)"
  by (rule show_nat_no_char; simp add: digit_val_def)+

lemma fmt_chars: "c \<in> {CHR ''%'', CHR '']''} \<Longrightarrow> c \<notin> set (fmt_subslice xs)"
  using show_hex_chars by (induction xs rule: fmt_subslice.induct) fastforce+

lemma show_ipv6_plain: "c \<in> {CHR ''%'', CHR '']''} \<Longrightarrow> c \<notin> set (show_ipv6 w)"
  by (cases w rule: show_ipv6_cases)
    (auto simp: fmt_chars low_ipv4_def show_ipv4_def show_nat_plain)

lemma show_addr_V6:
  "show_addr (V6 w p f s) =
     CHR ''['' # (show_ipv6 w @ (if s = 0 then [] else CHR ''%'' # show_nat (unat s))) @
     CHR '']'' # CHR '':'' # show_nat (unat p)"
  by simp

lemma show_addr_eq_V6:
  assumes "show_addr (V6 w p f s) = show_addr (V6 w' p' f' s')"
  shows "w = w' \<and> p = p' \<and> s = s'"
proof -
  let ?b = "\<lambda>w s :: u32. show_ipv6 w @ (if s = 0 then [] else CHR ''%'' # show_nat (unat s))"
  have no: "CHR '']'' \<notin> set (?b w s)" for w s
    using show_ipv6_plain show_nat_plain by auto
  have b: "?b w s = ?b w' s'" and "show_nat (unat p) = show_nat (unat p')"
    using split_unique[OF no no, of w s "CHR '':'' # show_nat (unat p)" w' s'] assms
    unfolding show_addr_V6 by auto
  then have "p = p'" by (intro show_nat_word_inj) simp_all
  moreover have "show_ipv6 w = show_ipv6 w' \<and> s = s'"
  proof (cases "s = 0 \<or> s' = 0")
    case True
    then show ?thesis using b show_ipv6_plain[of "CHR ''%''" w] show_ipv6_plain[of "CHR ''%''" w']
      by (auto split: if_splits) (metis in_set_conv_decomp)+
  next
    case False
    then have "show_ipv6 w = show_ipv6 w' \<and> show_nat (unat s) = show_nat (unat s')"
      using b by (intro split_unique[of "CHR ''%''"] show_ipv6_plain) auto
    then show ?thesis using show_nat_word_inj[of s s'] by simp
  qed
  ultimately show ?thesis using show_ipv6_inj by simp
qed

lemma show_addr_eq_iff: "show_addr a = show_addr b \<longleftrightarrow> same_endpoint a b"
proof
  assume eq: "show_addr a = show_addr b"
  show "same_endpoint a b"
  proof (cases a)
    case (V4 a1 a2 a3 a4 p)
    then show ?thesis using eq show_addr_V4_inj show_addr_kind
      by (cases b) (metis same_endpoint.simps(2))+
  next
    case (V6 w p f s)
    then show ?thesis using eq show_addr_eq_V6 show_addr_kind
      by (cases b) (metis same_endpoint.simps(1))+
  qed
qed (cases a; auto)

end
