(* ===== verification/Cooldown.thy ===== *)
theory Cooldown
  imports Pool_System Net_Text
begin

text \<open>
  How long a cooldown lasts in the running system: what discovery, polling and further trips do
  to the entries of a cooled upstream. An upstream is followed as an endpoint, because requests
  reach it by the text of its address (Net_Text).
\<close>

section \<open>Cooled entries\<close>

text \<open>
  The address is in the vector, alone of its endpoint, and the ends of the cooldowns of all its
  entries satisfy \<open>Q\<close>.
\<close>

definition cooled_for :: "(instant \<Rightarrow> bool) \<Rightarrow> pool_type \<Rightarrow> socket_addr \<Rightarrow> pool_snapshot \<Rightarrow> bool" where
  "cooled_for Q t a x \<longleftrightarrow>
     a \<in> set (addrs_of (pool_of t x)) \<and>
     (\<forall>u\<in>set (pool_of t x). same_endpoint a (addr u) \<longrightarrow>
        addr u = a \<and> (case cooldown_until u of None \<Rightarrow> False | Some v \<Rightarrow> Q v))"

definition guarded :: "pool_type \<Rightarrow> socket_addr \<Rightarrow> instant \<Rightarrow> pool_snapshot \<Rightarrow> bool" where
  "guarded t a T x \<longleftrightarrow> cooled_for (\<lambda>v. T \<le> v) t a x"

definition windowed :: "pool_type \<Rightarrow> socket_addr \<Rightarrow> instant \<Rightarrow> pool_snapshot \<Rightarrow> bool" where
  "windowed t a T x \<longleftrightarrow> cooled_for (\<lambda>v. v = T) t a x"

lemma same_endpoint_refl [simp]: "same_endpoint a a"
  by (cases a) simp_all

lemma cooled_entry:
  assumes "cooled_for Q t a x" and "u \<in> set (pool_of t x)" and "addr u = a"
  obtains v where "cooldown_until u = Some v" and "Q v"
  using assms by (force simp: cooled_for_def split: option.splits)

lemma cooled_mono: "cooled_for Q t a x \<Longrightarrow> (\<And>v. Q v \<Longrightarrow> R v) \<Longrightarrow> cooled_for R t a x"
  by (auto simp: cooled_for_def split: option.splits)

lemma windowed_guarded: "windowed t a T x \<Longrightarrow> guarded t a T x"
  unfolding windowed_def guarded_def by (erule cooled_mono) simp

text \<open>A step after which discovery still knows the address, and no other of its endpoint.\<close>

fun keeps :: "pool_type \<Rightarrow> socket_addr \<Rightarrow> label \<Rightarrow> bool" where
  "keeps t a (DnsStore g c clk) =
     (case answer_for t g c of Failed \<Rightarrow> True | Resolved as \<Rightarrow> a \<in> set as \<and> (\<forall>b\<in>set as. same_endpoint a b \<longrightarrow> b = a))"
| "keeps t a _ = True"

section \<open>Steps\<close>

lemma cooled_merge:
  assumes "cooled_for Q t a x" and "keeps t a (DnsStore g c clk)"
  shows "cooled_for Q t a (merge x g c clk)"
proof -
  let ?p = "pool_of t x" and ?r = "answer_for t g c"
  have eq: "pool_of t (merge x g c clk) =
      merge_pool ?p ?r t (case t of Gpu \<Rightarrow> mc_gpu clk | Cpu \<Rightarrow> mc_cpu clk)"
    by (cases t) simp_all
  have addrs: "a \<in> set (addrs_of (pool_of t (merge x g c clk)))"
    "\<forall>b\<in>set (addrs_of (pool_of t (merge x g c clk))). same_endpoint a b \<longrightarrow> b = a"
    unfolding eq merge_pool_addrs using assms by (auto simp: cooled_for_def split: resolve_result.splits)
  have "case cooldown_until u of None \<Rightarrow> False | Some v \<Rightarrow> Q v"
    if "u \<in> set (pool_of t (merge x g c clk))" "addr u = a" for u
  proof -
    have "u \<in> set ?p"
      using merge_pool_known[OF that(1)[unfolded eq]] that(2) assms(1) by (auto simp: cooled_for_def)
    then show ?thesis using that(2) assms(1) by (auto simp: cooled_for_def)
  qed
  with addrs show ?thesis by (auto simp: cooled_for_def)
qed

lemma cooled_poll: "cooled_for Q t a x \<Longrightarrow> cooled_for Q t a (apply_updates x rs now)"
  by (cases t) (auto simp: cooled_for_def update_pool_def)

text \<open>A trip leaves a cooled upstream alone unless it comes after the cooldown.\<close>

lemma cooled_trip:
  assumes "cooled_for Q t a x" and "trip loaded x b d c = Some y" and "monotone_clock c"
    and "\<And>v. b = a \<Longrightarrow> Q v \<Longrightarrow> tc_updated c < v"
  shows "cooled_for Q t a y"
  using assms(2)
proof (cases rule: trip_cases)
  case tripped
  let ?now = "case t of Gpu \<Rightarrow> tc_gpu c | Cpu \<Rightarrow> tc_cpu c"
  have eq: "pool_of t y = fst (trip_pool (pool_of t x) b (tc_start c + d) ?now)"
    by (cases t) (simp_all add: tripped)
  have now: "?now \<le> tc_updated c" using assms(3) by (cases t) (auto simp: monotone_clock_def)
  have "a \<in> set (addrs_of (pool_of t y))"
    unfolding eq trip_pool_fields(1) using assms(1) by (simp add: cooled_for_def)
  moreover have "addr u = a \<and> (case cooldown_until u of None \<Rightarrow> False | Some v \<Rightarrow> Q v)"
    if u: "u \<in> set (pool_of t y)" "same_endpoint a (addr u)" for u
  proof -
    obtain i where i: "i < length (pool_of t x)" "u = pool_of t y ! i"
      using u(1) unfolding eq in_set_conv_nth by auto
    note nth = trip_pool_nth[OF i(1), of b "tc_start c + d" ?now]
    have "addr (pool_of t x ! i) = addr u"
      using i nth unfolding eq by auto
    moreover have "pool_of t x ! i \<in> set (pool_of t x)" using i(1) by simp
    ultimately have a: "addr (pool_of t x ! i) = a"
      using assms(1) u(2) unfolding cooled_for_def by metis
    then obtain v where v: "cooldown_until (pool_of t x ! i) = Some v" "Q v"
      using cooled_entry[OF assms(1)] i(1) by (metis nth_mem)
    have "is_in_cooldown (pool_of t x ! i) ?now" if "b = a"
      using assms(4)[OF that v(2)] now v(1) by (simp add: is_in_cooldown_def)
    then have "u = pool_of t x ! i"
      using i a nth unfolding eq by auto
    then show ?thesis using v a by simp
  qed
  ultimately show ?thesis by (simp add: cooled_for_def)
qed (use assms(1) in simp)

lemma steps_cooled:
  assumes "steps s ls s'" and "\<forall>x\<in>snapshots s. cooled_for Q t a x"
    and "list_all (keeps t a) ls"
    and "\<And>loaded d c v. Tripped loaded a d c \<in> set ls \<Longrightarrow> Q v \<Longrightarrow> tc_updated c < v"
  shows "\<forall>x\<in>snapshots s'. cooled_for Q t a x"
  using assms
proof (induction rule: steps.induct)
  case (steps_snoc s ls s' l s'')
  have IH: "cooled_for Q t a x" if "x \<in> snapshots s'" for x
  proof -
    have "\<forall>x\<in>snapshots s'. cooled_for Q t a x"
    proof (rule steps_snoc(3)[OF steps_snoc(4)])
      show "list_all (keeps t a) ls" using steps_snoc(5) by simp
      show "tc_updated c < v" if "Tripped loaded a d c \<in> set ls" "Q v" for loaded d c v
        using steps_snoc(6) that by (metis UnI1 set_append)
    qed
    then show ?thesis using that by blast
  qed
  show ?case
  proof
    fix x assume "x \<in> snapshots s''"
    with steps_snoc(2) show "cooled_for Q t a x"
    proof (cases rule: step_snapshots)
      case (dns g c clk current)
      then show ?thesis using cooled_merge IH steps_snoc(5) by simp
    next
      case (poll ts current)
      then have "current \<in> snapshots s'" by (force simp: snapshots_def)
      with poll show ?thesis using cooled_poll IH by blast
    next
      case (trip loaded b d c)
      have "cell s' \<in> snapshots s'" by (simp add: snapshots_def)
      then show ?thesis using cooled_trip[OF IH trip(2,3)] steps_snoc(6) trip(1) by auto
    qed (use IH in blast)
  qed
qed simp

text \<open>Every trip of a run read the clock before the end of the run.\<close>

lemma steps_trip_clock:
  "steps s ls s' \<Longrightarrow> Tripped loaded a d c \<in> set ls \<Longrightarrow> tc_updated c \<le> clock s'"
proof (induction rule: steps.induct)
  case (steps_snoc s ls s' l s'')
  show ?case
  proof (cases "l = Tripped loaded a d c")
    case True
    with steps_snoc(2) show ?thesis by (auto simp: step_simps)
  next
    case False
    then show ?thesis using steps_snoc(3,4) step_clock[OF steps_snoc(2)] by simp
  qed
qed simp

lemma steps_guarded:
  assumes "steps s ls s'" and "\<forall>x\<in>snapshots s. guarded t a T x"
    and "list_all (keeps t a) ls" and "clock s' < T"
  shows "\<forall>x\<in>snapshots s'. guarded t a T x"
  using steps_cooled[OF assms(1) _ assms(3)] assms(2,4) steps_trip_clock[OF assms(1)]
  unfolding guarded_def by fastforce

text \<open>Once an upstream is cooled until \<open>T\<close> in the cell and in every snapshot that a task is
  about to store, no interleaving of discovery, polling and further trips lets the policy
  pick it before \<open>T\<close>, as long as discovery keeps resolving its address.\<close>
lemma cooldown_respected:
  assumes "steps s ls s'" and "\<forall>x\<in>snapshots s. guarded t a T x"
    and "list_all (keeps t a) ls" and "clock s' < T"
  shows "pick (cell s') (clock s') \<noteq> Some (a, t)"
proof
  assume "pick (cell s') (clock s') = Some (a, t)"
  then obtain u where u: "u \<in> set (pool_of t (cell s'))" "addr u = a" "routable u (clock s')"
    by (rule pick_pool_of)
  have "cell s' \<in> snapshots s'" by (simp add: snapshots_def)
  with steps_guarded[OF assms] have "guarded t a T (cell s')" by blast
  then obtain v where "cooldown_until u = Some v" "T \<le> v" using u(1,2) unfolding guarded_def by (rule cooled_entry)
  then show False using u(3) assms(4) by (simp add: routable_iff is_in_cooldown_def)
qed

lemma cooldown_respected_witness:
  "pick (cell (idle (one_gpu Ok (Some 100)))) (clock (idle (one_gpu Ok (Some 100)))) \<noteq> Some (demo_addr, Gpu)"
proof -
  have "\<forall>x\<in>snapshots (idle (one_gpu Ok (Some 100))). guarded Gpu demo_addr 100 x"
    by (auto simp: snapshots_def idle_def guarded_def cooled_for_def one_gpu_def)
  from cooldown_respected[OF steps_nil this] show ?thesis by (simp add: idle_def)
qed

end
