(* ===== verification/Request_System.thy ===== *)
theory Request_System
  imports Handlers Cooldown
begin

text \<open>
  A request inside the running system. The other tasks of a request's world are those of
  Pool_System: the environment of the world holds what they are in the middle of and a
  script, the batches of steps they take while the request waits. Every choice of the script
  is an interleaving of discovery, polling and the trips of other requests with the request;
  a step that is not possible when its turn comes is skipped. The facts here say that a
  request is itself a run of that system: its trips are steps of it, and the upstreams it
  contacts are routable entries of states it goes through.
\<close>

section \<open>The environment of a request\<close>

record environment =
  env_dns :: "pool_snapshot option"
  env_round :: "pool_snapshot option"
  env_poll :: "((socket_addr \<times> task_result) list \<times> pool_snapshot) option"
  env_script :: "label list list"

definition sys_of :: "environment world \<Rightarrow> system" where
  "sys_of w =
     \<lparr>cell = w_pool w, clock = w_now w, dns_cur = env_dns (w_env w),
      poll_round = env_round (w_env w), poll_cur = env_poll (w_env w)\<rparr>"

text \<open>A batch run up to an instant: the labels taken and the state they lead to.\<close>

fun exec :: "instant \<Rightarrow> label list \<Rightarrow> system \<Rightarrow> label list \<times> system" where
  "exec t [] s = ([], s)"
| "exec t (l # ls) s =
     (case step_fun s l of
        Some s' \<Rightarrow>
          if clock s' \<le> t then (let (ls', s'') = exec t ls s' in (l # ls', s'')) else exec t ls s
      | None \<Rightarrow> exec t ls s)"

definition live_drift ::
  "instant \<Rightarrow> instant \<Rightarrow> pool_snapshot \<times> environment \<Rightarrow> pool_snapshot \<times> environment" where
  "live_drift t t' x =
     (let e = snd x;
          batch = (case env_script e of [] \<Rightarrow> [] | b # bs \<Rightarrow> b);
          s = snd (exec t' batch
                \<lparr>cell = fst x, clock = t, dns_cur = env_dns e, poll_round = env_round e, poll_cur = env_poll e\<rparr>)
      in (cell s, \<lparr>env_dns = dns_cur s, env_round = poll_round s, env_poll = poll_cur s,
                   env_script = tl (env_script e)\<rparr>))"

definition live :: "network \<Rightarrow> (header_map \<Rightarrow> string option) \<Rightarrow> environment runtime" where
  "live N J = \<lparr>net = N, drift = live_drift, to_json = J\<rparr>"

lemma live_sel [simp]: "net (live N J) = N" "drift (live N J) = live_drift" "to_json (live N J) = J"
  by (simp_all add: live_def)

definition scripted :: "environment world \<Rightarrow> label set" where
  "scripted w = set (concat (env_script (w_env w)))"

lemma exec_steps:
  "clock s \<le> t \<Longrightarrow>
     steps s (fst (exec t ls s)) (snd (exec t ls s)) \<and> clock (snd (exec t ls s)) \<le> t \<and>
     set (fst (exec t ls s)) \<subseteq> set ls"
proof (induction t ls s rule: exec.induct)
  case (2 t l ls s)
  show ?case
  proof (cases "step_fun s l")
    case None
    then show ?thesis using 2 by auto
  next
    case (Some s')
    then have "step s l s'" by (simp add: step_iff)
    then show ?thesis using Some 2 by (auto simp: split_beta Let_def intro: steps_Cons)
  qed
qed (simp add: steps_nil)

section \<open>Runs of the system\<close>

text \<open>
  \<open>run_of w ls w'\<close>: the system goes from \<open>w\<close> to \<open>w'\<close> by \<open>ls\<close>, and apart from the
  clock and trips all of \<open>ls\<close> comes from the script.
\<close>

definition run_of :: "environment world \<Rightarrow> label list \<Rightarrow> environment world \<Rightarrow> bool" where
  "run_of w ls w' \<longleftrightarrow>
     steps (sys_of w) ls (sys_of w') \<and> scripted w' \<subseteq> scripted w \<and>
     (\<forall>l\<in>set ls. l \<in> scripted w \<or> (\<exists>t. l = Tick t) \<or> (\<exists>x a d c. l = Tripped x a d c))"

lemma run_of_refl: "run_of w [] w"
  by (simp add: run_of_def)

lemma run_of_trans: "run_of w ls w' \<Longrightarrow> run_of w' ls' w'' \<Longrightarrow> run_of w (ls @ ls') w''"
  unfolding run_of_def by (auto intro: steps_append)

lemma run_of_clock: "run_of w ls w' \<Longrightarrow> w_now w \<le> w_now w'"
  by (auto simp: run_of_def sys_of_def dest: steps_clock)

lemma advance_run_of:
  assumes "w_now w \<le> t"
  obtains ls where "run_of w ls (advance (live N J) t w)"
proof -
  define b where "b = (case env_script (w_env w) of [] \<Rightarrow> [] | b # bs \<Rightarrow> b)"
  let ?x = "exec t b (sys_of w)" and ?w = "advance (live N J) t w"
  have ex: "steps (sys_of w) (fst ?x) (snd ?x)" "clock (snd ?x) \<le> t" "set (fst ?x) \<subseteq> set b"
    using exec_steps[of "sys_of w" t b] assms by (simp_all add: sys_of_def)
  have "sys_of ?w = (snd ?x)\<lparr>clock := t\<rparr>"
    by (simp add: advance_def live_drift_def Let_def sys_of_def b_def)
  then have "step (snd ?x) (Tick t) (sys_of ?w)" using ex(2) by (simp add: step_simps)
  with ex(1) have "steps (sys_of w) (fst ?x @ [Tick t]) (sys_of ?w)" by (rule steps_snoc)
  moreover have "set b \<subseteq> scripted w"
    by (cases "env_script (w_env w)") (auto simp: scripted_def b_def)
  moreover have "scripted ?w \<subseteq> scripted w"
    by (cases "env_script (w_env w)") (auto simp: scripted_def advance_def live_drift_def Let_def)
  ultimately have "run_of w (fst ?x @ [Tick t]) ?w" using ex(3) unfolding run_of_def by auto
  then show thesis by (rule that)
qed

text \<open>The trips of some effects are steps of the run.\<close>

definition trips_in :: "(instant \<times> effect) list \<Rightarrow> label list \<Rightarrow> bool" where
  "trips_in es ls \<longleftrightarrow> (\<forall>s a d. (s, Trip a d) \<in> set es \<longrightarrow> (\<exists>x. Tripped x a d (clock_at s) \<in> set ls))"

lemma trips_in_append:
  "trips_in es ls \<Longrightarrow> trips_in es' ls' \<Longrightarrow> trips_in (es @ es') (ls @ ls')"
  by (fastforce simp: trips_in_def)

lemma trips_in_simps [simp]: "trips_in [] ls" "trips_in [(s, Log l)] ls"
  by (simp_all add: trips_in_def)

lemma perform_run_of:
  assumes "perform (live N J) (s, e) w = Some w'" and "w_now w \<le> s"
  obtains ls where "run_of w ls w'" "trips_in [(s, e)] ls"
proof -
  obtain ls where ls: "run_of w ls (advance (live N J) s w)" using advance_run_of[OF assms(2)] .
  show thesis
  proof (cases e)
    case (Trip a d)
    let ?w = "advance (live N J) s w"
    from assms(1) Trip obtain p where p: "trip_at (w_pool ?w) a d s = Some p" "w' = ?w\<lparr>w_pool := p\<rparr>"
      by (auto simp: Let_def)
    then have "step (sys_of ?w) (Tripped (w_pool ?w) a d (clock_at s)) (sys_of w')"
      by (auto simp: step_simps sys_of_def trip_at_def)
    then have "run_of ?w [Tripped (w_pool ?w) a d (clock_at s)] w'"
      using steps_snoc[OF steps_nil] p(2) by (auto simp: run_of_def scripted_def)
    from run_of_trans[OF ls this] show thesis
      by (rule that) (auto simp: trips_in_def Trip)
  qed (use assms ls that in \<open>auto simp: trips_in_def\<close>)
qed

lemma perform_all_run_of:
  "perform_all (live N J) es w = Some w' \<Longrightarrow> sorted (map fst es) \<Longrightarrow>
   \<forall>e\<in>set es. w_now w \<le> fst e \<and> fst e \<le> T \<Longrightarrow> w_now w \<le> T \<Longrightarrow>
     \<exists>ls. run_of w ls w' \<and> trips_in es ls \<and> w_now w' \<le> T"
proof (induction es arbitrary: w)
  case Nil
  then show ?case by (auto intro: run_of_refl)
next
  case (Cons e es)
  obtain s x where e: "e = (s, x)" by fastforce
  from Cons(2) obtain w1 where w1: "perform (live N J) (s, x) w = Some w1"
    "perform_all (live N J) es w1 = Some w'"
    by (auto simp: e bind_eq_Some_conv)
  obtain ls where ls: "run_of w ls w1" "trips_in [(s, x)] ls"
    using perform_run_of[OF w1(1)] Cons(4) e by auto
  have "w_now w1 = s" using perform_now[OF w1(1)] .
  then have "\<exists>ls. run_of w1 ls w' \<and> trips_in es ls \<and> w_now w' \<le> T"
    using Cons(1)[OF w1(2)] Cons(3,4) e by auto
  with ls show ?case
    using run_of_trans trips_in_append[of "[(s, x)]" _ es] e by fastforce
qed

section \<open>Requests follow the system\<close>

text \<open>
  Every request among the effects is the buffered one, to an upstream that was routable in a
  state the system went through, not later than the request.
\<close>

definition routable_in :: "pool_type \<Rightarrow> socket_addr \<Rightarrow> environment world \<Rightarrow> bool" where
  "routable_in t a w \<longleftrightarrow> (\<exists>u\<in>set (pool_of t (w_pool w)). addr u = a \<and> routable u (w_now w))"

definition vetted :: "environment world \<Rightarrow> forward_ctx \<Rightarrow> (instant \<times> effect) list \<Rightarrow> bool" where
  "vetted w fc es \<longleftrightarrow>
     (\<forall>s t k q. (s, SendRequest t k q) \<in> set es \<longrightarrow>
        (\<exists>a ls w1. q = forward_request fc a \<and> run_of w ls w1 \<and> w_now w1 \<le> s \<and> routable_in t a w1))"

lemma vetted_simps [simp]:
  "vetted w fc []" "vetted w fc [(s, Log l)]"
  "vetted w fc (es @ es') \<longleftrightarrow> vetted w fc es \<and> vetted w fc es'"
  by (auto simp: vetted_def)

lemma vetted_later: "run_of w ls w1 \<Longrightarrow> vetted w1 fc es \<Longrightarrow> vetted w fc es"
  unfolding vetted_def by (meson run_of_trans)

definition follows :: "environment world \<Rightarrow> forward_ctx \<Rightarrow> (environment, 'r) run \<Rightarrow> bool" where
  "follows w fc x \<longleftrightarrow>
     vetted w fc (effects_of x) \<and>
     (case x of Returned es r w' \<Rightarrow> \<exists>ls. run_of w ls w' \<and> trips_in es ls | _ \<Rightarrow> True)"

lemma follows_return [simp]: "follows w fc (Returned [] r w)" "follows w fc (Returned [(s, Log l)] r w)"
  by (auto simp: follows_def intro: run_of_refl)

lemma follows_later:
  assumes "run_of w ls w1" and "follows w1 fc x"
  shows "follows w fc x"
proof (cases x)
  case (Returned es r w')
  with assms(2) obtain ls' where "run_of w1 ls' w'" "trips_in es ls'" by (auto simp: follows_def)
  then have "run_of w (ls @ ls') w' \<and> trips_in es (ls @ ls')"
    using run_of_trans[OF assms(1)] trips_in_append[of "[]" ls] by fastforce
  then show ?thesis using Returned assms(2) vetted_later[OF assms(1)] by (auto simp: follows_def)
qed (use assms vetted_later in \<open>auto simp: follows_def\<close>)

lemma follows_bind:
  assumes "follows w fc m" and "\<And>es r w1. m = Returned es r w1 \<Longrightarrow> follows w1 fc (k r w1)"
  shows "follows w fc (bind_run m k)"
proof (cases m)
  case (Returned es r w1)
  from assms(1) Returned obtain ls where m: "vetted w fc es" "run_of w ls w1" "trips_in es ls"
    by (auto simp: follows_def)
  have k: "follows w1 fc (k r w1)" using assms(2) Returned .
  then have "vetted w fc (effects_of (k r w1))"
    using vetted_later[OF m(2)] by (auto simp: follows_def)
  then show ?thesis using m k Returned
    by (cases "k r w1") (auto simp: follows_def intro: run_of_trans trips_in_append)
qed (use assms(1) in \<open>auto simp: follows_def\<close>)

lemma follows_async:
  assumes ok: "timeline_ok (w_now w) (m (w_now w))"
    and sends: "\<And>s t k q. (s, SendRequest t k q) \<in> set (fst (m (w_now w))) \<Longrightarrow>
      \<exists>a. q = forward_request fc a \<and> routable_in t a w"
  shows "follows w fc (run_async (live N J) m w)"
proof -
  let ?es = "fst (m (w_now w))"
  have early: "\<forall>e\<in>set ?es. w_now w \<le> fst e" "sorted (map fst ?es)"
    using ok by (auto simp: timeline_ok_def)
  have "vetted w fc ?es"
    using sends early(1) run_of_refl unfolding vetted_def by fastforce
  then have eff: "vetted w fc (effects_of (run_async (live N J) m w))"
    using effects_of_run_async unfolding vetted_def by blast
  have "\<exists>ls. run_of w ls w' \<and> trips_in es ls"
    if ret: "run_async (live N J) m w = Returned es r w'" for es r w'
  proof -
    from ret obtain w1 t' where w1: "perform_all (live N J) ?es w = Some w1"
      "snd (m (w_now w)) = Some (t', r)" "w' = advance (live N J) t' w1" "es = ?es"
      by (auto simp: run_async_def split: option.splits)
    have "\<forall>e\<in>set ?es. w_now w \<le> fst e \<and> fst e \<le> t'" "w_now w \<le> t'"
      using ok w1(2) by (auto simp: timeline_ok_def)
    from perform_all_run_of[OF w1(1) early(2) this] obtain ls where
      ls: "run_of w ls w1" "trips_in ?es ls" "w_now w1 \<le> t'" by blast
    obtain ls' where "run_of w1 ls' w'" using advance_run_of[OF ls(3)] unfolding w1(3) .
    with ls show ?thesis
      using run_of_trans trips_in_append[of ?es ls "[]" ls'] w1(4) by fastforce
  qed
  with eff show ?thesis by (auto simp: follows_def split: run.split)
qed

section \<open>The strategies\<close>

lemma routable_gpu: "pick_gpu (w_pool w) (w_now w) = Some (a, t) \<Longrightarrow> routable_in Gpu a w"
  by (auto dest: pick_gpu_Some simp: routable_in_def)

lemma routable_cpu: "pick_cpu (w_pool w) (w_now w) = Some (a, t) \<Longrightarrow> routable_in Cpu a w"
  by (auto dest: pick_cpu_Some simp: routable_in_def)

lemma routable_gpu_excluding:
  "pick_gpu_excluding_set (w_pool w) tried (w_now w) = Some (a, t) \<Longrightarrow> routable_in Gpu a w"
  by (auto simp: pick_gpu_excluding_set_def routable_in_def dest!: pick_tier_Some)

lemma routable_secondary:
  assumes "secondary_candidate (w_pool w) cand (w_now w) = Some (a, t)"
  shows "routable_in t a w"
  using assms
  by (auto simp: secondary_candidate_def or_else_Some_iff bind_eq_Some_conv
      pick_gpu_excluding_set_def routable_in_def dest!: pick_cpu_Some pick_tier_Some)

lemma fwd_sends:
  "(s, SendRequest t' k q) \<in> set (fst (fwd E c fc a t now)) \<Longrightarrow> t' = t \<and> q = forward_request fc a"
  by (auto simp: fwd_def dest!: forward_with_retry_sends)

lemma direct_sends:
  "(s, SendRequest t' k q) \<in> set (fst (direct E c fc a t xh now)) \<Longrightarrow> t' = t \<and> q = forward_request fc a"
  by (auto simp: direct_def log_direct_def await_def[of "fwd _ _ _ _ _"] ready_def
      dest: fwd_sends split: option.splits sum.splits)

lemma run_race_sends:
  assumes "(s, SendRequest t k q) \<in> set (fst (run_race E c delay ga sa sp fc xh start))"
  shows "t = Gpu \<and> q = forward_request fc ga \<or> t = sp \<and> q = forward_request fc sa"
  using run_race_effects[OF assms]
  by (auto simp: secondary_fut_eq race_log_def dest: fwd_sends)

lemma hedged_race_follows: "follows w fc (hedged_race (live N J) c delay fc w)"
proof -
  have d: "follows w fc (run_async (live N J) (direct (live N J) c fc a t xh) w)"
    if "routable_in t a w" for a t xh
    using that by (intro follows_async direct_ok) (auto dest: direct_sends)
  have r: "follows w fc (run_async (live N J) (run_race (live N J) c delay ga sa sp fc xh) w)"
    if "routable_in Gpu ga w" "routable_in sp sa w" for ga sa sp xh
    using that by (intro follows_async run_race_ok) (auto dest!: run_race_sends)
  show ?thesis
    by (auto simp: hedged_race_def Let_def routable_gpu routable_secondary intro!: d r
        split: option.split)
qed

lemma sent_toD:
  "sent_to fc gs cs es \<Longrightarrow> (s, SendRequest t k q) \<in> set es \<Longrightarrow>
     \<exists>a\<in>set (case t of Gpu \<Rightarrow> gs | Cpu \<Rightarrow> cs). q = forward_request fc a"
  by (fastforce simp: sent_to_def sends_mem)

lemma gpu_attempt_follows:
  assumes "routable_in Gpu ga w"
  shows "follows w fc (run_async (live N J) (gpu_attempt (live N J) c per fc ga) w)"
proof (rule follows_async)
  show "timeline_ok (w_now w) (gpu_attempt (live N J) c per fc ga (w_now w))" by (rule gpu_attempt_ok)
  fix s t k q
  assume "(s, SendRequest t k q) \<in> set (fst (gpu_attempt (live N J) c per fc ga (w_now w)))"
  from sent_toD[OF gpu_attempt_sent_to this] assms show "\<exists>a. q = forward_request fc a \<and> routable_in t a w"
    by (cases t) auto
qed

lemma cpu_attempt_follows:
  assumes "routable_in Cpu ca w"
  shows "follows w fc (run_async (live N J) (forward_cpu_with_timeout (live N J) c per fc ca) w)"
proof (rule follows_async)
  show "timeline_ok (w_now w) (forward_cpu_with_timeout (live N J) c per fc ca (w_now w))"
    by (rule cpu_try.ok)
  fix s t k q
  assume "(s, SendRequest t k q) \<in> set (fst (forward_cpu_with_timeout (live N J) c per fc ca (w_now w)))"
  from sent_toD[OF cpu_attempt_sent_to this] assms show "\<exists>a. q = forward_request fc a \<and> routable_in t a w"
    by (cases t) auto
qed

lemma gpu_loop_follows:
  "(\<And>a t. cand = Some (a, t) \<Longrightarrow> routable_in Gpu a w) \<Longrightarrow>
     follows w fc (gpu_loop (live N J) c per fc tried cand w)"
proof (induction "live N J" c per fc tried cand w rule: gpu_loop.induct)
  case (2 c per fc tried ga t w)
  show ?case
  proof (cases "max_gpu_attempts \<le> length tried")
    case False
    show ?thesis
      unfolding gpu_loop.simps if_not_P[OF False]
    proof (rule follows_bind[OF gpu_attempt_follows])
      fix es r w1
      assume "run_async (live N J) (gpu_attempt (live N J) c per fc ga) w = Returned es r w1"
      have "follows w1 fc (gpu_loop (live N J) c per fc (tried @ [ga])
          (pick_gpu_excluding_set (w_pool w1) (tried @ [ga]) (w_now w1)) w1)" if "r = None"
        by (rule 2(1)[OF False that refl]) (rule routable_gpu_excluding)
      then show "follows w1 fc (case r of Some out \<Rightarrow> Returned [] (Some out) w1
          | None \<Rightarrow> (let tried' = tried @ [ga]
               in gpu_loop (live N J) c per fc tried' (pick_gpu_excluding_set (w_pool w1) tried' (w_now w1)) w1))"
        by (simp add: Let_def split: option.split)
    qed (use 2(2) in auto)
  qed simp
qed simp

lemma sequential_follows: "follows w fc (sequential_timeout (live N J) c per fc w)"
  unfolding sequential_timeout_def
proof (rule follows_bind)
  show "follows w fc (gpu_loop (live N J) c per fc [] (pick_gpu (w_pool w) (w_now w)) w)"
    by (rule gpu_loop_follows) (rule routable_gpu)
qed (auto split: option.split intro: cpu_attempt_follows routable_cpu)

lemma handle_proxy_follows:
  "follows w (ctx_of c rq (case hr_body rq of Some (d, Inr body) \<Rightarrow> body | _ \<Rightarrow> []))
     (handle_proxy (live N J) c rq w)"
proof (cases "hr_body rq")
  case None
  then show ?thesis by (simp add: handle_proxy_def Let_def follows_def)
next
  case (Some db)
  obtain d b where db: "db = (d, b)" by fastforce
  let ?w = "advance (live N J) (w_now w + d) w"
  obtain ls where ls: "run_of w ls ?w" by (rule advance_run_of[of w "w_now w + d" N J]) simp
  show ?thesis
  proof (cases b)
    case (Inl e)
    with ls show ?thesis by (auto simp: handle_proxy_def Let_def Some db follows_def)
  next
    case (Inr body)
    let ?fc = "ctx_of c rq body"
    have "follows ?w ?fc (route (live N J) c (hr_method rq) (path_and_query_of rq) (hr_headers rq) body ?w)"
      unfolding route_def Let_def
      by (simp add: hedged_race_follows sequential_follows flip: ctx_of_def split: route_policy.split)
    then have "follows ?w ?fc (handle_proxy (live N J) c rq w)"
      by (auto simp: handle_proxy_def Let_def Some db Inr intro!: follows_bind split: sum.split)
    from follows_later[OF ls this] show ?thesis by (simp add: Some db Inr)
  qed
qed

lemma guarded_run:
  assumes "run_of w ls w1" and "\<forall>x\<in>snapshots (sys_of w). guarded t a T x"
    and "\<forall>l\<in>scripted w. keeps t a l" and "routable_in t b w1" and "same_endpoint a b"
  shows "T \<le> w_now w1"
proof (rule ccontr)
  assume early: "\<not> T \<le> w_now w1"
  have "list_all (keeps t a) ls" using assms(1,3) by (auto simp: run_of_def list_all_iff)
  moreover have "steps (sys_of w) ls (sys_of w1)" using assms(1) by (simp add: run_of_def)
  moreover have "clock (sys_of w1) < T" using early by (simp add: sys_of_def)
  ultimately have "\<forall>x\<in>snapshots (sys_of w1). guarded t a T x"
    using steps_guarded assms(2) by blast
  then have g: "guarded t a T (w_pool w1)" by (simp add: snapshots_def sys_of_def)
  obtain u where u: "u \<in> set (pool_of t (w_pool w1))" "addr u = b" "routable u (w_now w1)"
    using assms(4) by (auto simp: routable_in_def)
  with g assms(5) have "addr u = a" by (auto simp: guarded_def cooled_for_def)
  with g u(1) obtain v where "cooldown_until u = Some v" "T \<le> v" unfolding guarded_def by (rule cooled_entry)
  then show False using u(3) early by (simp add: routable_iff is_in_cooldown_def)
qed

text \<open>No request to a guarded upstream: its URL determines the endpoint.\<close>

lemma request_avoids_guarded:
  assumes "\<forall>x\<in>snapshots (sys_of w). guarded t a T x"
    and "\<forall>l\<in>set (concat (env_script (w_env w))). keeps t a l"
    and "(s, SendRequest t k q) \<in> set (effects_of (handle_proxy (live N J) c rq w))"
    and "req_url q = upstream_url (upstream_scheme_of c) a (path_and_query_of rq)"
  shows "T \<le> s"
proof -
  obtain fc where fc: "vetted w fc (effects_of (handle_proxy (live N J) c rq w))"
    "fc_scheme fc = upstream_scheme_of c" "fc_path_and_query fc = path_and_query_of rq"
    using handle_proxy_follows[of w c rq N J] by (auto simp: follows_def ctx_of_def)
  then obtain b ls' w1 where b: "q = forward_request fc b" "run_of w ls' w1" "w_now w1 \<le> s" "routable_in t b w1"
    using assms(3) unfolding vetted_def by blast
  have "show_addr a = show_addr b"
    using assms(4) b(1) fc(2,3) by (simp add: forward_request_def upstream_url_def del: show_addr.simps)
  then have "T \<le> w_now w1"
    using guarded_run[OF b(2) assms(1)] assms(2) b(4) by (simp add: scripted_def show_addr_eq_iff)
  with b(3) show ?thesis by simp
qed

section \<open>A concrete request\<close>

text \<open>
  The first request after the start: while its body arrives, discovery finds one GPU and the
  poller finds it healthy; then the GPU never answers.
\<close>

definition calm :: "pool_snapshot \<Rightarrow> instant \<Rightarrow> environment world" where
  "calm p t =
     \<lparr>w_now = t, w_pool = p, w_env = \<lparr>env_dns = None, env_round = None, env_poll = None, env_script = []\<rparr>\<rparr>"

definition boot :: "environment world" where
  "boot = calm (default_snapshot 0) 0
     \<lparr>w_env := \<lparr>env_dns = None, env_round = None, env_poll = None, env_script = [demo_trace]\<rparr>\<rparr>"

abbreviation silent_live :: "environment runtime" where
  "silent_live \<equiv> live (\<lambda>_ _ _ _. None) (\<lambda>_. None)"

lemma calm_sel [simp]: "w_now (calm p t) = t" "w_pool (calm p t) = p" "(calm p t)\<lparr>w_pool := p'\<rparr> = calm p' t"
  by (simp_all add: calm_def)

lemma advance_calm [simp]: "t \<le> t' \<Longrightarrow> advance (live N J) t' (calm p t) = calm p t'"
  by (simp add: advance_def calm_def live_drift_def Let_def)

lemma calm_sys: "sys_of (calm p 0) = idle p"
  by (simp add: sys_of_def calm_def idle_def)

lemma boot_reach: "reach 0 [] (sys_of boot)"
  by (simp add: reach_def sys_of_def boot_def calm_def initial_system_def)

lemma exec_demo:
  "exec 0 demo_trace
     \<lparr>cell = default_snapshot 0, clock = 0, dns_cur = None, poll_round = None, poll_cur = None\<rparr> =
   (demo_trace, idle (one_gpu Ok None))"
  by (simp add: demo_trace_def demo_merge demo_targets demo_round demo_poll idle_def)

lemma advance_boot: "advance (live N J) 0 boot = calm (one_gpu Ok None) 0"
  using exec_demo by (simp add: advance_def boot_def calm_def live_drift_def Let_def idle_def)

abbreviation demo_deadline :: instant where
  "demo_deadline \<equiv> from_millis 1000"

definition demo_effects :: "(instant \<times> effect) list" where
  "demo_effects =
     [(0, SendRequest Gpu 0 (forward_request (ctx_of default_config demo_request []) demo_addr)),
      (demo_deadline, Trip demo_addr (from_secs 30)),
      (demo_deadline, Log (GpuTimedOut demo_addr (ms demo_deadline)))]"

abbreviation tripped_gpu :: pool_snapshot where
  "tripped_gpu \<equiv> one_gpu Ok (Some (demo_deadline + from_secs 30))\<lparr>updated_at := demo_deadline\<rparr>"

lemma demo_trip_at:
  "trip_at (one_gpu Ok None) demo_addr (from_secs 30) demo_deadline = Some tripped_gpu"
  by (simp add: trip_at_def trip_def already_cooled_def one_gpu_def is_in_cooldown_def
      instant_add_def trip_next_def from_secs_def from_millis_def time_defs)

lemma demo_attempt:
  "run_async silent_live
     (gpu_attempt silent_live default_config demo_deadline (ctx_of default_config demo_request []) demo_addr)
     (calm (one_gpu Ok None) 0) =
   Returned demo_effects None (calm tripped_gpu demo_deadline)"
proof -
  have "gpu_attempt silent_live default_config demo_deadline (ctx_of default_config demo_request []) demo_addr 0 =
      (demo_effects, Some (demo_deadline, None))"
    by (simp add: gpu_attempt_def await_def[of "timeout _ _"] timeout_def effects_until_def
        forward_with_retry_hang ready_def retry_config_of_def default_config_def demo_effects_def)
  then show ?thesis
    by (simp add: run_async_def demo_effects_def demo_trip_at)
qed

lemma demo_run:
  "handle_proxy silent_live default_config demo_request boot =
     Returned (demo_effects @ [(demo_deadline, Log (RoutingFailed ''no upstream available'' ''/v1/models''))])
       (text_response 503 ''no upstream available'') (calm tripped_gpu demo_deadline)"
proof -
  have picks: "pick_gpu (one_gpu Ok None) 0 = Some (demo_addr, Gpu)"
    "pick_gpu_excluding_set tripped_gpu [demo_addr] demo_deadline = None"
    "pick_cpu tripped_gpu demo_deadline = None"
    by (simp_all add: pick_gpu_tier pick_cpu_tier pick_gpu_excluding_set_def pick_tier_def one_gpu_def
        is_ok_eligible_def is_loading_eligible_def is_in_cooldown_def)
  have "sequential_timeout silent_live default_config demo_deadline (ctx_of default_config demo_request [])
      (calm (one_gpu Ok None) 0) = Returned demo_effects (Inl NoUpstreamAvailable) (calm tripped_gpu demo_deadline)"
    by (simp add: sequential_timeout_def picks demo_attempt max_gpu_attempts_def Let_def)
  moreover have "path_and_query_of demo_request = ''/v1/models''" "\<not> is_inference_path ''/v1/models''"
    by (simp_all add: demo_request_def path_and_query_of_def is_inference_path_def starts_with_def)
  ultimately have "route silent_live default_config (hr_method demo_request) (path_and_query_of demo_request)
      (hr_headers demo_request) [] (calm (one_gpu Ok None) 0) =
        Returned demo_effects (Inl NoUpstreamAvailable) (calm tripped_gpu demo_deadline)"
    by (simp add: route_def for_path_def ctx_of_def default_config_def)
  moreover have "hr_body demo_request = Some (0, Inr [])" "w_now boot = 0"
    by (simp_all add: demo_request_def boot_def)
  ultimately show ?thesis
    using \<open>path_and_query_of demo_request = _\<close>
    by (simp add: handle_proxy_def Let_def advance_boot app_error_into_response_def)
qed

text \<open>A request whose body arrives at the instant at which the cooldown of the GPU ends.\<close>

definition late_request :: http_request where
  "late_request = demo_request\<lparr>hr_body := Some (100, Inr [])\<rparr>"

lemma late_send:
  "(100, SendRequest Gpu 0 (forward_request (ctx_of default_config late_request []) demo_addr)) \<in>
     set (effects_of (handle_proxy (live prompt_net (\<lambda>_. None)) default_config late_request
       (calm (one_gpu Ok (Some 100)) 0)))"
proof -
  let ?fc = "ctx_of default_config late_request []" and ?E = "live prompt_net (\<lambda>_. None)"
  let ?w = "calm (one_gpu Ok (Some 100)) 100"
  let ?resp = "forward_answer demo_addr Gpu (Answered 200 [] ''ok'')"
  obtain resp where resp: "?resp = Inr resp" "\<not> is_server_error (resp_status resp)"
    by (simp add: status_from_u16_def unwrap_or_def is_server_error_def)
  have "forward_with_retry (net ?E) rc ?fc demo_addr Gpu 100 =
      ([(100, SendRequest Gpu 0 (forward_request ?fc demo_addr))], Some (1100, Inr resp))" for rc
    using forward_with_retry_final[of prompt_net Gpu ?fc demo_addr 100 1000 "Answered 200 [] ''ok''"]
    by (simp add: prompt_net_def resp del: forward_answer.simps)
  then have "gpu_attempt ?E default_config demo_deadline ?fc demo_addr 100 =
      ([(100, SendRequest Gpu 0 (forward_request ?fc demo_addr))], Some (1100, Some (Inr resp)))"
    by (simp add: gpu_attempt_def await_def[of "timeout _ _"] timeout_def ready_def resp
        from_millis_def nanos_per_milli_def)
  then have run: "run_async ?E (gpu_attempt ?E default_config demo_deadline ?fc demo_addr) ?w =
      Returned [(100, SendRequest Gpu 0 (forward_request ?fc demo_addr))] (Some (Inr resp))
        (calm (one_gpu Ok (Some 100)) 1100)"
    by (simp add: run_async_def)
  have "pick_gpu (one_gpu Ok (Some 100)) 100 = Some (demo_addr, Gpu)"
    by (simp add: pick_gpu_tier pick_tier_def one_gpu_def is_ok_eligible_def is_in_cooldown_def)
  then have "sequential_timeout ?E default_config demo_deadline ?fc ?w =
      Returned [(100, SendRequest Gpu 0 (forward_request ?fc demo_addr))] (Inr resp)
        (calm (one_gpu Ok (Some 100)) 1100)"
    by (simp add: sequential_timeout_def run max_gpu_attempts_def)
  moreover have "hr_body late_request = Some (100, Inr [])" "path_and_query_of late_request = ''/v1/models''"
    "\<not> is_inference_path ''/v1/models''"
    by (simp_all add: late_request_def demo_request_def path_and_query_of_def is_inference_path_def starts_with_def)
  ultimately show ?thesis
    by (simp add: handle_proxy_def Let_def route_def for_path_def ctx_of_def default_config_def)
qed

section \<open>Properties\<close>

text \<open>A proxied request is a run of the system of background tasks: from a reachable state it
  leads to a reachable state, whatever discovery, polling and other requests do meanwhile,
  and every trip it reports is a step of that run at its instant.\<close>
lemma request_refines_system:
  assumes "reach t0 ls (sys_of w)" and "handle_proxy (live N J) c rq w = Returned es resp w'"
  shows "\<exists>ls'. reach t0 (ls @ ls') (sys_of w') \<and>
    (\<forall>s a d. (s, Trip a d) \<in> set es \<longrightarrow> (\<exists>x. Tripped x a d (clock_at s) \<in> set ls'))"
proof -
  obtain ls' where "run_of w ls' w'" "trips_in es ls'"
    using handle_proxy_follows[of w c rq N J] assms(2) by (auto simp: follows_def)
  then show ?thesis
    using assms(1) unfolding reach_def run_of_def trips_in_def by (blast intro: steps_append)
qed

lemma request_refines_system_witness:
  "\<exists>ls'. reach 0 ls' (sys_of (calm tripped_gpu demo_deadline)) \<and>
     (\<exists>x. Tripped x demo_addr (from_secs 30) (clock_at demo_deadline) \<in> set ls')"
  using request_refines_system[OF boot_reach demo_run] by (auto simp: demo_effects_def)

text \<open>C2: every request that a proxied request sends goes to an upstream that discovery had
  resolved for that pool and that had answered a health poll with a usable status, in a state
  the system went through no later than the request, and it carries the client's method,
  path and body.\<close>
theorem request_contacts_vetted:
  assumes "reach t0 ls (sys_of w)"
    and "(s, SendRequest t k q) \<in> set (effects_of (handle_proxy (live N J) c rq w))"
  shows "\<exists>a ls' w1. reach t0 (ls @ ls') (sys_of w1) \<and> w_now w1 \<le> s \<and>
    resolved_in (ls @ ls') t a \<and> answered_in (ls @ ls') a \<and>
    req_url q = upstream_url (upstream_scheme_of c) a (path_and_query_of rq) \<and>
    req_method q = hr_method rq \<and> (\<exists>d. hr_body rq = Some (d, Inr (req_body q)))"
proof -
  obtain d body where body: "hr_body rq = Some (d, Inr body)"
    using assms(2) by (cases "hr_body rq"; cases "snd (the (hr_body rq))") (auto simp: handle_proxy_def Let_def)
  define fc where "fc = ctx_of c rq body"
  then have fc: "vetted w fc (effects_of (handle_proxy (live N J) c rq w))" "fc_scheme fc = upstream_scheme_of c"
    "fc_path_and_query fc = path_and_query_of rq" "fc_method fc = hr_method rq" "fc_body fc = body"
    using handle_proxy_follows[of w c rq N J] body by (auto simp: follows_def ctx_of_def)
  then obtain a ls' w1 where a: "q = forward_request fc a" "run_of w ls' w1" "w_now w1 \<le> s" "routable_in t a w1"
    using assms(2) unfolding vetted_def by blast
  have reach: "reach t0 (ls @ ls') (sys_of w1)"
    using assms(1) a(2) by (auto simp: reach_def run_of_def intro: steps_append)
  have "sourced (ls @ ls') (w_pool w1)"
    using reach_sourced[OF reach] by (simp add: snapshots_def sys_of_def)
  then have "resolved_in (ls @ ls') t a \<and> answered_in (ls @ ls') a"
    using a(4) by (auto simp: sourced_def routable_in_def routable_iff)
  with reach a(1,3) fc body show ?thesis by (auto simp: forward_request_def)
qed

lemma request_contacts_vetted_witness:
  "\<exists>a ls' w1. reach 0 ls' (sys_of w1) \<and> resolved_in ls' Gpu a \<and> answered_in ls' a \<and>
     req_url (forward_request (ctx_of default_config demo_request []) demo_addr) =
       upstream_url (upstream_scheme_of default_config) a ''/v1/models''"
proof -
  have "(0, SendRequest Gpu 0 (forward_request (ctx_of default_config demo_request []) demo_addr)) \<in>
      set (effects_of (handle_proxy silent_live default_config demo_request boot))"
    by (simp add: demo_run demo_effects_def)
  from request_contacts_vetted[OF boot_reach this] show ?thesis
    by (auto simp: demo_request_def path_and_query_of_def)
qed

text \<open>C3: while an upstream is cooling down, in the cell and in every snapshot a task is about to
  store, no request is sent to it before its cooldown ends, however the background tasks and
  other requests interleave, as long as discovery keeps resolving it, alone of its endpoint.
  A request is known by its URL, whose text determines the endpoint.\<close>
theorem request_avoids_cooled:
  assumes "\<forall>x\<in>snapshots (sys_of w). guarded t a T x"
    and "\<forall>l\<in>set (concat (env_script (w_env w))). keeps t a l"
    and "(s, SendRequest t k q) \<in> set (effects_of (handle_proxy (live N J) c rq w))"
    and "req_url q = upstream_url (upstream_scheme_of c) a (path_and_query_of rq)"
  shows "T \<le> s"
  using assms by (rule request_avoids_guarded)

lemma request_avoids_cooled_witness:
  "\<exists>s. (s, SendRequest Gpu 0 (forward_request (ctx_of default_config late_request []) demo_addr)) \<in>
     set (effects_of (handle_proxy (live prompt_net (\<lambda>_. None)) default_config late_request
       (calm (one_gpu Ok (Some 100)) 0))) \<and> 100 \<le> s"
proof -
  have "\<forall>x\<in>snapshots (sys_of (calm (one_gpu Ok (Some 100)) 0)). guarded Gpu demo_addr 100 x"
    by (auto simp: calm_sys snapshots_def idle_def guarded_def cooled_for_def one_gpu_def)
  moreover have "\<forall>l\<in>set (concat (env_script (w_env (calm (one_gpu Ok (Some 100)) 0)))).
      keeps Gpu demo_addr l"
    by (simp add: calm_def)
  moreover have "req_url (forward_request (ctx_of default_config late_request []) demo_addr) =
      upstream_url (upstream_scheme_of default_config) demo_addr (path_and_query_of late_request)"
    by (simp add: forward_request_def ctx_of_def)
  ultimately show ?thesis using request_avoids_cooled late_send by blast
qed

end
