(* ===== verification/Breaker_System.thy ===== *)
theory Breaker_System
  imports Request_System
begin

text \<open>
  What the circuit breaker achieves in the running system. A DNS answer is not deduplicated by
  \<open>resolve\<close> or \<open>merge_pool\<close>, and \<open>trip_pool\<close> cools the first entry of an address only: the
  breaker works as long as no answer repeats an endpoint. Under that condition a trip that no
  load-compute-store of another task straddles keeps every later request away from the upstream
  until its window ends, and no longer, however many requests trip it meanwhile, while
  discovery keeps resolving it; the last theorem says what a repeated address does.
\<close>

section \<open>Endpoints occur once\<close>

definition distinct_endpoints :: "socket_addr list \<Rightarrow> bool" where
  "distinct_endpoints as \<longleftrightarrow> distinct as \<and> (\<forall>a\<in>set as. \<forall>b\<in>set as. same_endpoint a b \<longrightarrow> b = a)"

fun distinct_result :: "resolve_result \<Rightarrow> bool" where
  "distinct_result Failed \<longleftrightarrow> True"
| "distinct_result (Resolved as) \<longleftrightarrow> distinct_endpoints as"

fun distinct_answer :: "label \<Rightarrow> bool" where
  "distinct_answer (DnsStore g c clk) \<longleftrightarrow> distinct_result g \<and> distinct_result c"
| "distinct_answer _ \<longleftrightarrow> True"

definition distinct_pools :: "pool_snapshot \<Rightarrow> bool" where
  "distinct_pools x \<longleftrightarrow> (\<forall>t. distinct_endpoints (addrs_of (pool_of t x)))"

lemma pool_of_cases: "(\<forall>t. P (pool_of t x)) \<longleftrightarrow> P (gpu x) \<and> P (cpu x)"
  by (metis pool_of.simps pool_type.exhaust)

lemma distinct_pools_iff:
  "distinct_pools x \<longleftrightarrow> distinct_endpoints (addrs_of (gpu x)) \<and> distinct_endpoints (addrs_of (cpu x))"
  unfolding distinct_pools_def by (rule pool_of_cases)

lemma distinct_endpoints_simps [simp]: "distinct_endpoints []" "distinct_endpoints [a]"
  by (simp_all add: distinct_endpoints_def)

lemma distinct_endpoints_alone:
  "distinct_endpoints as \<Longrightarrow> a \<in> set as \<Longrightarrow> b \<in> set as \<Longrightarrow> same_endpoint a b \<Longrightarrow> b = a"
  by (simp add: distinct_endpoints_def)

text \<open>No two entries have the same text.\<close>

lemma distinct_endpoints_text: "distinct_endpoints as \<Longrightarrow> distinct (map show_addr as)"
  by (simp add: distinct_endpoints_def distinct_map inj_on_def show_addr_eq_iff del: show_addr.simps)
    (metis show_addr_eq_iff)

lemma merge_distinct:
  assumes "distinct_pools x" and "distinct_answer (DnsStore g c clk)"
  shows "distinct_pools (merge x g c clk)"
  using assms by (auto simp: distinct_pools_iff merge_pool_addrs split: resolve_result.splits)

lemma poll_distinct: "distinct_pools x \<Longrightarrow> distinct_pools (apply_updates x rs now)"
  by (simp add: distinct_pools_iff update_pool_def comp_def)

lemma trip_distinct: "distinct_pools x \<Longrightarrow> trip loaded x a d c = Some y \<Longrightarrow> distinct_pools y"
  by (drule trip_addrs) (simp add: distinct_pools_iff)

lemma steps_distinct:
  assumes "steps s ls s'" and "list_all distinct_answer ls" and "\<forall>x\<in>snapshots s. distinct_pools x"
  shows "\<forall>x\<in>snapshots s'. distinct_pools x"
  using assms
proof (induction rule: steps.induct)
  case (steps_snoc s ls s' l s'')
  have IH: "distinct_pools x" if "x \<in> snapshots s'" for x
    using steps_snoc that by simp
  show ?case
  proof
    fix x assume "x \<in> snapshots s''"
    with steps_snoc(2) show "distinct_pools x"
    proof (cases rule: step_snapshots)
      case (dns g c clk current)
      then show ?thesis using merge_distinct IH steps_snoc(4) by simp
    next
      case (poll ts current)
      then have "current \<in> snapshots s'" by (force simp: snapshots_def)
      with poll show ?thesis using poll_distinct IH by blast
    next
      case (trip loaded a d c)
      have "cell s' \<in> snapshots s'" by (simp add: snapshots_def)
      with trip show ?thesis using trip_distinct IH by blast
    qed (use IH in blast)
  qed
qed simp

lemma reach_distinct:
  "reach t0 ls s \<Longrightarrow> list_all distinct_answer ls \<Longrightarrow> x \<in> snapshots s \<Longrightarrow> distinct_pools x"
  unfolding reach_def
  by (drule steps_distinct) (auto simp: initial_snapshots distinct_pools_iff default_snapshot_def)

section \<open>A fresh trip\<close>

lemma trip_windows:
  assumes "trip x x a d c = Some y" and "0 < d" and "\<not> already_cooled x a (tc_start c)"
    and "monotone_clock c" and "distinct_pools x" and "a \<in> set (addrs_of (pool_of t x))"
  shows "windowed t a (tc_start c + d) y"
  using assms(1)
proof (cases rule: trip_cases)
  case tripped
  let ?now = "case t of Gpu \<Rightarrow> tc_gpu c | Cpu \<Rightarrow> tc_cpu c"
  have eq: "pool_of t y = fst (trip_pool (pool_of t x) a (tc_start c + d) ?now)"
    by (cases t) (simp_all add: tripped)
  have "tc_start c \<le> ?now" using assms(4) by (cases t) (auto simp: monotone_clock_def)
  moreover have "\<not> is_in_cooldown u (tc_start c)" if "u \<in> set (pool_of t x)" "addr u = a" for u
    using assms(3) that by (cases t) (auto simp: already_cooled_def)
  ultimately have "\<not> is_in_cooldown u ?now" if "u \<in> set (pool_of t x)" "addr u = a" for u
    using that is_in_cooldown_antimono by blast
  moreover have ends: "distinct_endpoints (addrs_of (pool_of t x))" using assms(5) by (simp add: distinct_pools_def)
  ultimately have cd: "cooldown_until u = Some (tc_start c + d)" if "u \<in> set (pool_of t y)" "addr u = a" for u
    using trip_pool_guards[OF _ assms(6), of ?now u] that unfolding eq distinct_endpoints_def by blast
  have addrs: "addrs_of (pool_of t y) = addrs_of (pool_of t x)"
    unfolding eq by (rule trip_pool_fields(1))
  have alone: "addr u = a" if "u \<in> set (pool_of t y)" "same_endpoint a (addr u)" for u
    using distinct_endpoints_alone[OF ends assms(6)] that addrs by (metis image_eqI list.set_map)
  then show ?thesis
    using assms(6) cd by (auto simp: windowed_def cooled_for_def addrs)
qed (use assms(2,3) in simp)

text \<open>A trip at a moment at which no task is between its load and its store.\<close>

lemma quiet_trip_windows:
  assumes "reach t0 ls s" and "list_all distinct_answer ls" and "dns_cur s = None" and "poll_cur s = None"
    and "trip (cell s) (cell s) a d c = Some y" and "0 < d"
    and "\<not> already_cooled (cell s) a (tc_start c)" and "monotone_clock c"
    and "a \<in> set (addrs_of (pool_of t (cell s)))"
  shows "\<forall>x\<in>snapshots (s\<lparr>cell := y\<rparr>). windowed t a (tc_start c + d) x"
proof -
  have "distinct_pools (cell s)"
    using reach_distinct[OF assms(1,2)] by (simp add: snapshots_def)
  from trip_windows[OF assms(5-8) this assms(9)] show ?thesis
    using assms(3,4) by (simp add: snapshots_def)
qed

section \<open>A repeated address\<close>

text \<open>What follows the first entry of an address is left alone by a trip.\<close>

lemma trip_pool_rest: "addr u = a \<Longrightarrow> set ys \<subseteq> set (fst (trip_pool (xs @ u # ys) a until now))"
  by (induction xs) (auto simp: fst_trip_pool_Cons simp del: trip_pool.simps(2))

lemma trip_pool_cools_one:
  assumes "a \<in> set (addrs_of p)" and "\<forall>u\<in>set p. addr u = a \<longrightarrow> \<not> is_in_cooldown u now"
  shows "\<exists>u\<in>set (fst (trip_pool p a until now)). addr u = a \<and> cooldown_until u = Some until"
proof -
  obtain xs v ys where p: "p = xs @ v # ys" "addr v = a" "a \<notin> set (addrs_of xs)"
    using split_first_addr[OF assms(1)] by blast
  then show ?thesis using assms(2) by (auto simp: trip_pool_first)
qed

text \<open>The entries of a repeated address after the merge and a polling round that answers it.\<close>

lemma repeated_entries:
  assumes "y = apply_updates (merge x (Resolved (as @ a # bs @ a # cs)) r clk) polled now"
    and "find (\<lambda>p. pr_addr p = a) polled = Some p"
  shows "\<exists>xs u ys v zs. gpu y = xs @ u # ys @ v # zs \<and> addr u = a \<and> addr v = a \<and> status v = pr_status p"
proof -
  let ?f = "\<lambda>ia. apply_result polled now (merge_entry (gpu x) Gpu (mc_gpu clk) ia)"
  have "gpu y = map ?f (enumerate 0 (as @ a # bs @ a # cs))"
    by (simp add: assms(1) update_pool_def)
  then have "gpu y = map ?f (enumerate 0 as) @ ?f (length as, a) # map ?f (enumerate (Suc (length as)) bs) @
      ?f (Suc (length as + length bs), a) # map ?f (enumerate (Suc (Suc (length as + length bs))) cs)"
    by (simp add: enumerate_append_eq)
  moreover have "status (?f (i, a)) = pr_status p" "addr (?f (i, a)) = a" for i
    using assms(2) by (simp_all add: apply_result_def)
  ultimately show ?thesis by blast
qed

text \<open>One GPU whose address the DNS answer repeats, before and after a trip of 100 ns.\<close>

definition twin :: "upstream_status \<Rightarrow> instant option \<Rightarrow> upstream_info" where
  "twin st cd =
     \<lparr>addr = demo_addr, pool_type = Gpu, status = st, queue_depth = 0, live_workers = 0,
      last_seen = 0, cooldown_until = cd\<rparr>"

definition twins :: "upstream_status \<Rightarrow> instant option \<Rightarrow> pool_snapshot" where
  "twins st cd = \<lparr>gpu = [twin st cd, twin st None], cpu = [], updated_at = 0\<rparr>"

definition twin_trace :: "label list" where
  "twin_trace = [DnsLoad, DnsStore (Resolved [demo_addr, demo_addr]) Failed demo_clock, PollStart,
     PollLoad (demo_answers @ demo_answers), PollStore]"

lemma twin_reach: "reach 0 twin_trace (idle (twins Ok None))"
proof -
  have merge: "fst (refresh (Resolved [demo_addr, demo_addr]) Failed (default_snapshot 0) demo_clock) = twins Unknown None"
    by (simp add: refresh_def merge_def merge_entry_def new_upstream_def default_snapshot_def
        demo_clock_def twins_def twin_def)
  have poll: "poll_all (twins Unknown None) (demo_answers @ demo_answers) (twins Unknown None) 0 = Some (twins Ok None)"
    by (simp add: poll_all_def poll_targets_def apply_updates_def update_pool_def apply_result_def
        demo_answers_def ok_body_def twins_def twin_def parse_status_def)
  have round: "finished_round (twins Unknown None) (demo_answers @ demo_answers)"
    "poll_targets (twins Unknown None) \<noteq> []"
    by (simp_all add: finished_round_def poll_targets_def demo_answers_def twins_def twin_def)
  show ?thesis
    unfolding reach_def twin_trace_def
    by (rule steps_Cons[where s' = "idle (default_snapshot 0)\<lparr>dns_cur := Some (default_snapshot 0)\<rparr>"]
        steps_Cons[where s' = "idle (twins Unknown None)"]
        steps_Cons[where s' = "idle (twins Unknown None)\<lparr>poll_round := Some (twins Unknown None)\<rparr>"]
        steps_Cons[where s' = "idle (twins Unknown None)\<lparr>poll_round := Some (twins Unknown None),
          poll_cur := Some (demo_answers @ demo_answers, twins Unknown None)\<rparr>"]
        steps_Cons[where s' = "idle (twins Ok None)"] steps_nil;
      simp add: step_simps initial_system_def idle_def merge poll round)+
qed

lemma twin_trip:
  "step (idle (twins Ok None)) (Tripped (twins Ok None) demo_addr 100 (clock_at 0)) (idle (twins Ok (Some 100)))"
proof -
  have "trip (twins Ok None) (twins Ok None) demo_addr 100 (clock_at 0) = Some (twins Ok (Some 100))"
    by (simp add: trip_def already_cooled_def instant_add_def trip_next_def twins_def twin_def
        is_in_cooldown_def time_defs clock_at_def)
  then show ?thesis by (auto simp: step_simps idle_def)
qed

text \<open>Such a state is reached: after that DNS answer and a polling round, with no task between its
  load and its store, a trip leaves the upstream the choice of the policy.\<close>

lemma repeated_address_reached:
  "\<exists>ls s1 s2 x c. reach 0 ls s1 \<and> step s1 (Tripped x demo_addr 100 c) s2 \<and>
     dns_cur s2 = None \<and> poll_cur s2 = None \<and>
     pick (cell s2) (clock s2) = Some (demo_addr, Gpu) \<and> pick_gpu (cell s2) 99 = Some (demo_addr, Gpu) \<and>
     {..<100} \<subseteq> {t. \<forall>d. trip_at (cell s2) demo_addr d t = Some (cell s2)}"
proof (intro exI conjI)
  show "reach 0 twin_trace (idle (twins Ok None))" by (rule twin_reach)
  show "step (idle (twins Ok None)) (Tripped (twins Ok None) demo_addr 100 (clock_at 0)) (idle (twins Ok (Some 100)))"
    by (rule twin_trip)
qed (auto simp: idle_def twins_def twin_def pick_def pick_gpu_def pick_ok_def is_ok_eligible_def
    is_in_cooldown_def trip_at_def trip_def already_cooled_def)

section \<open>Properties\<close>

text \<open>C31: as long as no DNS answer repeats an endpoint, every upstream is once in its vector, in
  every reachable state and in every snapshot that a task is about to store: no two entries
  have the same text, so every request URL stands for one entry.\<close>
theorem addresses_stay_distinct:
  assumes "reach t0 ls s" and "list_all distinct_answer ls" and "x \<in> snapshots s"
  shows "distinct (map show_addr (addrs_of (gpu x))) \<and> distinct (map show_addr (addrs_of (cpu x)))"
  using reach_distinct[OF assms] unfolding distinct_pools_iff by (blast intro: distinct_endpoints_text)

lemma addresses_stay_distinct_witness: "distinct (map show_addr (addrs_of (gpu (one_gpu Ok None))))"
  using addresses_stay_distinct[OF demo_reach, of "one_gpu Ok None"]
  by (simp add: demo_trace_def snapshots_def idle_def distinct_endpoints_def)

text \<open>C4: the circuit breaker works for the requests that follow: when an upstream that is not
  cooling down is tripped at a moment at which no task is between its load and its store, no
  later request reaches it before the whole window is over, whatever discovery, polling and
  other requests do, as long as no DNS answer before the trip repeats an endpoint and every
  successful answer while the request runs still has the upstream, alone of its endpoint (an
  answer without it removes the entry and its cooldown with it).\<close>
theorem trip_protects_requests:
  assumes "reach t0 ls (sys_of w)" and "list_all distinct_answer ls"
    and "env_dns (w_env w) = None" and "env_poll (w_env w) = None"
    and "trip (w_pool w) (w_pool w) a d clk = Some y" and "0 < d"
    and "\<not> already_cooled (w_pool w) a (tc_start clk)" and "monotone_clock clk"
    and "a \<in> set (addrs_of (pool_of t (w_pool w)))"
    and "\<forall>l\<in>set (concat (env_script (w_env w))). keeps t a l"
    and "(s, SendRequest t k q) \<in> set (effects_of (handle_proxy (live N J) c rq (w\<lparr>w_pool := y\<rparr>)))"
    and "req_url q = upstream_url (upstream_scheme_of c) a (path_and_query_of rq)"
  shows "tc_start clk + d \<le> s"
proof -
  have "\<forall>x\<in>snapshots ((sys_of w)\<lparr>cell := y\<rparr>). windowed t a (tc_start clk + d) x"
    using assms(3-9) by (intro quiet_trip_windows[OF assms(1,2)]) (simp_all add: sys_of_def)
  moreover have "(sys_of w)\<lparr>cell := y\<rparr> = sys_of (w\<lparr>w_pool := y\<rparr>)" by (simp add: sys_of_def)
  ultimately have "\<forall>x\<in>snapshots (sys_of (w\<lparr>w_pool := y\<rparr>)). guarded t a (tc_start clk + d) x"
    using windowed_guarded by metis
  from request_avoids_guarded[OF this _ assms(11,12)] assms(10) show ?thesis by simp
qed

lemma trip_protects_requests_witness:
  "\<exists>s. (s, SendRequest Gpu 0 (forward_request (ctx_of default_config late_request []) demo_addr)) \<in>
     set (effects_of (handle_proxy (live prompt_net (\<lambda>_. None)) default_config late_request
       ((calm (one_gpu Ok None) 0)\<lparr>w_pool := one_gpu Ok (Some 100)\<rparr>))) \<and> 100 \<le> s"
proof -
  let ?w = "calm (one_gpu Ok None) 0"
  have reach: "reach 0 demo_trace (sys_of ?w)" using demo_reach by (simp add: calm_sys)
  have trip: "trip (w_pool ?w) (w_pool ?w) demo_addr 100 (clock_at 0) = Some (one_gpu Ok (Some 100))"
    "\<not> already_cooled (w_pool ?w) demo_addr (tc_start (clock_at 0))"
    by (simp_all add: trip_def already_cooled_def instant_add_def trip_next_def one_gpu_def
        is_in_cooldown_def time_defs)
  have url: "req_url (forward_request (ctx_of default_config late_request []) demo_addr) =
      upstream_url (upstream_scheme_of default_config) demo_addr (path_and_query_of late_request)"
    by (simp add: forward_request_def ctx_of_def)
  have send: "(100, SendRequest Gpu 0 (forward_request (ctx_of default_config late_request []) demo_addr)) \<in>
      set (effects_of (handle_proxy (live prompt_net (\<lambda>_. None)) default_config late_request
        (?w\<lparr>w_pool := one_gpu Ok (Some 100)\<rparr>)))"
    using late_send by simp
  have rest: "list_all distinct_answer demo_trace" "env_dns (w_env ?w) = None" "env_poll (w_env ?w) = None"
    "demo_addr \<in> set (addrs_of (pool_of Gpu (w_pool ?w)))"
    "\<forall>l\<in>set (concat (env_script (w_env ?w))). keeps Gpu demo_addr l"
    by (simp_all add: demo_trace_def calm_def one_gpu_def)
  from trip_protects_requests[OF reach rest(1-3) trip(1) _ trip(2) _ rest(4,5) send url] send
  show ?thesis by auto
qed

text \<open>C6: a cooldown lasts exactly its window: after a trip of an upstream that was not cooling
  down, with no task between its load and its store, however discovery, polling and the trips
  of any number of requests go on, the upstream stays in its vector, is cooling down before
  the end of the window and not from then on: trips that other requests make meanwhile do not
  extend it (trips after the end of the window start new ones and are left out). This holds
  as long as no DNS answer before the trip repeats an endpoint and every successful answer
  after it still has the upstream, alone of its endpoint; a polling round or a DNS refresh
  that had loaded the snapshot before the trip would lose it.\<close>
theorem cooldown_lasts_its_window:
  assumes "reach t0 ls s" and "list_all distinct_answer ls" and "dns_cur s = None" and "poll_cur s = None"
    and "trip (cell s) (cell s) a d c = Some y" and "0 < d"
    and "\<not> already_cooled (cell s) a (tc_start c)" and "monotone_clock c"
    and "a \<in> set (addrs_of (pool_of t (cell s)))"
    and "steps (s\<lparr>cell := y\<rparr>) later s'" and "list_all (keeps t a) later"
    and "\<And>loaded e c'. Tripped loaded a e c' \<in> set later \<Longrightarrow> tc_updated c' < tc_start c + d"
  shows "a \<in> set (addrs_of (pool_of t (cell s'))) \<and>
    (\<forall>u\<in>set (pool_of t (cell s')). addr u = a \<longrightarrow> (\<forall>now. is_in_cooldown u now \<longleftrightarrow> now < tc_start c + d))"
proof -
  have "\<forall>x\<in>snapshots s'. windowed t a (tc_start c + d) x"
    using steps_cooled[OF assms(10) _ assms(11)] quiet_trip_windows[OF assms(1-9)] assms(12)
    unfolding windowed_def by blast
  then have win: "cooled_for (\<lambda>v. v = tc_start c + d) t a (cell s')" by (simp add: snapshots_def windowed_def)
  have "is_in_cooldown u now \<longleftrightarrow> now < tc_start c + d" if "u \<in> set (pool_of t (cell s'))" "addr u = a" for u now
    using cooled_entry[OF win that] by (metis is_in_cooldown_def option.simps(5))
  with win show ?thesis by (simp add: cooled_for_def)
qed

text \<open>A second trip, for 500 ns and by a request that loaded the cell before the first one, and
  then the end of the window.\<close>
lemma cooldown_lasts_its_window_witness:
  "is_in_cooldown (hd (gpu (one_gpu Ok (Some 100)))) = (\<lambda>now. now < 100)"
proof -
  let ?s = "idle (one_gpu Ok None)" and ?later = "[Tripped (one_gpu Ok None) demo_addr 500 (clock_at 0), Tick 100]"
  have trip: "trip (cell ?s) (cell ?s) demo_addr 100 (clock_at 0) = Some (one_gpu Ok (Some 100))"
    "\<not> already_cooled (cell ?s) demo_addr (tc_start (clock_at 0))"
    "trip (one_gpu Ok None) (one_gpu Ok (Some 100)) demo_addr 500 (clock_at 0) = Some (one_gpu Ok (Some 100))"
    by (simp_all add: idle_def trip_def already_cooled_def instant_add_def trip_next_def one_gpu_def
        is_in_cooldown_def time_defs)
  have steps: "steps (?s\<lparr>cell := one_gpu Ok (Some 100)\<rparr>) ?later (idle (one_gpu Ok (Some 100))\<lparr>clock := 100\<rparr>)"
    by (rule steps_Cons[where s' = "idle (one_gpu Ok (Some 100))"]
        steps_Cons[where s' = "idle (one_gpu Ok (Some 100))\<lparr>clock := 100\<rparr>"] steps_nil;
      simp add: step_simps idle_def trip)+
  have rest: "list_all distinct_answer demo_trace" "dns_cur ?s = None" "poll_cur ?s = None"
    "demo_addr \<in> set (addrs_of (pool_of Gpu (cell ?s)))" "list_all (keeps Gpu demo_addr) ?later"
    by (simp_all add: demo_trace_def idle_def one_gpu_def)
  have pos: "0 < (100 :: duration)" "monotone_clock (clock_at 0)" by simp_all
  show ?thesis
    using cooldown_lasts_its_window[OF demo_reach rest(1-3) trip(1) pos(1) trip(2) pos(2) rest(4) steps rest(5)]
    by (simp add: idle_def one_gpu_def fun_eq_iff)
qed



end
