(* ===== verification/Readiness.thy ===== *)
theory Readiness
  imports Health_Loop Policy
begin

text \<open>
  How soon an upstream that answers its health polls is routable: the polling loop in time
  (Health_Loop) together with the selection policy (Policy). Discovery has to have put the
  address into the snapshots that the rounds load; the rounds may find any other content.
\<close>

text \<open>The results of a round for an address are those of its own reply.\<close>

lemma round_result:
  assumes "r \<in> set (poll_concurrent (joined (round_tasks net scheme t loaded)))"
  shows "pr_addr r \<in> set (poll_targets loaded) \<and>
    r = poll_one (pr_addr r) (snd (poll_task net scheme t (pr_addr r)))"
proof -
  have "\<exists>a q. (a, Joined q) \<in> set ts \<and> r = poll_one a q" if "r \<in> set (poll_concurrent ts)" for ts
    using that by (induction ts rule: poll_concurrent.induct) auto
  then obtain a q where aq: "(a, Joined q) \<in> set (joined (round_tasks net scheme t loaded))" "r = poll_one a q"
    using assms by blast
  then obtain d where "(a, d, q) \<in> set (round_tasks net scheme t loaded)" by (auto simp: joined_def)
  then have "a \<in> set (poll_targets loaded)" "q = snd (poll_task net scheme t a)"
    unfolding round_tasks_mem by (auto dest: arg_cong[of _ _ snd])
  moreover have "pr_addr r = a" unfolding aq(2) by (rule poll_one_addr)
  ultimately show ?thesis using aq(2) by simp
qed

lemma round_answers:
  assumes "a \<in> set (poll_targets loaded)"
  shows "\<exists>r\<in>set (poll_concurrent (joined (round_tasks net scheme t loaded))). pr_addr r = a"
proof -
  have mem: "poll_one a q \<in> set (poll_concurrent ts)" if "(a, Joined q) \<in> set ts" for q ts
    using that by (induction ts rule: poll_concurrent.induct) auto
  obtain d q where dq: "(d, q) = poll_task net scheme t a" by (metis surj_pair)
  with assms have "(a, d, q) \<in> set (round_tasks net scheme t loaded)"
    unfolding round_tasks_mem by simp
  then have "(a, Joined q) \<in> set (joined (round_tasks net scheme t loaded))"
    by (force simp: joined_def)
  from mem[OF this] show ?thesis by (rule bexI[rotated]) (rule poll_one_addr)
qed

text \<open>A round in which the upstream reports ok makes its entries Ok.\<close>

lemma round_makes_ok:
  assumes "a \<in> set (poll_targets loaded)"
    and "snd (poll_task net scheme t a) = Success (Some b)" and "body_status b \<in> {''ok'', ''warn''}"
    and "u \<in> set (upstreams (apply_updates current (poll_concurrent (joined (round_tasks net scheme t loaded))) now))"
    and "addr u = a"
  shows "status u = Ok"
proof -
  let ?rs = "poll_concurrent (joined (round_tasks net scheme t loaded))"
  obtain v where v: "u = apply_result ?rs now v" using assms(4) by (auto simp: update_pool_def)
  then have "addr v = a" using assms(5) by simp
  with round_answers[OF assms(1), of net scheme t] obtain r where r: "find (\<lambda>r. pr_addr r = addr v) ?rs = Some r"
    by (cases "find (\<lambda>r. pr_addr r = addr v) ?rs") (auto simp: find_None_iff_ball)
  then have "r \<in> set ?rs" "pr_addr r = a" using \<open>addr v = a\<close> by (auto dest: find_SomeD)
  then have "r = poll_one a (Success (Some b))" using round_result[of r net scheme t loaded] assms(2) by simp
  then show ?thesis using v r assms(3) by (auto simp: apply_result_def parse_status_def)
qed

text \<open>The first round from an instant on starts at most one gap later.\<close>

lemma first_round_from:
  assumes "health_run c net start loads = Some rounds" and "start \<le> D"
    and "j < length loads" and "D \<le> fst (rounds ! j)"
  obtains i where "i < length loads" "D \<le> fst (rounds ! i)"
    "fst (rounds ! i) \<le> D + max (health_poll c) (from_secs 4)"
proof -
  define i where "i = (LEAST i. D \<le> fst (rounds ! i))"
  have i: "D \<le> fst (rounds ! i)" "i \<le> j"
    unfolding i_def using assms(4) by (auto intro: LeastI Least_le)
  have "fst (rounds ! i) \<le> D + max (health_poll c) (from_secs 4)"
  proof (cases i)
    case 0
    have "fst (rounds ! 0) = start"
      using assms(1,3) by (cases loads) (auto simp: health_run_def interval_def tick_loop_start tick_def Let_def split: if_splits)
    then show ?thesis using 0 assms(2) by simp
  next
    case (Suc k)
    then have "\<not> D \<le> fst (rounds ! k)" unfolding i_def by (metis Suc_n_not_le_n Least_le)
    moreover have "fst (rounds ! Suc k) \<le> fst (rounds ! k) + max (health_poll c) (from_secs 4)"
      using rounds_gap[OF assms(1), of k] Suc i(2) assms(3) by simp
    ultimately show ?thesis using Suc by simp
  qed
  with i assms(3) show thesis by (intro that[of i]) auto
qed

section \<open>Properties\<close>

text \<open>C17: an upstream that is discovered by \<open>D\<close> and from then on answers its health polls with ok
  or warn in time is routable, unless it is cooling down, from the store of a round that ends
  at most one polling gap (the larger of the interval and four seconds) and four seconds after
  \<open>D\<close>, whatever that store finds in the cell.\<close>
theorem healthy_upstream_becomes_routable:
  assumes "health_run c net start loads = Some rounds" and "start \<le> D"
    and "j < length loads" and "D \<le> fst (rounds ! j)"
    and "\<forall>i<length loads. D \<le> fst (rounds ! i) \<longrightarrow> a \<in> set (poll_targets (loads ! i))"
    and "\<forall>t\<ge>D. \<exists>b. snd (poll_task net (upstream_scheme_of c) t a) = Success (Some b) \<and>
        body_status b \<in> {''ok'', ''warn''}"
  shows "\<exists>i<length loads. snd (rounds ! i) \<le> D + max (health_poll c) (from_secs 4) + from_secs 4 \<and>
    (\<forall>current now now' u.
       u \<in> set (upstreams (apply_updates current
         (poll_concurrent (joined (round_tasks net (upstream_scheme_of c) (fst (rounds ! i)) (loads ! i)))) now)) \<longrightarrow>
       addr u = a \<longrightarrow> \<not> is_in_cooldown u now' \<longrightarrow> routable u now')"
proof -
  obtain i where i: "i < length loads" "D \<le> fst (rounds ! i)"
    "fst (rounds ! i) \<le> D + max (health_poll c) (from_secs 4)"
    using first_round_from[OF assms(1-4)] .
  have "snd (rounds ! i) \<le> fst (rounds ! i) + from_secs 4" using round_end[OF assms(1) i(1)] .
  then have "snd (rounds ! i) \<le> D + max (health_poll c) (from_secs 4) + from_secs 4" using i(3) by linarith
  moreover obtain b where "snd (poll_task net (upstream_scheme_of c) (fst (rounds ! i)) a) = Success (Some b)"
    "body_status b \<in> {''ok'', ''warn''}" using assms(6) i(2) by blast
  note round_makes_ok[OF _ this, of "loads ! i"]
  moreover have "a \<in> set (poll_targets (loads ! i))" using assms(5) i(1,2) by blast
  ultimately show ?thesis
    using i(1) unfolding routable_iff by blast
qed

lemma healthy_upstream_becomes_routable_witness:
  "\<exists>i<3. snd (the (health_run default_config
      (\<lambda>_ _. \<lparr>ex_head = Some (0, Head 200), ex_body = Some (0, Some \<lparr>body_status = ''ok'', body_workers = None, body_queue_depth = None\<rparr>)\<rparr>)
      0 [demo_snapshot, demo_snapshot, demo_snapshot]) ! i) \<le> from_secs 3 + from_secs 5 + from_secs 4"
proof -
  let ?b = "\<lparr>body_status = ''ok'', body_workers = None, body_queue_depth = None\<rparr>"
  let ?net = "\<lambda>_ _. \<lparr>ex_head = Some (0, Head 200), ex_body = Some (0, Some ?b)\<rparr>"
  let ?loads = "[demo_snapshot, demo_snapshot, demo_snapshot]"
  obtain rounds where r: "health_run default_config ?net 0 ?loads = Some rounds"
    by (simp add: health_run_def interval_def default_config_def from_secs_def time_defs)
  have secs: "health_poll default_config = from_secs 5" "from_secs 4 \<le> from_secs 5" "from_secs 3 \<le> from_secs 5"
    "max (from_secs 5) (from_secs 4) = from_secs 5"
    by (simp_all add: default_config_def from_secs_def max_def)
  have "fst (rounds ! 1) = from_secs 5"
    using rounds_exact[OF r, of 1] secs by simp
  then have late: "from_secs 3 \<le> fst (rounds ! 1)" using secs by simp
  have targets: "\<forall>i<length ?loads. from_secs 3 \<le> fst (rounds ! i) \<longrightarrow> demo_addr \<in> set (poll_targets (?loads ! i))"
    by (auto simp: less_Suc_eq poll_targets_def demo_snapshot_def demo_upstream_def)
  have answers: "\<forall>t\<ge>from_secs 3. \<exists>b. snd (poll_task ?net (upstream_scheme_of default_config) t demo_addr) = Success (Some b) \<and>
      body_status b \<in> {''ok'', ''warn''}"
    by (simp add: poll_task_def poll_request_def timed_reply_def is_success_def)
  have start: "0 \<le> from_secs 3" and j: "1 < length ?loads" by simp_all
  obtain i where "i < length ?loads"
    "snd (rounds ! i) \<le> from_secs 3 + max (health_poll default_config) (from_secs 4) + from_secs 4"
    using healthy_upstream_becomes_routable[OF r start j late targets answers] by (elim exE conjE) (rule that)
  then show ?thesis unfolding r option.sel secs by (intro exI[of _ i]) simp
qed

end
