(* ===== verification/Inference.thy ===== *)
theory Inference
  imports Handlers
begin

text \<open>
  When an inference request is answered. The hedged race has no deadline of its own, so this
  depends on the network: a bound when every upstream answers in time, the promise of the
  hedge when only the secondary does, and what happens when neither does.
\<close>

section \<open>Runs that meet a specification\<close>

lemma handle_proxy_inference:
  assumes "hr_body rq = Some (d, Inr body)" and "is_inference_path (path_and_query_of rq)"
  shows "handle_proxy E c rq w =
    bind_run (hedged_race E c (hedge_delay c) (ctx_of c rq body) (advance E (w_now w + d) w))
      (\<lambda>result w'. case result of
         Inr resp \<Rightarrow> Returned [] resp w'
       | Inl e \<Rightarrow>
           Returned [(w_now w', Log (RoutingFailed (app_error_display e) (path_and_query_of rq)))]
             (app_error_into_response e) w')"
  using assms by (simp add: handle_proxy_def Let_def route_def for_path_def ctx_of_def)

text \<open>What an inference request gives, from what its race is specified to give.\<close>

lemma inference_by_spec:
  assumes "hr_body rq = Some (d, Inr body)" and "is_inference_path (path_and_query_of rq)"
    and "w1 = advance E (w_now w + d) w"
    and "hedge_spec E c (hedge_delay c) (ctx_of c rq body) (w_pool w1) (w_now w1) = x"
  shows "case handle_proxy E c rq w of
      Returned es resp w' \<Rightarrow>
        (\<exists>r. x = Some (w_now w', r) \<and> resp = (case r of Inr y \<Rightarrow> y | Inl e \<Rightarrow> app_error_into_response e))
    | Hung es \<Rightarrow> x = None
    | Aborted es \<Rightarrow>
        (\<exists>s. fails_at E c (ctx_of c rq body) (hedge_legs (hedge_delay c) (w_pool w1) (w_now w1)) s \<and>
           not_before s x \<and> instant_max < s + cooldown c)"
proof -
  note m = hedged_race_meets[of E c "ctx_of c rq body" "hedge_delay c" w1, unfolded assms(4)]
  note run = handle_proxy_inference[OF assms(1,2), of E c w, folded assms(3)]
  show ?thesis
  proof (cases "hedged_race E c (hedge_delay c) (ctx_of c rq body) w1")
    case (Returned es r w')
    then show ?thesis using m run by (cases r) (auto simp: meets_def)
  qed (use m run in \<open>auto simp: meets_def\<close>)
qed

section \<open>Bounds\<close>

lemma race_spec_both:
  assumes "g = Some (tg, rg)" and "s = Some (ts, rs)"
  shows "\<exists>T r. race_spec g s = Some (T, r) \<and> T \<le> max tg ts"
  using assms by (auto simp: race_spec_def winning_def max_def)

lemma race_spec_secondary:
  assumes "s = Some (ts, rs)" and "is_winner rs"
  shows "\<exists>T r. race_spec g s = Some (T, r) \<and> T \<le> ts \<and> is_winner r"
  using assms by (cases g) (auto simp: race_spec_def winning_def)

lemma hedge_spec_bound:
  assumes "answers_within (net E) D" and "retry_initial_backoff c \<le> retry_max_backoff c"
  shows "\<exists>T r. hedge_spec E c delay fc s now = Some (T, r) \<and>
    T \<le> now + delay + D + unat (retry_count c) * (D + retry_max_backoff c)"
proof -
  let ?B = "D + unat (retry_count c) * (D + retry_max_backoff c)"
  have loop: "\<exists>e r. retry_spec (net E) (retry_config_of c) fc a t now = Some (e, r) \<and> e \<le> now + ?B" for a t now
    using retry_loop_bound[OF assms(1), of "retry_config_of c" fc a t now] assms(2)
    unfolding forward_with_retry_spec by (simp add: retry_config_of_def add.assoc)
  show ?thesis
  proof (cases "pick_gpu s now")
    case None
    show ?thesis
    proof (cases "secondary_candidate s None now")
      case (Some cand)
      obtain sa sp where "cand = (sa, sp)" by fastforce
      then show ?thesis using loop[of sa sp now] None Some by (fastforce simp: hedge_spec_def)
    qed (simp add: None hedge_spec_def)
  next
    case (Some cand)
    obtain ga gt where ga: "cand = (ga, gt)" by fastforce
    from loop[of ga Gpu now] obtain tg rg where
      g: "retry_spec (net E) (retry_config_of c) fc ga Gpu now = Some (tg, rg)" "tg \<le> now + ?B" by blast
    show ?thesis
    proof (cases "secondary_candidate s (pick_gpu s now) now")
      case None
      then show ?thesis using g Some ga by (auto simp: hedge_spec_def)
    next
      case sec: (Some cand')
      obtain sa sp where sa: "cand' = (sa, sp)" by fastforce
      from loop[of sa sp "now + delay"] obtain ts rs where
        s: "retry_spec (net E) (retry_config_of c) fc sa sp (now + delay) = Some (ts, rs)" "ts \<le> now + delay + ?B"
        by blast
      have "max tg ts \<le> now + delay + ?B" using g(2) s(2) by simp
      then show ?thesis using race_spec_both[OF g(1) s(1)] Some ga sec sa
        by (fastforce simp: hedge_spec_def)
    qed
  qed
qed

section \<open>Properties\<close>

text \<open>C16: an inference request is answered when the upstreams are: if the network answers every
  request within \<open>D\<close>, the client has its response no later than the hedge delay and a full
  retry loop, \<open>D + retry_count * (D + retry_max_backoff)\<close>, after its body; the process
  aborts only if a cooldown set by then leaves the range of the clock.\<close>
theorem inference_answered:
  assumes "hr_body rq = Some (d, Inr body)" and "is_inference_path (path_and_query_of rq)"
    and "answers_within (net E) D" and "retry_initial_backoff c \<le> retry_max_backoff c"
    and "T = w_now w + d + hedge_delay c + D + unat (retry_count c) * (D + retry_max_backoff c)"
  shows "case handle_proxy E c rq w of
      Returned es resp w' \<Rightarrow> w_now w' \<le> T
    | Hung es \<Rightarrow> False
    | Aborted es \<Rightarrow> instant_max < T + cooldown c"
proof -
  let ?w = "advance E (w_now w + d) w"
  obtain e r where x: "hedge_spec E c (hedge_delay c) (ctx_of c rq body) (w_pool ?w) (w_now ?w) = Some (e, r)"
    and e: "e \<le> T"
    using hedge_spec_bound[OF assms(3,4)] unfolding assms(5) advance_now by blast
  show ?thesis
    using inference_by_spec[OF assms(1,2) refl x] e
    by (fastforce simp: not_before_def split: run.splits)
qed

definition embed_request :: http_request where
  "embed_request = demo_request\<lparr>hr_method := ''POST'', hr_path := ''/v1/embeddings'', hr_path_and_query := None\<rparr>"

lemma default_times:
  "hedge_delay default_config = from_millis 5000" "retry_count default_config = 3"
  "retry_max_backoff default_config = from_millis 1000" "cooldown default_config = from_secs 30"
  by (simp_all add: default_config_def)

lemma embed_request_sel:
  "hr_body embed_request = Some (0, Inr [])" "is_inference_path (path_and_query_of embed_request)"
  by (simp_all add: embed_request_def demo_request_def path_and_query_of_def is_inference_path_def
      starts_with_def)

lemma inference_answered_witness:
  "case handle_proxy prompt_runtime default_config embed_request \<lparr>w_now = 0, w_pool = demo_snapshot, w_env = ()\<rparr> of
     Returned es resp w' \<Rightarrow> w_now w' \<le> from_millis 5000 + 1000 + 3 * (1000 + from_millis 1000)
   | Hung es \<Rightarrow> False
   | Aborted es \<Rightarrow> False"
proof -
  let ?w = "\<lparr>w_now = 0, w_pool = demo_snapshot, w_env = ()\<rparr>"
  let ?T = "w_now ?w + 0 + hedge_delay default_config + 1000 +
    unat (retry_count default_config) * (1000 + retry_max_backoff default_config)"
  have "answers_within (net prompt_runtime) 1000" "retry_initial_backoff default_config \<le> retry_max_backoff default_config"
    by (simp_all add: answers_within_def prompt_runtime_def prompt_net_def default_config_def)
  note ans = inference_answered[OF embed_request_sel this, of ?T ?w, OF refl]
  have "\<not> instant_max < ?T + cooldown default_config"
    by (simp add: default_times from_millis_def from_secs_def time_defs)
  with ans show ?thesis by (simp add: default_times split: run.splits)
qed

text \<open>C7: the promise of the hedge: whatever the primary GPU does, even if it never answers, when
  the secondary answers its first request, sent one hedge delay after the body, within \<open>D\<close>
  and with anything but a 5xx, the client has a non-5xx response no later than the hedge delay
  and \<open>D\<close> after its body; the process aborts only if a cooldown set by then leaves the range
  of the clock.\<close>
theorem hedge_masks_slow_gpu:
  assumes "hr_body rq = Some (d, Inr body)" and "is_inference_path (path_and_query_of rq)"
    and "w1 = advance E (w_now w + d) w" and "pick_gpu (w_pool w1) (w_now w1) = Some (ga, Gpu)"
    and "secondary_candidate (w_pool w1) (Some (ga, Gpu)) (w_now w1) = Some (sa, sp)"
    and "net E sp 0 (forward_request (ctx_of c rq body) sa) (w_now w1 + hedge_delay c) = Some (D, Answered code hs out)"
    and "\<not> is_retryable (forward_answer sa sp (Answered code hs out))"
  shows "case handle_proxy E c rq w of
      Returned es resp w' \<Rightarrow> w_now w' \<le> w_now w1 + hedge_delay c + D \<and> \<not> is_server_error (resp_status resp)
    | Hung es \<Rightarrow> False
    | Aborted es \<Rightarrow> instant_max < w_now w1 + hedge_delay c + D + cooldown c"
proof -
  let ?fc = "ctx_of c rq body" and ?ts = "w_now w1 + hedge_delay c + D"
  have "retry_spec (net E) (retry_config_of c) ?fc sa sp (w_now w1 + hedge_delay c) =
      Some (?ts, forward_answer sa sp (Answered code hs out))"
    using forward_with_retry_final[of "net E" sp ?fc sa, OF assms(6,7)]
    unfolding forward_with_retry_spec[symmetric] by simp
  from race_spec_secondary[OF this] assms(7) obtain T r where
    T: "race_spec (retry_spec (net E) (retry_config_of c) ?fc ga Gpu (w_now w1))
      (retry_spec (net E) (retry_config_of c) ?fc sa sp (w_now w1 + hedge_delay c)) = Some (T, r)"
    "T \<le> ?ts" "is_winner r" unfolding is_winner_iff by blast
  have x: "hedge_spec E c (hedge_delay c) ?fc (w_pool w1) (w_now w1) = Some (T, r)"
    using T(1) assms(4,5) by (simp add: hedge_spec_def)
  obtain resp where r: "r = Inr resp" "\<not> is_server_error (resp_status resp)" using T(3) by (cases r) simp_all
  show ?thesis using inference_by_spec[OF assms(1-3) x] T(2) r
    by (fastforce simp: not_before_def split: run.splits)
qed

text \<open>A network in which GPUs never answer and CPUs answer at once.\<close>

definition cpu_only :: "unit runtime" where
  "cpu_only = \<lparr>net = (\<lambda>t k q now. case t of Gpu \<Rightarrow> None | Cpu \<Rightarrow> Some (1000, Answered 200 [] ''ok'')),
     drift = (\<lambda>_ _ x. x), to_json = (\<lambda>_. None)\<rparr>"

abbreviation mixed_pools :: pool_snapshot where
  "mixed_pools \<equiv> \<lparr>gpu = [demo_upstream demo_addr Gpu 0], cpu = [demo_upstream demo_addr3 Cpu 0], updated_at = 0\<rparr>"

lemma mixed_picks:
  "pick_gpu mixed_pools 0 = Some (demo_addr, Gpu)"
  "secondary_candidate mixed_pools (Some (demo_addr, Gpu)) 0 = Some (demo_addr3, Cpu)"
  by (simp_all add: pick_gpu_def pick_cpu_def pick_ok_def secondary_candidate_def pick_gpu_excluding_set_def
      pick_tier_def demo_upstream_def is_ok_eligible_def is_loading_eligible_def is_in_cooldown_def)

lemma hedge_masks_slow_gpu_witness:
  "case handle_proxy cpu_only default_config embed_request \<lparr>w_now = 0, w_pool = mixed_pools, w_env = ()\<rparr> of
     Returned es resp w' \<Rightarrow> w_now w' \<le> from_millis 5000 + 1000 \<and> \<not> is_server_error (resp_status resp)
   | Hung es \<Rightarrow> False
   | Aborted es \<Rightarrow> False"
proof -
  let ?w = "\<lparr>w_now = 0, w_pool = mixed_pools, w_env = ()\<rparr>"
  have w: "?w = advance cpu_only (w_now ?w + 0) ?w" by (simp add: advance_def cpu_only_def)
  have picks: "pick_gpu (w_pool ?w) (w_now ?w) = Some (demo_addr, Gpu)"
    "secondary_candidate (w_pool ?w) (Some (demo_addr, Gpu)) (w_now ?w) = Some (demo_addr3, Cpu)"
    using mixed_picks by simp_all
  have net: "net cpu_only Cpu 0 (forward_request (ctx_of default_config embed_request []) demo_addr3)
      (w_now ?w + hedge_delay default_config) = Some (1000, Answered 200 [] ''ok'')"
    by (simp add: cpu_only_def)
  have ok: "\<not> is_retryable (forward_answer demo_addr3 Cpu (Answered 200 [] ''ok''))"
    by (simp add: status_from_u16_def unwrap_or_def is_server_error_def)
  have "\<not> instant_max < w_now ?w + hedge_delay default_config + 1000 + cooldown default_config"
    by (simp add: default_times from_millis_def from_secs_def time_defs)
  with hedge_masks_slow_gpu[OF embed_request_sel w picks net ok] show ?thesis
    by (simp add: default_times split: run.splits)
qed

text \<open>C38: the hedged race has no deadline: when the primary GPU never answers its first request
  and the secondary fails (its retries end in a 5xx or a transport error, or it never answers
  either), the client is never answered. The only trip is the one that ends the retry loop of
  the secondary, so the silent GPU is not tripped unless the secondary is the same address in
  the CPU pool. The process aborts only if the cooldown set at the end of that loop leaves
  the range of the clock.\<close>
theorem silent_gpu_hangs_request:
  assumes "hr_body rq = Some (d, Inr body)" and "is_inference_path (path_and_query_of rq)"
    and "w1 = advance E (w_now w + d) w" and "pick_gpu (w_pool w1) (w_now w1) = Some (ga, Gpu)"
    and "secondary_candidate (w_pool w1) (Some (ga, Gpu)) (w_now w1) = Some (sa, sp)"
    and "net E Gpu 0 (forward_request (ctx_of c rq body) ga) (w_now w1) = None"
    and "snd (forward_with_retry (net E) (retry_config_of c) (ctx_of c rq body) sa sp (w_now w1 + hedge_delay c)) = x"
    and "case x of None \<Rightarrow> True | Some (T, r) \<Rightarrow> is_retryable r"
  shows "(case handle_proxy E c rq w of
      Returned es resp w' \<Rightarrow> False
    | Hung es \<Rightarrow> True
    | Aborted es \<Rightarrow> (\<exists>T r. x = Some (T, r) \<and> instant_max < T + cooldown c)) \<and>
    set (trips (effects_of (handle_proxy E c rq w))) \<subseteq>
      (case x of None \<Rightarrow> {} | Some (T, r) \<Rightarrow> {(T, sa, cooldown c)}) \<and>
    ((\<forall>s e. (s, ga, e) \<notin> set (trips (effects_of (handle_proxy E c rq w)))) \<or> sa = ga \<and> sp = Cpu)"
proof -
  let ?fc = "ctx_of c rq body"
  have hang: "retry_spec (net E) (retry_config_of c) ?fc ga Gpu (w_now w1) = None"
    using forward_with_retry_hang[of "net E" Gpu ?fc ga "w_now w1"] assms(6)
    unfolding forward_with_retry_spec[symmetric] by simp
  note sec = assms(7)[unfolded forward_with_retry_spec]
  have spec: "hedge_spec E c (hedge_delay c) ?fc (w_pool w1) (w_now w1) = None"
    using hang sec assms(4,5,8)
    by (auto simp: hedge_spec_def race_spec_def winning_def is_winner_iff split: option.splits)
  have answered: "case handle_proxy E c rq w of
      Returned es resp w' \<Rightarrow> False
    | Hung es \<Rightarrow> True
    | Aborted es \<Rightarrow> (\<exists>T r. x = Some (T, r) \<and> instant_max < T + cooldown c)"
    using inference_by_spec[OF assms(1-3) spec] hang sec assms(4,5)
    by (auto simp: fails_at_def hedge_legs_def split: run.splits)
  let ?race = "run_race E c (hedge_delay c) ga sa sp ?fc (x_headers_json E (fc_headers ?fc))"
  have "hedged_race E c (hedge_delay c) ?fc w1 = run_async E ?race w1"
    using assms(4,5) by (simp add: hedged_race_def Let_def)
  then have "(s, Trip a e) \<in> set (fst (?race (w_now w1)))"
    if "(s, Trip a e) \<in> set (effects_of (handle_proxy E c rq w))" for s a e
    using that effects_of_run_async[of E ?race w1] unfolding handle_proxy_inference[OF assms(1,2)] assms(3)[symmetric]
    by (cases "run_async E ?race w1") (auto split: sum.splits)
  then have "set (trips (effects_of (handle_proxy E c rq w))) \<subseteq>
      (case x of None \<Rightarrow> {} | Some (T, r) \<Rightarrow> {(T, sa, cooldown c)})"
    using run_race_trip[of _ _ _ E c "hedge_delay c" ga sa sp ?fc] hang sec
    by (fastforce simp: trips_mem fwd_snd)
  moreover have "ga \<noteq> sa \<or> sp = Cpu"
    using secondary_candidate_Some(2)[of "w_pool w1" "w_now w1" sa sp] assms(4,5) by (cases sp) auto
  ultimately show ?thesis using answered by (cases x) auto
qed

lemma silent_gpu_hangs_request_witness:
  "(case handle_proxy silent_runtime default_config embed_request \<lparr>w_now = 0, w_pool = mixed_pools, w_env = ()\<rparr> of
     Returned es resp w' \<Rightarrow> False
   | Hung es \<Rightarrow> True
   | Aborted es \<Rightarrow> False) \<and>
   trips (effects_of (handle_proxy silent_runtime default_config embed_request
     \<lparr>w_now = 0, w_pool = mixed_pools, w_env = ()\<rparr>)) = []"
proof -
  let ?w = "\<lparr>w_now = 0, w_pool = mixed_pools, w_env = ()\<rparr>"
  have w: "?w = advance silent_runtime (w_now ?w + 0) ?w" by (simp add: advance_def silent_runtime_def)
  have picks: "pick_gpu (w_pool ?w) (w_now ?w) = Some (demo_addr, Gpu)"
    "secondary_candidate (w_pool ?w) (Some (demo_addr, Gpu)) (w_now ?w) = Some (demo_addr3, Cpu)"
    using mixed_picks by simp_all
  have net: "net silent_runtime Gpu 0 (forward_request (ctx_of default_config embed_request []) demo_addr) (w_now ?w) = None"
    by (simp add: silent_runtime_def)
  have sec: "snd (forward_with_retry (net silent_runtime) (retry_config_of default_config)
      (ctx_of default_config embed_request []) demo_addr3 Cpu (w_now ?w + hedge_delay default_config)) = None"
    by (simp add: silent_runtime_def forward_with_retry_hang)
  from silent_gpu_hangs_request[OF embed_request_sel w picks net sec] show ?thesis
    by (auto split: run.splits)
qed

end
