(* ===== verification/Provenance.thy ===== *)
theory Provenance
  imports Handlers
begin

text \<open>
  Where the response of a proxied request comes from: the answer of the network to one of the
  requests that were sent for it, already arrived when the response is given. What a client
  sees as a response of an upstream is one, and the header that names the upstream is right.
\<close>

section \<open>Outcomes with a source\<close>

definition sourced_outcome ::
  "network \<Rightarrow> forward_ctx \<Rightarrow> (instant \<times> effect) list \<Rightarrow> instant \<Rightarrow> outcome \<Rightarrow> bool" where
  "sourced_outcome N fc es T r \<longleftrightarrow>
     (\<exists>s t k a d ans. (s, SendRequest t k (forward_request fc a)) \<in> set es \<and>
        N t k (forward_request fc a) s = Some (d, ans) \<and> s + d \<le> T \<and> r = forward_answer a t ans)"

lemma sourcedI:
  "(s, SendRequest t k (forward_request fc a)) \<in> set es \<Longrightarrow>
     N t k (forward_request fc a) s = Some (d, ans) \<Longrightarrow> s + d \<le> T \<Longrightarrow>
     sourced_outcome N fc es T (forward_answer a t ans)"
  unfolding sourced_outcome_def by blast

lemma sourced_mono:
  assumes "sourced_outcome N fc es T r" and "set es \<subseteq> set es'" and "T \<le> T'"
  shows "sourced_outcome N fc es' T' r"
proof -
  obtain s t k a d ans where "(s, SendRequest t k (forward_request fc a)) \<in> set es"
    "N t k (forward_request fc a) s = Some (d, ans)" "s + d \<le> T" and r: "r = forward_answer a t ans"
    using assms(1) unfolding sourced_outcome_def by blast
  with assms(2,3) show ?thesis unfolding r by (intro sourcedI[of s t k]) auto
qed

lemma loop_from_sourced:
  assumes "j \<le> unat (max_retries rc)" and "snd (loop_from N rc fc a t j b now) = Some (e, r)"
  shows "sourced_outcome N fc (fst (loop_from N rc fc a t j b now)) e r"
  using assms
proof (induction j b now rule: attempts_induct)
  case (attempt j b now)
  show ?case
  proof (cases rule: loop_from_cases[OF attempt(1), where net = N and t = t and fc = fc and a = a
      and now = now and b = b])
    case (4 d ans)
    then have "snd (loop_from N rc fc a t (Suc j) (next_backoff rc b) (now + d + b)) = Some (e, r)"
      using attempt(3) by (simp add: Let_def)
    from attempt(2)[OF 4(3) this] show ?thesis
      by (rule sourced_mono) (auto simp: 4(4) Let_def)
  next
    case (2 d ans)
    then show ?thesis using attempt(3) by (auto intro: sourcedI)
  next
    case (3 d ans)
    then show ?thesis using attempt(3) by (auto intro: sourcedI)
  qed (use attempt(3) in simp)
qed

lemma forward_with_retry_sourced:
  "snd (forward_with_retry N rc fc a t now) = Some (e, r) \<Longrightarrow>
     sourced_outcome N fc (fst (forward_with_retry N rc fc a t now)) e r"
  unfolding forward_with_retry_loop by (rule loop_from_sourced) simp

section \<open>The race\<close>

text \<open>A race gives the outcome of one of its futures, which has completed, and performs all
  effects of that future.\<close>

lemma select_winner_source:
  assumes "snd (select_winner ri gd sd gf sf G S now hist) = Some (T, r)"
    and "race_inv t0 gd sd G S now hist" and "gd \<Longrightarrow> gf \<noteq> None"
  shows "now \<le> T \<and> set hist \<subseteq> set (fst (select_winner ri gd sd gf sf G S now hist)) \<and>
    ((\<exists>F\<in>{G, S}. \<exists>t\<le>T. snd F = Some (t, r) \<and>
        set (fst F) \<subseteq> set (fst (select_winner ri gd sd gf sf G S now hist))) \<or>
     gd \<and> gf = Some r)"
  using assms
proof (induction gd sd gf sf G S now hist rule: select_measure_induct)
  case (turn gd sd gf sf G S now hist)
  note inv = turn(4)[unfolded race_inv_def]
  have later: "now \<le> t" if "snd F = Some (t, x)" "F \<in> {G, S}" for F t x
    using inv that by (auto simp: timeline_ok_def)
  show ?case
  proof (cases rule: select_winner_cases[of gd sd ri gf sf G S now hist])
    case both
    then show ?thesis using turn(3,5) by (cases gf) (auto simp: unwrap_or_def)
  next
    case never
    then show ?thesis using turn(3) by simp
  next
    case (gpu_wins T' r' st)
    then show ?thesis using turn(3) later[of G T' r'] by (auto simp: set_interleave)
  next
    case (secondary_wins T' r' st)
    then show ?thesis using turn(3) later[of S T' r'] by (auto simp: set_interleave)
  next
    case (gpu_loses T' r')
    let ?e = "log_loser_attempt ri ''GPU'' (ri_gpu ri) r' T'"
    have "race_inv t0 True sd ([], None) (effects_from T' (fst S), snd S) T'
        (hist @ interleave (fst G) (effects_before T' (fst S)) @ [?e])"
      by (rule race_inv_gpu[OF turn(4) gpu_loses(2,4)]) simp
    from turn(1)[OF gpu_loses(1) turn(3)[unfolded gpu_loses(5)] this]
    show ?thesis unfolding gpu_loses(5) using gpu_loses(2) later[of G T' r'] not_le
      by (fastforce simp: set_interleave subset_iff)
  next
    case (secondary_loses T' r')
    let ?e = "log_loser_attempt ri (pool_as_str (ri_pool ri)) (ri_secondary ri) r' T'"
    have "race_inv t0 gd True (effects_after T' (fst G), snd G) ([], None) T'
        (hist @ interleave (effects_until T' (fst G)) (fst S) @ [?e])"
      by (rule race_inv_secondary[OF turn(4) secondary_loses(2,4)]) simp
    from turn(2)[OF secondary_loses(1) turn(3)[unfolded secondary_loses(5)] this turn(5)]
    show ?thesis unfolding secondary_loses(5) using secondary_loses(2) later[of S T' r'] not_le
      by (fastforce simp: set_interleave subset_iff)
  qed
qed

lemma fwd_sourced:
  "snd (fwd E c fc a t now) = Some (e, r) \<Longrightarrow> sourced_outcome (net E) fc (fst (fwd E c fc a t now)) e r"
  unfolding fwd_def by (rule forward_with_retry_sourced)

lemma run_race_sourced:
  assumes "snd (run_race E c delay ga sa sp fc xh start) = Some (T, r)"
  shows "sourced_outcome (net E) fc (fst (run_race E c delay ga sa sp fc xh start)) T r"
proof -
  let ?G = "fwd E c fc ga Gpu start" and ?S = "secondary_fut E c delay fc ga sa sp start"
  have inv: "race_inv start False False ?G ?S start []"
    by (simp add: race_inv_def hist_ok_def async_ok)
  obtain F t where F: "F \<in> {?G, ?S}" "t \<le> T" "snd F = Some (t, r)"
    "set (fst F) \<subseteq> set (fst (run_race E c delay ga sa sp fc xh start))"
    using select_winner_source[OF assms[unfolded run_race_def] inv] unfolding run_race_def by blast
  have "sourced_outcome (net E) fc (fst F) t r"
  proof (cases "F = ?G")
    case True
    then show ?thesis using F(3) fwd_sourced by metis
  next
    case False
    then have "F = ?S" using F(1) by simp
    then show ?thesis using F(3) fwd_sourced[of E c fc sa sp "start + delay" t r]
      by (auto simp: secondary_fut_eq elim: sourced_mono)
  qed
  then show ?thesis using F(2,4) by (blast intro: sourced_mono)
qed

section \<open>Why there is no response of an upstream\<close>

text \<open>
  \<open>asked\<close>: a request was sent to the upstream. \<open>unserved\<close>: at the end of a run no CPU is
  routable, and neither is any GPU but those it asked, unless it asked two already.
  \<open>cpu_expired\<close>: the retry loop against a CPU had not ended when its budget was up.
\<close>

definition asked :: "forward_ctx \<Rightarrow> pool_type \<Rightarrow> (instant \<times> effect) list \<Rightarrow> socket_addr \<Rightarrow> bool" where
  "asked fc t es a \<longleftrightarrow> (\<exists>s k. (s, SendRequest t k (forward_request fc a)) \<in> set es)"

definition unserved :: "forward_ctx \<Rightarrow> (instant \<times> effect) list \<Rightarrow> pool_snapshot \<Rightarrow> instant \<Rightarrow> bool" where
  "unserved fc es s now \<longleftrightarrow>
     (\<forall>u\<in>set (cpu s). \<not> routable u now) \<and>
     ((\<forall>u\<in>set (gpu s). routable u now \<longrightarrow> asked fc Gpu es (addr u)) \<or>
      (\<exists>a b. a \<noteq> b \<and> asked fc Gpu es a \<and> asked fc Gpu es b))"

definition cpu_expired ::
  "network \<Rightarrow> retry_config \<Rightarrow> duration \<Rightarrow> forward_ctx \<Rightarrow> (instant \<times> effect) list \<Rightarrow> instant \<Rightarrow> bool" where
  "cpu_expired N rc per fc es T \<longleftrightarrow>
     (\<exists>a s. (s, SendRequest Cpu 0 (forward_request fc a)) \<in> set es \<and> T = s + per \<and>
        (case retry_spec N rc fc a Cpu s of None \<Rightarrow> True | Some (t, _) \<Rightarrow> T < t))"

lemma asked_mono: "asked fc t es a \<Longrightarrow> set es \<subseteq> set es' \<Longrightarrow> asked fc t es' a"
  by (auto simp: asked_def)

lemma unserved_mono: "unserved fc es s now \<Longrightarrow> set es \<subseteq> set es' \<Longrightarrow> unserved fc es' s now"
  unfolding unserved_def by (meson asked_mono)

lemma cpu_expired_mono: "cpu_expired N rc per fc es T \<Longrightarrow> set es \<subseteq> set es' \<Longrightarrow> cpu_expired N rc per fc es' T"
  unfolding cpu_expired_def by blast

text \<open>Every stage of the sequential strategy asks its upstream at once.\<close>

lemma forward_with_retry_asks:
  "(now, SendRequest t 0 (forward_request fc a)) \<in> set (fst (forward_with_retry N rc fc a t now))"
  unfolding forward_with_retry_def
  by (subst upt_conv_Cons) (simp_all add: await_def forward_eq split: option.split)

lemma gpu_attempt_asks:
  "(now, SendRequest Gpu 0 (forward_request fc ga)) \<in> set (fst (gpu_attempt E c per fc ga now))"
  using forward_with_retry_asks[of now Gpu fc ga]
  by (cases rule: gpu_attempt_cases[of E c per fc ga now])
    (auto simp: trimmed_forward_def effects_until_def)

text \<open>The GPU loop gives up when two GPUs were asked or no other is routable.\<close>

lemma gpu_loop_gives_up:
  assumes "gpu_loop E c per fc tried cand w = Returned es None w'"
    and "cand = pick_gpu_excluding_set (w_pool w) tried (w_now w)" and "distinct tried"
  shows "\<exists>gs. distinct (tried @ gs) \<and> (\<forall>a\<in>set gs. asked fc Gpu es a) \<and>
    (max_gpu_attempts \<le> length (tried @ gs) \<or>
     pick_gpu_excluding_set (w_pool w') (tried @ gs) (w_now w') = None)"
  using assms
proof (induction E c per fc tried cand w arbitrary: es rule: gpu_loop.induct)
  case (1 E c per fc tried w)
  then show ?case by (intro exI[of _ "[]"]) auto
next
  case (2 E c per fc tried ga t w)
  show ?case
  proof (cases "max_gpu_attempts \<le> length tried")
    case True
    then show ?thesis using 2(4) by (intro exI[of _ "[]"]) simp
  next
    case False
    let ?tried = "tried @ [ga]"
    obtain es1 r1 w1 where one: "run_async E (gpu_attempt E c per fc ga) w = Returned es1 r1 w1"
      using 2(2) False by (cases "run_async E (gpu_attempt E c per fc ga) w") auto
    have r1: "r1 = None" using 2(2) False one by (cases r1) auto
    obtain es2 where es2: "gpu_loop E c per fc ?tried
        (pick_gpu_excluding_set (w_pool w1) ?tried (w_now w1)) w1 = Returned es2 None w'" "es = es1 @ es2"
      using 2(2) False one r1
      by (cases "gpu_loop E c per fc ?tried (pick_gpu_excluding_set (w_pool w1) ?tried (w_now w1)) w1")
        (auto simp: Let_def)
    have dist: "distinct ?tried"
      using 2(4) pick_gpu_excluding_set_fresh[OF 2(3)[symmetric]] by simp
    have ga: "asked fc Gpu es1 ga"
      using gpu_attempt_asks run_async_Returned[OF one] unfolding asked_def by blast
    from 2(1)[OF False r1 refl es2(1) refl dist] obtain gs where gs:
      "distinct (?tried @ gs)" "\<forall>a\<in>set gs. asked fc Gpu es2 a"
      "max_gpu_attempts \<le> length (?tried @ gs) \<or> pick_gpu_excluding_set (w_pool w') (?tried @ gs) (w_now w') = None"
      by blast
    then show ?thesis using ga es2(2)
      by (intro exI[of _ "ga # gs"]) (auto intro: asked_mono)
  qed
qed

lemma gpu_stage_gives_up:
  assumes "gpu_loop E c per fc [] (pick_gpu (w_pool w) (w_now w)) w = Returned es None w'"
    and "pick_cpu (w_pool w') (w_now w') = None"
  shows "unserved fc es (w_pool w') (w_now w')"
proof -
  obtain gs where gs: "distinct gs" "\<forall>a\<in>set gs. asked fc Gpu es a"
    "2 \<le> length gs \<or> pick_gpu_excluding_set (w_pool w') gs (w_now w') = None"
    using gpu_loop_gives_up[OF assms(1)] by (auto simp: pick_gpu_excluding_nil max_gpu_attempts_def)
  have cpu: "\<forall>u\<in>set (cpu (w_pool w')). \<not> routable u (w_now w')"
    using assms(2) unfolding pick_cpu_None .
  from gs(3) show ?thesis
  proof
    assume "2 \<le> length gs"
    then obtain a b gs' where ab: "gs = a # b # gs'"
      by (auto simp: Suc_le_length_iff numeral_2_eq_2)
    then have "a \<noteq> b" "asked fc Gpu es a" "asked fc Gpu es b" using gs(1,2) by simp_all
    with cpu show ?thesis unfolding unserved_def by blast
  next
    assume "pick_gpu_excluding_set (w_pool w') gs (w_now w') = None"
    then have "\<forall>u\<in>set (gpu (w_pool w')). addr u \<in> set gs \<or> \<not> routable u (w_now w')"
      unfolding pick_gpu_excluding_set_def pick_tier_None .
    with gs(2) cpu show ?thesis unfolding unserved_def by blast
  qed
qed

section \<open>The strategies\<close>

text \<open>
  \<open>accounted P N fc x\<close>: what the run \<open>x\<close> returns has a source, or there is none because
  of \<open>P\<close>, a property of the effects and of the world in which it returns.
\<close>

definition accounted ::
  "((instant \<times> effect) list \<Rightarrow> 'env world \<Rightarrow> bool) \<Rightarrow> network \<Rightarrow> forward_ctx \<Rightarrow> ('env, outcome) run \<Rightarrow> bool" where
  "accounted P N fc x \<longleftrightarrow>
     (case x of
        Returned es r w \<Rightarrow> r = Inl NoUpstreamAvailable \<and> P es w \<or> sourced_outcome N fc es (w_now w) r
      | _ \<Rightarrow> True)"

lemma run_async_accounted:
  assumes "\<And>T r w'. snd (m (w_now w)) = Some (T, r) \<Longrightarrow> w_now w' = T \<Longrightarrow>
      r = Inl NoUpstreamAvailable \<and> P (fst (m (w_now w))) w' \<or> sourced_outcome N fc (fst (m (w_now w))) T r"
  shows "accounted P N fc (run_async E m w)"
  by (cases rule: run_async_cases[of m w E]) (use assms in \<open>auto simp: accounted_def\<close>)

lemma direct_sourced:
  assumes "snd (direct E c fc a t xh now) = Some (T, r)"
  shows "sourced_outcome (net E) fc (fst (direct E c fc a t xh now)) T r"
proof -
  have "snd (fwd E c fc a t now) = Some (T, r)" using assms unfolding direct_snd .
  from fwd_sourced[OF this] show ?thesis
    by (rule sourced_mono) (auto simp: direct_def await_def split: option.split)
qed

lemma hedged_race_accounted:
  "accounted (\<lambda>es w'. es = [] \<and> w' = w \<and> (\<forall>u\<in>set (upstreams (w_pool w)). \<not> routable u (w_now w)))
     (net E) fc (hedged_race E c delay fc w)"
proof -
  have d: "accounted P (net E) fc (run_async E (direct E c fc a t xh) w)" for P a t xh
    by (rule run_async_accounted) (rule disjI2, rule direct_sourced)
  have r: "accounted P (net E) fc (run_async E (run_race E c delay ga sa sp fc xh) w)" for P ga sa sp xh
    by (rule run_async_accounted) (rule disjI2, rule run_race_sourced)
  show ?thesis
  proof (cases "pick_gpu (w_pool w) (w_now w)")
    case None
    show ?thesis
    proof (cases "secondary_candidate (w_pool w) None (w_now w)")
      case no: None
      with None show ?thesis
        by (simp add: hedged_race_def accounted_def Let_def)
          (auto simp: pick_gpu_None secondary_candidate_None)
    qed (use None d in \<open>auto simp: hedged_race_def Let_def\<close>)
  qed (auto simp: hedged_race_def Let_def d r split: option.split)
qed

lemma gpu_attempt_sourced:
  assumes "snd (gpu_attempt E c per fc ga now) = Some (T, Some out)"
  shows "sourced_outcome (net E) fc (fst (gpu_attempt E c per fc ga now)) T out"
proof (cases rule: gpu_attempt_cases[of E c per fc ga now])
  case (answered t' resp)
  then show ?thesis using assms forward_with_retry_sourced
    unfolding trimmed_forward_def by fastforce
qed (use assms in auto)

lemma cpu_sourced:
  assumes "snd (forward_cpu_with_timeout E c per fc ca now) = Some (T, r)"
  shows "r = Inl NoUpstreamAvailable \<and>
      cpu_expired (net E) (retry_config_of c) per fc (fst (forward_cpu_with_timeout E c per fc ca now)) T \<or>
    sourced_outcome (net E) fc (fst (forward_cpu_with_timeout E c per fc ca now)) T r"
proof -
  let ?m = "forward_with_retry (net E) (retry_config_of c) fc ca Cpu now"
  show ?thesis
  proof (cases "\<exists>t' x. snd ?m = Some (t', x) \<and> t' \<le> now + per")
    case True
    then obtain t' x where x: "snd ?m = Some (t', x)" "t' \<le> now + per" by blast
    then have "forward_cpu_with_timeout E c per fc ca now = (fst ?m, Some (t', x))"
      by (simp add: forward_cpu_with_timeout_def await_def timeout_def ready_def)
    then show ?thesis using assms x forward_with_retry_sourced by fastforce
  next
    case False
    then have late: "timeout per (forward_with_retry (net E) (retry_config_of c) fc ca Cpu) now =
        (effects_until (now + per) (fst ?m), Some (now + per, None))"
      by (auto simp: timeout_def split: option.splits)
    then have "T = now + per" "r = Inl NoUpstreamAvailable"
      using assms by (simp_all add: forward_cpu_with_timeout_def await_def emit_def ready_def)
    moreover have "(now, SendRequest Cpu 0 (forward_request fc ca)) \<in>
        set (fst (forward_cpu_with_timeout E c per fc ca now))"
      using forward_with_retry_asks[of now Cpu fc ca "net E" "retry_config_of c"] late
      by (simp add: forward_cpu_with_timeout_def await_def emit_def ready_def)
    ultimately show ?thesis
      using False unfolding cpu_expired_def forward_with_retry_spec[symmetric]
      by (auto simp: not_le split: option.split)
  qed
qed

lemma gpu_loop_sourced:
  "gpu_loop E c per fc tried cand w = Returned es (Some out) w' \<Longrightarrow> sourced_outcome (net E) fc es (w_now w') out"
proof (induction E c per fc tried cand w arbitrary: es rule: gpu_loop.induct)
  case (2 E c per fc tried ga t w)
  have go: "\<not> max_gpu_attempts \<le> length tried" using 2(2) by auto
  obtain es1 r1 w1 where one: "run_async E (gpu_attempt E c per fc ga) w = Returned es1 r1 w1"
    using 2(2) go by (cases "run_async E (gpu_attempt E c per fc ga) w") auto
  show ?case
  proof (cases r1)
    case None
    let ?tried = "tried @ [ga]"
    obtain es2 where es2: "gpu_loop E c per fc ?tried
        (pick_gpu_excluding_set (w_pool w1) ?tried (w_now w1)) w1 = Returned es2 (Some out) w'" "es = es1 @ es2"
      using 2(2) go one None
      by (cases "gpu_loop E c per fc ?tried (pick_gpu_excluding_set (w_pool w1) ?tried (w_now w1)) w1")
        (auto simp: Let_def)
    from 2(1)[OF go None refl es2(1)] show ?thesis by (rule sourced_mono) (auto simp: es2(2))
  next
    case (Some x)
    then have "x = out" "es = es1" "w1 = w'" using 2(2) go one by auto
    then show ?thesis using run_async_Returned[OF one] gpu_attempt_sourced Some by metis
  qed
qed simp

lemma accounted_prepend:
  assumes "accounted P N fc x" and "\<And>es w. P es w \<Longrightarrow> P (es' @ es) w"
  shows "accounted P N fc (prepend es' x)"
  using assms sourced_mono[of N fc _ _ _ "es' @ _"] by (cases x) (fastforce simp: accounted_def)+

lemma sequential_accounted:
  "accounted (\<lambda>es w'. unserved fc es (w_pool w') (w_now w') \<or>
       cpu_expired (net E) (retry_config_of c) per fc es (w_now w'))
     (net E) fc (sequential_timeout E c per fc w)" (is "accounted ?P _ _ _")
proof (cases "gpu_loop E c per fc [] (pick_gpu (w_pool w) (w_now w)) w")
  case (Returned es1 r1 w1)
  show ?thesis
  proof (cases r1)
    case (Some out)
    then show ?thesis using Returned gpu_loop_sourced[OF Returned[unfolded Some]]
      by (simp add: sequential_timeout_def accounted_def)
  next
    case no: None
    show ?thesis
    proof (cases "pick_cpu (w_pool w1) (w_now w1)")
      case None
      then show ?thesis using Returned no gpu_stage_gives_up[OF Returned[unfolded no] None]
        by (simp add: sequential_timeout_def accounted_def)
    next
      case (Some cand)
      obtain ca t where cand: "cand = (ca, t)" by fastforce
      have cpu: "accounted ?P (net E) fc (run_async E (forward_cpu_with_timeout E c per fc ca) w1)"
        by (rule run_async_accounted) (use cpu_sourced in fast)
      have "?P (es1 @ es) w'" if "?P es w'" for es w'
        using that by (auto intro: unserved_mono cpu_expired_mono)
      from accounted_prepend[OF cpu this] show ?thesis
        using Returned no Some cand by (simp add: sequential_timeout_def)
    qed
  qed
qed (simp_all add: sequential_timeout_def accounted_def)

lemma accounted_weaken:
  "accounted P N fc x \<Longrightarrow> (\<And>es w. P es w \<Longrightarrow> Q es w) \<Longrightarrow> accounted Q N fc x"
  by (auto simp: accounted_def split: run.splits)

lemma route_accounted:
  "accounted
     (\<lambda>es w'. if is_inference_path (path_and_query_of rq) then sends es = [] \<and> (\<forall>u\<in>set (upstreams (w_pool w')). \<not> routable u (w_now w'))
        else unserved (ctx_of c rq body) es (w_pool w') (w_now w') \<or>
          cpu_expired (net E) (retry_config_of c) (control_timeout c) (ctx_of c rq body) es (w_now w'))
     (net E) (ctx_of c rq body) (route E c (hr_method rq) (path_and_query_of rq) (hr_headers rq) body w)"
proof (cases "is_inference_path (path_and_query_of rq)")
  case True
  then show ?thesis
    unfolding route_def Let_def ctx_of_def[symmetric] for_path_def
    by (auto intro: accounted_weaken[OF hedged_race_accounted])
next
  case False
  then show ?thesis
    unfolding route_def Let_def ctx_of_def[symmetric] for_path_def
    by (auto intro: accounted_weaken[OF sequential_accounted])
qed

section \<open>Properties\<close>

text \<open>C5: every response to a proxied request is accounted for. It is 400 when the client's body
  cannot be read. It is 503 with the text of \<open>NoUpstreamAvailable\<close> in three cases only: an
  inference request found no routable upstream and contacted none; a control-plane request
  ended where no CPU is routable, nor any GPU it has not asked unless it asked two; or the
  retry loop against the CPU that it asked had not ended when the control timeout was up.
  Otherwise it is made from the answer that the network gave to one of the requests sent for
  it, to the very upstream and pool that the observability headers name, already arrived when
  the response is given; a transport error becomes 502 with its text.\<close>
theorem response_has_a_source:
  assumes "handle_proxy E c rq w = Returned es resp w'"
  shows "(\<exists>d e. hr_body rq = Some (d, Inl e) \<and> resp = text_response 400 ''failed to read request body'') \<or>
    (\<exists>d body. hr_body rq = Some (d, Inr body) \<and> resp = text_response 503 ''no upstream available'' \<and>
       (if is_inference_path (path_and_query_of rq)
        then sends es = [] \<and> (\<forall>u\<in>set (upstreams (w_pool w')). \<not> routable u (w_now w'))
        else unserved (ctx_of c rq body) es (w_pool w') (w_now w') \<or>
          cpu_expired (net E) (retry_config_of c) (control_timeout c) (ctx_of c rq body) es (w_now w'))) \<or>
    (\<exists>d body s t k a d' ans. hr_body rq = Some (d, Inr body) \<and>
       (s, SendRequest t k (forward_request (ctx_of c rq body) a)) \<in> set es \<and>
       net E t k (forward_request (ctx_of c rq body) a) s = Some (d', ans) \<and> s + d' \<le> w_now w' \<and>
       resp = (case forward_answer a t ans of Inr x \<Rightarrow> x | Inl e \<Rightarrow> app_error_into_response e))"
proof (cases "hr_body rq")
  case None
  then show ?thesis using assms by (simp add: handle_proxy_def Let_def)
next
  case (Some db)
  obtain d b where db: "db = (d, b)" by fastforce
  show ?thesis
  proof (cases b)
    case (Inl e)
    then show ?thesis using assms Some db by (simp add: handle_proxy_def Let_def)
  next
    case (Inr body)
    let ?w = "advance E (w_now w + d) w" and ?fc = "ctx_of c rq body"
    let ?run = "route E c (hr_method rq) (path_and_query_of rq) (hr_headers rq) body ?w"
    let ?P = "\<lambda>es w'. if is_inference_path (path_and_query_of rq)
        then sends es = [] \<and> (\<forall>u\<in>set (upstreams (w_pool w')). \<not> routable u (w_now w'))
        else unserved ?fc es (w_pool w') (w_now w') \<or>
          cpu_expired (net E) (retry_config_of c) (control_timeout c) ?fc es (w_now w')"
    have run: "accounted ?P (net E) ?fc ?run"
      by (rule route_accounted)
    obtain es1 r w1 where r: "?run = Returned es1 r w1"
      using assms Some db Inr by (cases ?run) (auto simp: handle_proxy_def Let_def)
    have resp: "resp = (case r of Inr x \<Rightarrow> x | Inl e \<Rightarrow> app_error_into_response e)" "w1 = w'"
      "\<exists>l. es = es1 @ l \<and> sends l = []"
      using assms Some db Inr r by (auto simp: handle_proxy_def Let_def split: sum.splits)
    then have es: "set es1 \<subseteq> set es" "sends es = sends es1" by auto
    from run r have "r = Inl NoUpstreamAvailable \<and> ?P es1 w1 \<or> sourced_outcome (net E) ?fc es1 (w_now w1) r"
      by (simp add: accounted_def)
    then show ?thesis
    proof
      assume no: "r = Inl NoUpstreamAvailable \<and> ?P es1 w1"
      then have "?P es w'"
        unfolding es(2) resp(2) using unserved_mono[OF _ es(1)] cpu_expired_mono[OF _ es(1)]
        by (simp split: if_splits) blast
      then show ?thesis using no resp(1) Some db Inr by (auto simp: app_error_into_response_def)
    next
      assume "sourced_outcome (net E) ?fc es1 (w_now w1) r"
      then obtain s t k a d' ans where "(s, SendRequest t k (forward_request ?fc a)) \<in> set es1"
        "net E t k (forward_request ?fc a) s = Some (d', ans)" "s + d' \<le> w_now w1" "r = forward_answer a t ans"
        unfolding sourced_outcome_def by blast
      then show ?thesis using resp(1,2) es(1) Some db Inr by blast
    qed
  qed
qed

text \<open>Two GPUs and a CPU that answer every request with 200 after a microsecond.\<close>

lemma response_has_a_source_witness:
  "\<exists>s t k a. (s, SendRequest t k (forward_request (ctx_of default_config demo_request []) a)) \<in>
       set (effects_of (handle_proxy prompt_runtime default_config demo_request \<lparr>w_now = 0, w_pool = demo_snapshot, w_env = ()\<rparr>)) \<and>
     s = 0"
proof -
  let ?w = "\<lparr>w_now = 0, w_pool = demo_snapshot, w_env = ()\<rparr>" and ?fc = "ctx_of default_config demo_request []"
  let ?r = "forward_answer demo_addr Gpu (Answered 200 [] ''ok'')"
  obtain resp where resp: "?r = Inr resp" "resp_status resp = 200"
    by (simp add: status_from_u16_def unwrap_or_def)
  have "forward_with_retry prompt_net rc ?fc demo_addr Gpu 0 =
      ([(0, SendRequest Gpu 0 (forward_request ?fc demo_addr))], Some (1000, Inr resp))" for rc
    using forward_with_retry_final[of prompt_net Gpu ?fc demo_addr 0 1000 "Answered 200 [] ''ok''"] resp
    by (simp add: prompt_net_def is_server_error_def del: forward_answer.simps)
  then have "gpu_attempt prompt_runtime default_config (from_millis 1000) ?fc demo_addr 0 =
      ([(0, SendRequest Gpu 0 (forward_request ?fc demo_addr))], Some (1000, Some (Inr resp)))"
    using resp by (simp add: gpu_attempt_def await_def[of "timeout _ _"] timeout_def ready_def
        is_server_error_def prompt_runtime_def from_millis_def nanos_per_milli_def)
  then have run: "run_async prompt_runtime (gpu_attempt prompt_runtime default_config (from_millis 1000) ?fc demo_addr) ?w =
      Returned [(0, SendRequest Gpu 0 (forward_request ?fc demo_addr))] (Some (Inr resp)) (?w\<lparr>w_now := 1000\<rparr>)"
    by (simp add: run_async_def advance_def prompt_runtime_def)
  have "pick_gpu demo_snapshot 0 = Some (demo_addr, Gpu)"
    by (simp add: pick_gpu_def pick_ok_def demo_snapshot_def demo_upstream_def is_ok_eligible_def is_in_cooldown_def)
  then have "sequential_timeout prompt_runtime default_config (from_millis 1000) ?fc ?w =
      Returned [(0, SendRequest Gpu 0 (forward_request ?fc demo_addr))] (Inr resp) (?w\<lparr>w_now := 1000\<rparr>)"
    by (simp add: sequential_timeout_def run max_gpu_attempts_def)
  moreover have "hr_body demo_request = Some (0, Inr [])" "path_and_query_of demo_request = ''/v1/models''"
    "\<not> is_inference_path ''/v1/models''" "advance prompt_runtime 0 ?w = ?w"
    by (simp_all add: demo_request_def path_and_query_of_def is_inference_path_def starts_with_def
        advance_def prompt_runtime_def)
  ultimately have h: "handle_proxy prompt_runtime default_config demo_request ?w =
      Returned [(0, SendRequest Gpu 0 (forward_request ?fc demo_addr))] resp (?w\<lparr>w_now := 1000\<rparr>)"
    by (simp add: handle_proxy_def Let_def route_def for_path_def ctx_of_def default_config_def)
  have "resp \<noteq> text_response c m" if "c \<noteq> 200" for c m using resp(2) that by (auto simp: text_response_def)
  with response_has_a_source[OF h] show ?thesis
    unfolding h effects_of.simps by (auto simp: demo_request_def prompt_runtime_def prompt_net_def)
qed

end
