(* ===== verification/Aftermath.thy ===== *)
theory Aftermath
  imports Handlers
begin

text \<open>
  What a failed control-plane request leaves behind in the shared snapshot when no other task
  writes it meanwhile: every GPU that the request tried in vain is cooling down when the client
  has its error, long enough for the configured window, and no selector chooses it for the
  requests that follow.
\<close>

section \<open>Trips and one upstream\<close>

abbreviation undisturbed :: "'env runtime \<Rightarrow> bool" where
  "undisturbed E \<equiv> drift E = (\<lambda>_ _ x. x)"

text \<open>
  The address is in the GPU vector and nowhere else in the snapshot. \<open>cooled_to B\<close>: its
  cooldown ends at \<open>B\<close> or later; \<open>fresh_or B t\<close>: so it does, or it is not cooling down at \<open>t\<close>.
\<close>

definition lone_address :: "socket_addr \<Rightarrow> pool_snapshot \<Rightarrow> bool" where
  "lone_address a s \<longleftrightarrow> distinct (addrs_of (upstreams s)) \<and> a \<in> set (addrs_of (gpu s))"

definition cooled_to :: "instant \<Rightarrow> socket_addr \<Rightarrow> pool_snapshot \<Rightarrow> bool" where
  "cooled_to B a s \<longleftrightarrow> lone_address a s \<and>
     (\<forall>u\<in>set (gpu s). addr u = a \<longrightarrow> (\<exists>e\<ge>B. cooldown_until u = Some e))"

definition fresh_or :: "instant \<Rightarrow> instant \<Rightarrow> socket_addr \<Rightarrow> pool_snapshot \<Rightarrow> bool" where
  "fresh_or B t a s \<longleftrightarrow> lone_address a s \<and>
     (\<forall>u\<in>set (gpu s). addr u = a \<longrightarrow> \<not> is_in_cooldown u t \<or> (\<exists>e\<ge>B. cooldown_until u = Some e))"

lemma lone_entry:
  "lone_address a s \<Longrightarrow> u \<in> set (gpu s) \<Longrightarrow> v \<in> set (gpu s) \<Longrightarrow> addr u = a \<Longrightarrow> addr v = a \<Longrightarrow> u = v"
  unfolding lone_address_def by (auto simp: distinct_map dest: inj_onD)

lemma trip_at_lone: "trip_at s b d t = Some s' \<Longrightarrow> lone_address a s \<Longrightarrow> lone_address a s'"
  unfolding trip_at_def lone_address_def by (drule trip_addrs) simp

lemma trip_at_entry:
  assumes "trip_at s b d t = Some s'" and "u \<in> set (gpu s')"
  shows "u \<in> set (gpu s) \<or> addr u = b \<and> cooldown_until u = Some (t + d)"
  using assms unfolding trip_at_def
  by (auto elim!: trip_cases dest: trip_pool_entry)

lemma trip_at_cooled_to:
  "trip_at s b d t = Some s' \<Longrightarrow> B \<le> t + d \<Longrightarrow> cooled_to B a s \<Longrightarrow> cooled_to B a s'"
  unfolding cooled_to_def using trip_at_lone trip_at_entry by blast

lemma trip_at_fresh_or:
  "trip_at s b d t = Some s' \<Longrightarrow> B \<le> t + d \<Longrightarrow> fresh_or B t0 a s \<Longrightarrow> fresh_or B t0 a s'"
  unfolding fresh_or_def using trip_at_lone trip_at_entry by blast

text \<open>A trip of the address cools it, unless a window that is long enough runs already.\<close>

lemma trip_at_cools:
  assumes "trip_at s a d t = Some s'" and "0 < d" and "B \<le> t + d" and "t0 \<le> t"
    and "fresh_or B t0 a s"
  shows "cooled_to B a s'"
proof -
  have lone: "lone_address a s" using assms(5) by (simp add: fresh_or_def)
  have cd: "\<exists>e\<ge>B. cooldown_until u = Some e" if u: "u \<in> set (gpu s')" "addr u = a" for u
    using assms(1) unfolding trip_at_def
  proof (cases rule: trip_cases)
    case unchanged
    with assms(2) obtain v where v: "v \<in> set (upstreams s)" "addr v = a" "is_in_cooldown v t"
      by (auto simp: already_cooled_def)
    have "v \<in> set (gpu s)" using v(1,2) lone by (auto simp: lone_address_def)
    then have "v = u" using lone_entry[OF lone, of v u] u v(2) unchanged(1) by simp
    with v(3) have "is_in_cooldown u t0" using assms(4) is_in_cooldown_antimono by blast
    with assms(5) u unchanged(1) show ?thesis unfolding fresh_or_def by blast
  next
    case tripped
    have "\<not> is_in_cooldown v t" if "v \<in> set (gpu s)" "addr v = a" for v
      using tripped(2) that by (auto simp: already_cooled_def)
    moreover have "distinct (addrs_of (gpu s))" "a \<in> set (addrs_of (gpu s))"
      using lone by (simp_all add: lone_address_def)
    ultimately have "cooldown_until u = Some (t + d)"
      using trip_pool_guards[of "gpu s" a t u "t + d"] u tripped(4) by simp
    then show ?thesis using assms(3) by simp
  qed
  with trip_at_lone[OF assms(1) lone] show ?thesis by (simp add: cooled_to_def)
qed

lemma cooled_to_not_picked:
  assumes "cooled_to B a s" and "now < B"
  shows "pick_gpu_excluding_set s tried now \<noteq> Some (a, Gpu)"
proof
  assume "pick_gpu_excluding_set s tried now = Some (a, Gpu)"
  then obtain u where "u \<in> set (gpu s)" "addr u = a" "routable u now"
    unfolding pick_gpu_excluding_set_def by (auto dest: pick_tier_Some)
  with assms show False by (auto simp: cooled_to_def routable_iff is_in_cooldown_def)
qed

section \<open>Runs\<close>

text \<open>What trips for \<open>C\<close> that end at \<open>B\<close> or later preserve.\<close>

definition steady :: "instant \<Rightarrow> duration \<Rightarrow> (pool_snapshot \<Rightarrow> bool) \<Rightarrow> bool" where
  "steady B C P \<longleftrightarrow> (\<forall>s b t s'. trip_at s b C t = Some s' \<longrightarrow> B \<le> t + C \<longrightarrow> P s \<longrightarrow> P s')"

lemma steady_cooled_to: "steady B C (cooled_to B a)"
  unfolding steady_def using trip_at_cooled_to by blast

lemma steady_fresh_or: "steady B C (fresh_or B t0 a)"
  unfolding steady_def using trip_at_fresh_or by blast

text \<open>Effects whose trips are for \<open>C\<close> and end at \<open>B\<close> or later.\<close>

definition late_trips :: "instant \<Rightarrow> duration \<Rightarrow> (instant \<times> effect) list \<Rightarrow> bool" where
  "late_trips B C es \<longleftrightarrow> (\<forall>s a d. (s, Trip a d) \<in> set es \<longrightarrow> d = C \<and> B \<le> s + C)"

lemma late_trips_append [simp]: "late_trips B C (es @ es') \<longleftrightarrow> late_trips B C es \<and> late_trips B C es'"
  unfolding late_trips_def set_append by blast

lemma late_tripsI:
  assumes "timeline_ok t m" and "\<And>s a d. (s, Trip a d) \<in> set (fst m) \<Longrightarrow> d = C" and "B \<le> t + C"
  shows "late_trips B C (fst m)"
  unfolding late_trips_def using assms(2,3) timeline_okD(1)[OF assms(1)]
  by (meson add_le_mono1 order_trans)

lemma advance_pool: "undisturbed E \<Longrightarrow> w_pool (advance E t w) = w_pool w"
  by (simp add: advance_still)

lemma perform_steady:
  assumes "undisturbed E" and "perform E e w = Some w'" and "late_trips B C [e]" and "steady B C P"
    and "P (w_pool w)"
  shows "P (w_pool w')"
proof -
  obtain s x where e: "e = (s, x)" by fastforce
  show ?thesis
  proof (cases x)
    case (Trip a d)
    then have "trip_at (w_pool w) a C s = Some (w_pool w')" "B \<le> s + C"
      using assms(1-3) e by (auto simp: Let_def advance_pool late_trips_def)
    then show ?thesis using assms(4,5) unfolding steady_def by blast
  qed (use assms e in \<open>auto simp: advance_pool\<close>)
qed

lemma perform_all_steady:
  assumes "undisturbed E" and "steady B C P"
  shows "perform_all E es w = Some w' \<Longrightarrow> late_trips B C es \<Longrightarrow> P (w_pool w) \<Longrightarrow> P (w_pool w')"
proof (induction es arbitrary: w)
  case (Cons e es)
  then obtain w1 where w1: "perform E e w = Some w1" "perform_all E es w1 = Some w'"
    by (auto simp: bind_eq_Some_conv)
  have "late_trips B C [e]" "late_trips B C es" using Cons(3) late_trips_append[of B C "[e]" es] by auto
  then show ?case using Cons(1)[OF w1(2)] perform_steady[OF assms(1) w1(1) _ assms(2)] Cons(4) by blast
qed simp

lemma perform_all_append:
  "perform_all E (es @ es') w = Option.bind (perform_all E es w) (perform_all E es')"
  by (induction es arbitrary: w) (auto simp: bind_eq_Some_conv split: bind_splits)

lemma run_async_steady:
  assumes "undisturbed E" and "run_async E m w = Returned es r w'" and "steady B C P"
    and "late_trips B C (fst (m (w_now w)))" and "P (w_pool w)"
  shows "P (w_pool w')"
  using assms(2) perform_all_steady[OF assms(1,3) _ assms(4,5)]
  by (auto simp: run_async_def advance_pool[OF assms(1)] split: option.splits)

text \<open>Among the effects is a trip of the address: it is cooled at the end.\<close>

lemma run_async_cools:
  assumes "undisturbed E" and "run_async E m w = Returned es r w'"
    and "(s, Trip a C) \<in> set (fst (m (w_now w)))" and "0 < C" and "t0 \<le> s"
    and "late_trips B C (fst (m (w_now w)))" and "fresh_or B t0 a (w_pool w)"
  shows "cooled_to B a (w_pool w')"
proof -
  obtain es1 es2 where es: "fst (m (w_now w)) = es1 @ (s, Trip a C) # es2"
    using assms(3) by (meson split_list)
  then have late: "late_trips B C es1" "late_trips B C [(s, Trip a C)]" "late_trips B C es2"
    using assms(6) late_trips_append[of B C "[(s, Trip a C)]" es2] by simp_all
  obtain w3 where w3: "perform_all E (es1 @ (s, Trip a C) # es2) w = Some w3" "w_pool w' = w_pool w3"
    using assms(2) unfolding run_async_def es by (auto simp: advance_pool[OF assms(1)] split: option.splits)
  then obtain w1 w2 where w1: "perform_all E es1 w = Some w1" and w2: "perform E (s, Trip a C) w1 = Some w2"
    "perform_all E es2 w2 = Some w3"
    by (auto simp: perform_all_append bind_eq_Some_conv simp del: perform.simps)
  have "fresh_or B t0 a (w_pool w1)"
    by (rule perform_all_steady[OF assms(1) steady_fresh_or w1 late(1) assms(7)])
  moreover have "trip_at (w_pool w1) a C s = Some (w_pool w2)"
    using w2(1) assms(1) by (auto simp: Let_def advance_pool)
  moreover have "B \<le> s + C" using late(2) by (simp add: late_trips_def)
  ultimately have "cooled_to B a (w_pool w2)" using trip_at_cools assms(4,5) by blast
  from perform_all_steady[OF assms(1) steady_cooled_to w2(2) late(3) this] show ?thesis
    unfolding w3(2) .
qed

section \<open>The sequential strategy\<close>

lemma gpu_attempt_late:
  "B \<le> now + cooldown c \<Longrightarrow> late_trips B (cooldown c) (fst (gpu_attempt E c per fc ga now))"
  by (rule late_tripsI[OF gpu_attempt_ok]) (auto dest: gpu_attempt_trip)

lemma cpu_attempt_late:
  "B \<le> now + cooldown c \<Longrightarrow> late_trips B (cooldown c) (fst (forward_cpu_with_timeout E c per fc ca now))"
  by (rule late_tripsI[OF cpu_try.ok]) (auto dest: cpu_attempt_trip)

lemma gpu_attempt_ends: "run_async E (gpu_attempt E c per fc ga) w = Returned es r w' \<Longrightarrow> w_now w \<le> w_now w'"
  using gpu_try.run_async_within[of w per c E E fc ga] by simp

lemma gpu_loop_steady:
  "undisturbed E \<Longrightarrow> steady B (cooldown c) P \<Longrightarrow> gpu_loop E c per fc tried cand w = Returned es r w' \<Longrightarrow>
     B \<le> w_now w + cooldown c \<Longrightarrow> P (w_pool w) \<Longrightarrow> P (w_pool w') \<and> w_now w \<le> w_now w'"
proof (induction E c per fc tried cand w arbitrary: es rule: gpu_loop.induct)
  case (2 E c per fc tried ga t w)
  show ?case
  proof (cases "max_gpu_attempts \<le> length tried")
    case False
    obtain es1 r1 w1 where one: "run_async E (gpu_attempt E c per fc ga) w = Returned es1 r1 w1"
      using 2(4) False by (cases "run_async E (gpu_attempt E c per fc ga) w") auto
    have P1: "P (w_pool w1)" "w_now w \<le> w_now w1"
      using run_async_steady[OF 2(2) one 2(3) gpu_attempt_late[OF 2(5)] 2(6)] gpu_attempt_ends[OF one] by auto
    show ?thesis
    proof (cases r1)
      case None
      let ?tried = "tried @ [ga]"
      obtain es2 where es2: "gpu_loop E c per fc ?tried
          (pick_gpu_excluding_set (w_pool w1) ?tried (w_now w1)) w1 = Returned es2 r w'"
        using 2(4) False one None
        by (cases "gpu_loop E c per fc ?tried (pick_gpu_excluding_set (w_pool w1) ?tried (w_now w1)) w1")
          (auto simp: Let_def)
      have "B \<le> w_now w1 + cooldown c" using 2(5) P1(2) by linarith
      from 2(1)[OF False None refl 2(2,3) es2 this P1(1)] P1(2) show ?thesis by simp
    next
      case (Some out)
      then show ?thesis using 2(4) False one P1 by auto
    qed
  qed (use 2 in auto)
qed auto

lemma picked_fresh:
  assumes "pick_gpu_excluding_set s tried now = Some (a, t)" and "distinct (addrs_of (upstreams s))"
  shows "fresh_or B now a s"
proof -
  obtain u where u: "u \<in> set (gpu s)" "addr u = a" "routable u now"
    using assms(1) unfolding pick_gpu_excluding_set_def by (auto dest: pick_tier_Some)
  then have lone: "lone_address a s" using assms(2) by (auto simp: lone_address_def)
  show ?thesis using lone_entry[OF lone u(1) _ u(2)] lone u(3)
    by (auto simp: fresh_or_def routable_iff)
qed

lemma steady_distinct: "steady B C (\<lambda>s. distinct (addrs_of (upstreams s)))"
  unfolding steady_def trip_at_def using trip_addrs by fastforce

lemma gpu_loop_cools:
  assumes "undisturbed E" and "gpu_loop E c per fc tried cand w = Returned es None w'"
    and "cand = pick_gpu_excluding_set (w_pool w) tried (w_now w)"
    and "distinct (addrs_of (upstreams (w_pool w)))" and "B \<le> w_now w + cooldown c" and "0 < cooldown c"
    and "(s, SendRequest t k q) \<in> set es"
  shows "\<exists>a. q = forward_request fc a \<and> cooled_to B a (w_pool w')"
  using assms
proof (induction E c per fc tried cand w arbitrary: es rule: gpu_loop.induct)
  case (2 E c per fc tried ga t' w)
  have go: "\<not> max_gpu_attempts \<le> length tried" using 2(3,8) by auto
  let ?tried = "tried @ [ga]"
  obtain es1 r1 w1 where one: "run_async E (gpu_attempt E c per fc ga) w = Returned es1 r1 w1"
    using 2(3) go by (cases "run_async E (gpu_attempt E c per fc ga) w") auto
  have r1: "r1 = None" using 2(3) go one by (cases r1) auto
  obtain es2 where es2: "gpu_loop E c per fc ?tried
      (pick_gpu_excluding_set (w_pool w1) ?tried (w_now w1)) w1 = Returned es2 None w'" "es = es1 @ es2"
    using 2(3) go one r1
    by (cases "gpu_loop E c per fc ?tried (pick_gpu_excluding_set (w_pool w1) ?tried (w_now w1)) w1")
      (auto simp: Let_def)
  note ret = run_async_Returned[OF one]
  have trip: "(w_now w1, Trip ga (cooldown c)) \<in> set (fst (gpu_attempt E c per fc ga (w_now w)))"
    using gpu_attempt_failed_trips ret r1 by metis
  have cooled: "cooled_to B ga (w_pool w1)"
    using run_async_cools[OF 2(2) one trip 2(7) gpu_attempt_ends[OF one] gpu_attempt_late[OF 2(6)]]
      picked_fresh[OF 2(4)[symmetric] 2(5)] by blast
  have dist: "distinct (addrs_of (upstreams (w_pool w1)))"
    by (rule run_async_steady[OF 2(2) one steady_distinct gpu_attempt_late[OF 2(6)] 2(5)])
  have B: "B \<le> w_now w1 + cooldown c" using 2(6) gpu_attempt_ends[OF one] by linarith
  from 2(8) es2(2) consider "(s, SendRequest t k q) \<in> set es1" | "(s, SendRequest t k q) \<in> set es2" by auto
  then show ?case
  proof cases
    case 1
    have "t = Gpu \<and> q = forward_request fc ga"
      using 1 ret gpu_attempt_sent_to[of fc ga E c per "w_now w"]
      by (cases t) (fastforce simp: sent_to_def sends_mem)+
    then show ?thesis using gpu_loop_steady[OF 2(2) steady_cooled_to es2(1) B cooled] by blast
  next
    case 2
    show ?thesis by (rule "2.IH"[OF go r1 refl \<open>undisturbed E\<close> es2(1) refl dist B \<open>0 < cooldown c\<close> 2])
  qed
qed simp

lemma sequential_cools:
  assumes "undisturbed E" and "sequential_timeout E c per fc w = Returned es r w'" and "is_retryable r"
    and "distinct (addrs_of (upstreams (w_pool w)))" and "0 < cooldown c"
    and "(s, SendRequest Gpu k q) \<in> set es"
  shows "\<exists>a. q = forward_request fc a \<and> cooled_to (w_now w + cooldown c) a (w_pool w')"
proof -
  let ?loop = "gpu_loop E c per fc [] (pick_gpu (w_pool w) (w_now w)) w"
  obtain es1 r1 w1 where one: "?loop = Returned es1 r1 w1"
    using assms(2) by (cases ?loop) (auto simp: sequential_timeout_def)
  have r1: "r1 = None"
    using gpu_loop_tripped[OF one] assms(2,3) one by (cases r1) (auto simp: sequential_timeout_def)
  have later: "w_now w \<le> w_now w1"
    using gpu_loop_steady[OF assms(1) steady_distinct one _ assms(4)] by auto
  have stage: "\<exists>a. q = forward_request fc a \<and> cooled_to (w_now w + cooldown c) a (w_pool w1)"
    if "(s, SendRequest Gpu k q) \<in> set es1"
    using gpu_loop_cools[OF assms(1) one[unfolded r1] _ assms(4) _ assms(5) that]
    by (simp add: pick_gpu_excluding_nil)
  show ?thesis
  proof (cases "pick_cpu (w_pool w1) (w_now w1)")
    case None
    then show ?thesis using assms(2,6) one r1 stage by (simp add: sequential_timeout_def)
  next
    case (Some cand)
    obtain ca t where cand: "cand = (ca, t)" by fastforce
    obtain es2 where cpu: "run_async E (forward_cpu_with_timeout E c per fc ca) w1 = Returned es2 r w'" "es = es1 @ es2"
      using assms(2) one r1 Some cand
      by (cases "run_async E (forward_cpu_with_timeout E c per fc ca) w1") (auto simp: sequential_timeout_def)
    have "(s, SendRequest Gpu k q) \<notin> set es2"
      using run_async_Returned[OF cpu(1)] cpu_attempt_sent_to[of fc ca E c per "w_now w1"]
      by (fastforce simp: sent_to_def sends_mem)
    then obtain a where a: "q = forward_request fc a" "cooled_to (w_now w + cooldown c) a (w_pool w1)"
      using stage assms(6) cpu(2) by auto
    have "late_trips (w_now w + cooldown c) (cooldown c) (fst (forward_cpu_with_timeout E c per fc ca (w_now w1)))"
      by (rule cpu_attempt_late) (use later in simp)
    from run_async_steady[OF assms(1) cpu(1) steady_cooled_to this a(2)] a(1) show ?thesis by blast
  qed
qed

section \<open>Properties\<close>

text \<open>C9: the breaker end to end: when a control-plane request fails (the client gets a 5xx) and no
  other task writes the snapshot meanwhile, every GPU it sent a request to is still known when
  the client has its answer and is not chosen by the dispatch of any request that follows
  before one cooldown after the body of the failed request. Every address must be once in the
  two vectors together: a running cooldown of the same address in the other vector makes a
  trip do nothing.\<close>
theorem failed_request_cools_gpus:
  assumes "drift E = (\<lambda>_ _ x. x)" and "distinct (addrs_of (upstreams (w_pool w)))" and "0 < cooldown c"
    and "hr_body rq = Some (d, Inr body)" and "\<not> is_inference_path (path_and_query_of rq)"
    and "handle_proxy E c rq w = Returned es resp w'" and "is_server_error (resp_status resp)"
    and "(s, SendRequest Gpu k q) \<in> set es"
  shows "\<exists>a. q = forward_request (ctx_of c rq body) a \<and> a \<in> set (addrs_of (gpu (w_pool w'))) \<and>
    (\<forall>now < w_now w + d + cooldown c.
       pick_gpu (w_pool w') now \<noteq> Some (a, Gpu) \<and>
       (\<forall>tried. pick_gpu_excluding_set (w_pool w') tried now \<noteq> Some (a, Gpu)))"
proof -
  let ?w = "advance E (w_now w + d) w" and ?fc = "ctx_of c rq body"
  let ?run = "sequential_timeout E c (control_timeout c) ?fc ?w"
  have run: "handle_proxy E c rq w = bind_run ?run (\<lambda>result w'. case result of
       Inr resp \<Rightarrow> Returned [] resp w'
     | Inl e \<Rightarrow> Returned [(w_now w', Log (RoutingFailed (app_error_display e) (path_and_query_of rq)))]
         (app_error_into_response e) w')"
    using assms(4,5) by (simp add: handle_proxy_def Let_def route_def for_path_def ctx_of_def)
  obtain es1 r w1 where r: "?run = Returned es1 r w1"
    using assms(6) unfolding run by (cases ?run) auto
  have rest: "w1 = w'" "(s, SendRequest Gpu k q) \<in> set es1" "is_retryable r"
    using assms(6-8) unfolding run r by (auto split: sum.splits)
  have "distinct (addrs_of (upstreams (w_pool ?w)))" using assms(1,2) by (simp add: advance_pool)
  from sequential_cools[OF assms(1) r rest(3) this assms(3) rest(2)] obtain a where
    a: "q = forward_request ?fc a" "cooled_to (w_now w + d + cooldown c) a (w_pool w')"
    unfolding rest(1) by auto
  have "pick_gpu_excluding_set (w_pool w') tried now \<noteq> Some (a, Gpu)" if "now < w_now w + d + cooldown c" for now tried
    using a(2) that by (rule cooled_to_not_picked)
  moreover have "a \<in> set (addrs_of (gpu (w_pool w')))" using a(2) by (simp add: cooled_to_def lone_address_def)
  ultimately show ?thesis using a(1) pick_gpu_excluding_nil by metis
qed

text \<open>A request to a GPU that never answers, and the snapshot it leaves behind.\<close>
lemma failed_request_cools_gpus_witness:
  "\<exists>a. forward_request (ctx_of default_config demo_request []) demo_addr =
       forward_request (ctx_of default_config demo_request []) a \<and>
     a \<in> set (addrs_of (gpu cooled_gpu)) \<and> pick_gpu cooled_gpu (from_secs 29) \<noteq> Some (a, Gpu)"
proof -
  let ?w = "\<lparr>w_now = 0, w_pool = lone_gpu None 0, w_env = ()\<rparr>" and ?fc = "ctx_of default_config demo_request []"
  have still: "drift silent_runtime = (\<lambda>_ _ x. x)" by (simp add: silent_runtime_def)
  have req: "hr_body demo_request = Some (0, Inr [])" "\<not> is_inference_path (path_and_query_of demo_request)"
    by (simp_all add: demo_request_def path_and_query_of_def is_inference_path_def starts_with_def)
  have "control_timeout default_config = from_millis 1000" by (simp add: default_config_def)
  then have run: "handle_proxy silent_runtime default_config demo_request ?w =
      Returned
        ([(0, SendRequest Gpu 0 (forward_request ?fc demo_addr)), (from_millis 1000, Trip demo_addr (from_secs 30)),
          (from_millis 1000, Log (GpuTimedOut demo_addr (ms (from_millis 1000))))] @
         [(from_millis 1000, Log (RoutingFailed ''no upstream available'' (path_and_query_of demo_request)))])
        (text_response 503 ''no upstream available'') \<lparr>w_now = from_millis 1000, w_pool = cooled_gpu, w_env = ()\<rparr>"
    using silent_run[of ?fc] req
    by (simp add: handle_proxy_def Let_def route_def for_path_def advance_still[OF still]
        app_error_into_response_def flip: ctx_of_def)
  have rest: "distinct (addrs_of (upstreams (w_pool ?w)))" "0 < cooldown default_config"
    "is_server_error (resp_status (text_response 503 ''no upstream available''))"
    by (simp_all add: lone_gpu_def demo_upstream_def default_config_def from_secs_def time_defs
        text_response_def is_server_error_def)
  have early: "from_secs 29 < w_now ?w + 0 + cooldown default_config"
    by (simp add: default_config_def from_secs_def time_defs)
  from failed_request_cools_gpus[OF still rest(1,2) req run rest(3), of 0 0 "forward_request ?fc demo_addr"] early
  show ?thesis by auto
qed

end
