(* ===== verification/Unit_Tests.thy ===== *)
theory Unit_Tests
  imports Handlers Discovery Health_Poll
begin

text \<open>
  The repository's own unit tests, as far as they test the modelled functions: one definition
  per test function, the conjunction of its assertions over the model. \<open>now\<close> is what
  \<open>Instant::now()\<close> gives in the test. The tests of JSON decoding and encoding test the JSON
  library and are left out; the tests of the health endpoint look at the view before it is
  rendered as JSON. That all of them hold is the last lemma.
\<close>

abbreviation test_addr :: "u8 \<Rightarrow> socket_addr" where
  "test_addr n \<equiv> V4 10 0 0 n 8081"

section \<open>\<open>src/upstream/snapshot.rs\<close>\<close>

definition upstream_scheme_http_as_str :: bool where
  "upstream_scheme_http_as_str \<longleftrightarrow> scheme_as_str Http = ''http''"

definition upstream_scheme_https_as_str :: bool where
  "upstream_scheme_https_as_str \<longleftrightarrow> scheme_as_str Https = ''https''"

definition upstream_scheme_display :: bool where
  "upstream_scheme_display \<longleftrightarrow> fmt_scheme Http = ''http'' \<and> fmt_scheme Https = ''https''"

definition default_snapshot_has_empty_pools :: "instant \<Rightarrow> bool" where
  "default_snapshot_has_empty_pools now \<longleftrightarrow>
     (let snap = default_snapshot now in gpu snap = [] \<and> cpu snap = [])"

definition pool_type_gpu_as_str :: bool where
  "pool_type_gpu_as_str \<longleftrightarrow> pool_as_str Gpu = ''gpu''"

definition pool_type_cpu_as_str :: bool where
  "pool_type_cpu_as_str \<longleftrightarrow> pool_as_str Cpu = ''cpu''"

definition pool_type_eq :: bool where
  "pool_type_eq \<longleftrightarrow> Gpu = Gpu \<and> Cpu = Cpu \<and> Gpu \<noteq> Cpu"

definition status_ok_parses_to_ok :: bool where
  "status_ok_parses_to_ok \<longleftrightarrow> parse_status ''ok'' = Ok"

definition status_warn_parses_to_ok :: bool where
  "status_warn_parses_to_ok \<longleftrightarrow> parse_status ''warn'' = Ok"

definition status_loading_parses_to_loading :: bool where
  "status_loading_parses_to_loading \<longleftrightarrow> parse_status ''loading'' = Loading"

definition status_idle_parses_to_loading :: bool where
  "status_idle_parses_to_loading \<longleftrightarrow> parse_status ''idle'' = Loading"

definition status_fail_parses_to_fail :: bool where
  "status_fail_parses_to_fail \<longleftrightarrow> parse_status ''fail'' = Fail"

definition status_unknown_string_parses_to_unknown :: bool where
  "status_unknown_string_parses_to_unknown \<longleftrightarrow>
     parse_status ''unknown'' = Unknown \<and> parse_status [] = Unknown \<and>
     parse_status ''FAIL'' = Unknown \<and> parse_status ''OK'' = Unknown"

definition upstream_info_fields_are_stored_correctly :: "instant \<Rightarrow> bool" where
  "upstream_info_fields_are_stored_correctly now \<longleftrightarrow>
     (let a = test_addr 1;
          info = \<lparr>addr = a, pool_type = Gpu, status = Ok, queue_depth = 5, live_workers = 8,
                  last_seen = now, cooldown_until = None\<rparr>
      in addr info = a \<and> pool_type info = Gpu \<and> status info = Ok \<and> queue_depth info = 5 \<and>
         live_workers info = 8)"

definition cooldown_none_is_not_in_cooldown :: "instant \<Rightarrow> bool" where
  "cooldown_none_is_not_in_cooldown now \<longleftrightarrow>
     (let info = \<lparr>addr = test_addr 3, pool_type = Gpu, status = Ok, queue_depth = 0, live_workers = 1,
                  last_seen = now, cooldown_until = None\<rparr>
      in \<not> is_in_cooldown info now)"

definition cooldown_past_is_not_in_cooldown :: "instant \<Rightarrow> bool" where
  "cooldown_past_is_not_in_cooldown now \<longleftrightarrow>
     (let info = \<lparr>addr = test_addr 4, pool_type = Gpu, status = Ok, queue_depth = 0, live_workers = 1,
                  last_seen = now, cooldown_until = Some now\<rparr>
      in \<not> is_in_cooldown info now)"

definition cooldown_future_is_in_cooldown :: "instant \<Rightarrow> bool" where
  "cooldown_future_is_in_cooldown now \<longleftrightarrow>
     (let info = \<lparr>addr = test_addr 5, pool_type = Cpu, status = Loading, queue_depth = 0, live_workers = 1,
                  last_seen = now, cooldown_until = Some (now + from_secs 5)\<rparr>
      in is_in_cooldown info now)"

definition snapshot_suite :: "instant \<Rightarrow> bool" where
  "snapshot_suite now \<longleftrightarrow>
     upstream_scheme_http_as_str \<and> upstream_scheme_https_as_str \<and> upstream_scheme_display \<and>
     default_snapshot_has_empty_pools now \<and> pool_type_gpu_as_str \<and> pool_type_cpu_as_str \<and>
     pool_type_eq \<and> status_ok_parses_to_ok \<and> status_warn_parses_to_ok \<and>
     status_loading_parses_to_loading \<and> status_idle_parses_to_loading \<and>
     status_fail_parses_to_fail \<and> status_unknown_string_parses_to_unknown \<and>
     upstream_info_fields_are_stored_correctly now \<and> cooldown_none_is_not_in_cooldown now \<and>
     cooldown_past_is_not_in_cooldown now \<and> cooldown_future_is_in_cooldown now"

lemma snapshot_suite_holds: "snapshot_suite now"
  unfolding snapshot_suite_def upstream_scheme_http_as_str_def upstream_scheme_https_as_str_def
    upstream_scheme_display_def default_snapshot_has_empty_pools_def pool_type_gpu_as_str_def
    pool_type_cpu_as_str_def pool_type_eq_def status_ok_parses_to_ok_def
    status_warn_parses_to_ok_def status_loading_parses_to_loading_def
    status_idle_parses_to_loading_def status_fail_parses_to_fail_def
    status_unknown_string_parses_to_unknown_def upstream_info_fields_are_stored_correctly_def
    cooldown_none_is_not_in_cooldown_def cooldown_past_is_not_in_cooldown_def
    cooldown_future_is_in_cooldown_def
  by (simp add: fmt_scheme_def default_snapshot_def parse_status_def is_in_cooldown_def
      from_secs_def time_defs)

section \<open>\<open>src/upstream/circuit_breaker.rs\<close>\<close>

definition tripped_upstream :: "u8 \<Rightarrow> pool_type \<Rightarrow> instant \<Rightarrow> upstream_info" where
  "tripped_upstream n t now =
     \<lparr>addr = test_addr n, pool_type = t, status = Ok, queue_depth = 0, live_workers = 1,
      last_seen = now, cooldown_until = None\<rparr>"

abbreviation trip_pool_of :: "instant \<Rightarrow> pool_snapshot" where
  "trip_pool_of now \<equiv> \<lparr>gpu = [tripped_upstream 1 Gpu now], cpu = [], updated_at = now\<rparr>"

definition trip_zero_duration_is_a_no_op :: "instant \<Rightarrow> bool" where
  "trip_zero_duration_is_a_no_op now \<longleftrightarrow>
     (case trip_at (trip_pool_of now) (test_addr 1) 0 now of
        None \<Rightarrow> False
      | Some current \<Rightarrow> cooldown_until (gpu current ! 0) = None)"

definition trip_sets_cooldown_for_matching_upstream :: "instant \<Rightarrow> bool" where
  "trip_sets_cooldown_for_matching_upstream now \<longleftrightarrow>
     (case trip_at (trip_pool_of now) (test_addr 1) (from_secs 30) now of
        None \<Rightarrow> False
      | Some current \<Rightarrow> cooldown_until (gpu current ! 0) \<noteq> None)"

definition trip_is_idempotent_when_already_in_cooldown :: "instant \<Rightarrow> bool" where
  "trip_is_idempotent_when_already_in_cooldown now \<longleftrightarrow>
     (case trip_at (trip_pool_of now) (test_addr 1) (from_secs 30) now of
        None \<Rightarrow> False
      | Some p1 \<Rightarrow>
          (case trip_at p1 (test_addr 1) (from_secs 120) now of
             None \<Rightarrow> False
           | Some p2 \<Rightarrow> cooldown_until (gpu p1 ! 0) = cooldown_until (gpu p2 ! 0)))"

text \<open>The two joined tasks do not suspend, so they run one after the other.\<close>

definition concurrent_trip_calls_set_same_cooldown_window :: "instant \<Rightarrow> bool" where
  "concurrent_trip_calls_set_same_cooldown_window now \<longleftrightarrow>
     (case Option.bind (trip_at (trip_pool_of now) (test_addr 1) (from_secs 30) now)
             (\<lambda>p. trip_at p (test_addr 1) (from_secs 30) now) of
        None \<Rightarrow> False
      | Some current \<Rightarrow> cooldown_until (gpu current ! 0) \<noteq> None)"

definition circuit_breaker_suite :: "instant \<Rightarrow> bool" where
  "circuit_breaker_suite now \<longleftrightarrow>
     trip_zero_duration_is_a_no_op now \<and> trip_sets_cooldown_for_matching_upstream now \<and>
     trip_is_idempotent_when_already_in_cooldown now \<and>
     concurrent_trip_calls_set_same_cooldown_window now"

lemma circuit_breaker_suite_holds:
  assumes "now + from_secs 30 \<le> instant_max"
  shows "circuit_breaker_suite now"
proof -
  let ?u = "tripped_upstream 1 Gpu now\<lparr>cooldown_until := Some (now + from_secs 30)\<rparr>"
  let ?p = "\<lparr>gpu = [?u], cpu = [], updated_at = now\<rparr>"
  have pos: "0 < from_secs 30" by (simp add: from_secs_def time_defs)
  have zero: "trip_at s a 0 now = Some s" for s a
    by (simp add: trip_at_def trip_def)
  have first: "trip_at (trip_pool_of now) (test_addr 1) (from_secs 30) now = Some ?p"
    using assms pos
    by (simp add: trip_at_def trip_def already_cooled_def instant_add_def trip_next_def
        tripped_upstream_def is_in_cooldown_def)
  have second: "trip_at ?p (test_addr 1) d now = Some ?p" for d
    using pos by (simp add: trip_at_def trip_def already_cooled_def tripped_upstream_def is_in_cooldown_def)
  show ?thesis
    unfolding circuit_breaker_suite_def trip_zero_duration_is_a_no_op_def
      trip_sets_cooldown_for_matching_upstream_def trip_is_idempotent_when_already_in_cooldown_def
      concurrent_trip_calls_set_same_cooldown_window_def first zero bind.bind_lunit second option.case
    by (simp add: tripped_upstream_def)
qed

section \<open>\<open>src/upstream/health.rs\<close>\<close>

definition unknown_gpu :: "socket_addr \<Rightarrow> instant \<Rightarrow> upstream_info" where
  "unknown_gpu a now =
     \<lparr>addr = a, pool_type = Gpu, status = Unknown, queue_depth = 0, live_workers = 0,
      last_seen = now, cooldown_until = None\<rparr>"

definition apply_updates_empty_pool_stays_empty :: "instant \<Rightarrow> bool" where
  "apply_updates_empty_pool_stays_empty now \<longleftrightarrow>
     (let updated = apply_updates (default_snapshot now) [] now
      in gpu updated = [] \<and> cpu updated = [])"

definition apply_updates_matching_result_overwrites_status_and_depth :: "instant \<Rightarrow> bool" where
  "apply_updates_matching_result_overwrites_status_and_depth now \<longleftrightarrow>
     (let a = test_addr 1;
          upstream = unknown_gpu a now\<lparr>cooldown_until := Some (now + from_secs 5)\<rparr>;
          current = \<lparr>gpu = [upstream], cpu = [], updated_at = now\<rparr>;
          results = [\<lparr>pr_addr = a, pr_status = Ok, pr_queue_depth = 7, pr_live_workers = 4\<rparr>];
          updated = apply_updates current results now
      in length (gpu updated) = 1 \<and> status (gpu updated ! 0) = Ok \<and>
         queue_depth (gpu updated ! 0) = 7 \<and> live_workers (gpu updated ! 0) = 4 \<and>
         cooldown_until (gpu updated ! 0) \<noteq> None)"

definition apply_updates_no_matching_result_leaves_upstream_unchanged :: "instant \<Rightarrow> bool" where
  "apply_updates_no_matching_result_leaves_upstream_unchanged now \<longleftrightarrow>
     (let a = test_addr 1;
          other = test_addr 99;
          current = \<lparr>gpu = [unknown_gpu a now], cpu = [], updated_at = now\<rparr>;
          results = [\<lparr>pr_addr = other, pr_status = Ok, pr_queue_depth = 0, pr_live_workers = 0\<rparr>];
          updated = apply_updates current results now
      in length (gpu updated) = 1 \<and> status (gpu updated ! 0) = Unknown)"

definition health_suite :: "instant \<Rightarrow> bool" where
  "health_suite now \<longleftrightarrow>
     apply_updates_empty_pool_stays_empty now \<and>
     apply_updates_matching_result_overwrites_status_and_depth now \<and>
     apply_updates_no_matching_result_leaves_upstream_unchanged now"

lemma health_suite_holds: "health_suite now"
  by (simp add: health_suite_def apply_updates_empty_pool_stays_empty_def
      apply_updates_matching_result_overwrites_status_and_depth_def
      apply_updates_no_matching_result_leaves_upstream_unchanged_def apply_updates_def
      update_pool_def apply_result_def default_snapshot_def unknown_gpu_def Let_def)

section \<open>\<open>src/upstream/discovery.rs\<close>\<close>

definition known_upstream :: "u8 \<Rightarrow> upstream_status \<Rightarrow> u32 \<Rightarrow> instant \<Rightarrow> upstream_info" where
  "known_upstream n st depth now =
     \<lparr>addr = test_addr n, pool_type = Gpu, status = st, queue_depth = depth, live_workers = 4,
      last_seen = now, cooldown_until = None\<rparr>"

definition merge_pool_failed_preserves_existing_pool :: "instant \<Rightarrow> bool" where
  "merge_pool_failed_preserves_existing_pool now \<longleftrightarrow>
     (let existing = [known_upstream 1 Ok 3 now, known_upstream 2 Ok 1 now];
          result = merge_pool existing Failed Gpu (\<lambda>_. now)
      in length result = 2 \<and> addr (result ! 0) = test_addr 1 \<and> status (result ! 0) = Ok \<and>
         queue_depth (result ! 0) = 3 \<and> addr (result ! 1) = test_addr 2)"

definition merge_pool_failed_on_empty_existing_stays_empty :: "instant \<Rightarrow> bool" where
  "merge_pool_failed_on_empty_existing_stays_empty now \<longleftrightarrow> merge_pool [] Failed Gpu (\<lambda>_. now) = []"

definition merge_pool_resolved_empty_clears_existing_pool :: "instant \<Rightarrow> bool" where
  "merge_pool_resolved_empty_clears_existing_pool now \<longleftrightarrow>
     (let existing = [known_upstream 1 Ok 0 now]
      in merge_pool existing (Resolved []) Gpu (\<lambda>_. now) = [])"

definition merge_pool_resolved_preserves_health_for_existing_addresses :: "instant \<Rightarrow> bool" where
  "merge_pool_resolved_preserves_health_for_existing_addresses now \<longleftrightarrow>
     (let existing = [known_upstream 1 Ok 5 now\<lparr>cooldown_until := Some (now + from_secs 10)\<rparr>];
          result = merge_pool existing (Resolved [test_addr 1]) Gpu (\<lambda>_. now)
      in length result = 1 \<and> status (result ! 0) = Ok \<and> queue_depth (result ! 0) = 5 \<and>
         cooldown_until (result ! 0) \<noteq> None)"

definition merge_pool_resolved_adds_new_addresses_as_unknown :: "instant \<Rightarrow> bool" where
  "merge_pool_resolved_adds_new_addresses_as_unknown now \<longleftrightarrow>
     (let result = merge_pool [] (Resolved [test_addr 5]) Cpu (\<lambda>_. now)
      in length result = 1 \<and> status (result ! 0) = Unknown \<and> pool_type (result ! 0) = Cpu)"

definition merge_pool_resolved_drops_disappeared_addresses :: "instant \<Rightarrow> bool" where
  "merge_pool_resolved_drops_disappeared_addresses now \<longleftrightarrow>
     (let existing = [known_upstream 1 Ok 0 now, known_upstream 2 Ok 0 now];
          result = merge_pool existing (Resolved [test_addr 1]) Gpu (\<lambda>_. now)
      in length result = 1 \<and> addr (result ! 0) = test_addr 1)"

definition resolve_result_has_addrs_semantics :: bool where
  "resolve_result_has_addrs_semantics \<longleftrightarrow>
     \<not> has_addrs Failed \<and> \<not> has_addrs (Resolved []) \<and> has_addrs (Resolved [test_addr 1])"

definition test_max :: duration where
  "test_max = from_secs 30"

definition next_interval_healthy_returns_max :: bool where
  "next_interval_healthy_returns_max \<longleftrightarrow>
     compute_next_interval 0 True True test_max = test_max \<and>
     compute_next_interval 0 False True test_max = test_max \<and>
     compute_next_interval test_max False True test_max = test_max"

definition next_interval_transition_to_unhealthy_uses_initial :: bool where
  "next_interval_transition_to_unhealthy_uses_initial \<longleftrightarrow>
     compute_next_interval test_max True False test_max = initial_retry_interval"

definition next_interval_continuing_unhealthy_doubles :: bool where
  "next_interval_continuing_unhealthy_doubles \<longleftrightarrow>
     (let sleep1 = compute_next_interval initial_retry_interval False False test_max;
          sleep2 = compute_next_interval sleep1 False False test_max;
          sleep3 = compute_next_interval sleep2 False False test_max;
          sleep4 = compute_next_interval sleep3 False False test_max;
          sleep5 = compute_next_interval sleep4 False False test_max
      in sleep1 = from_secs 4 \<and> sleep2 = from_secs 8 \<and> sleep3 = from_secs 16 \<and>
         sleep4 = test_max \<and> sleep5 = test_max)"

definition next_interval_cold_start_first_iteration :: bool where
  "next_interval_cold_start_first_iteration \<longleftrightarrow>
     compute_next_interval 0 True False test_max = initial_retry_interval"

definition next_interval_handles_max_below_initial :: bool where
  "next_interval_handles_max_below_initial \<longleftrightarrow>
     (let tiny_max = from_secs 1
      in compute_next_interval 0 True False tiny_max \<le> tiny_max \<and>
         compute_next_interval tiny_max False False tiny_max = tiny_max)"

definition next_interval_re_failure_after_recovery_resets_to_initial :: bool where
  "next_interval_re_failure_after_recovery_resets_to_initial \<longleftrightarrow>
     (let healthy = compute_next_interval test_max False True test_max
      in healthy = test_max \<and>
         compute_next_interval healthy True False test_max = initial_retry_interval)"

definition merge_suite :: "instant \<Rightarrow> bool" where
  "merge_suite now \<longleftrightarrow>
     merge_pool_failed_preserves_existing_pool now \<and>
     merge_pool_failed_on_empty_existing_stays_empty now \<and>
     merge_pool_resolved_empty_clears_existing_pool now \<and>
     merge_pool_resolved_preserves_health_for_existing_addresses now \<and>
     merge_pool_resolved_adds_new_addresses_as_unknown now \<and>
     merge_pool_resolved_drops_disappeared_addresses now \<and>
     resolve_result_has_addrs_semantics"

definition interval_suite :: bool where
  "interval_suite \<longleftrightarrow>
     next_interval_healthy_returns_max \<and> next_interval_transition_to_unhealthy_uses_initial \<and>
     next_interval_continuing_unhealthy_doubles \<and> next_interval_cold_start_first_iteration \<and>
     next_interval_handles_max_below_initial \<and>
     next_interval_re_failure_after_recovery_resets_to_initial"

lemma merge_suite_holds: "merge_suite now"
  by (simp add: merge_suite_def merge_pool_failed_preserves_existing_pool_def
      merge_pool_failed_on_empty_existing_stays_empty_def
      merge_pool_resolved_empty_clears_existing_pool_def
      merge_pool_resolved_preserves_health_for_existing_addresses_def
      merge_pool_resolved_adds_new_addresses_as_unknown_def
      merge_pool_resolved_drops_disappeared_addresses_def resolve_result_has_addrs_semantics_def
      known_upstream_def merge_entry_def new_upstream_def Let_def)

lemma interval_suite_holds: "interval_suite"
proof -
  have secs: "from_secs 1 = 1000000000" "from_secs 2 = 2000000000" "from_secs 4 = 4000000000"
    "from_secs 8 = 8000000000" "from_secs 16 = 16000000000" "test_max = 30000000000"
    "initial_retry_interval = 2000000000"
    by (simp_all add: from_secs_def nanos_per_sec_def test_max_def initial_retry_interval_def)
  have cap: "30000000000 \<le> duration_max"
    by (simp add: duration_max_def u64_max_def nanos_per_sec_def)
  have double: "compute_next_interval p False False test_max = min (2 * p) test_max"
    if "initial_retry_interval \<le> p" for p
    using that cap by (intro next_interval_double) (simp_all add: secs)
  have tiny: "compute_next_interval (from_secs 1) False False (from_secs 1) = from_secs 1"
    using next_interval_double[of "from_secs 1" "from_secs 1"] cap by (simp add: secs)
  show ?thesis
    unfolding interval_suite_def next_interval_healthy_returns_max_def
      next_interval_transition_to_unhealthy_uses_initial_def
      next_interval_continuing_unhealthy_doubles_def next_interval_cold_start_first_iteration_def
      next_interval_handles_max_below_initial_def
      next_interval_re_failure_after_recovery_resets_to_initial_def Let_def
      next_interval_healthy next_interval_drop tiny
    using double by (simp add: secs)
qed

section \<open>\<open>src/handler/health.rs\<close>\<close>

text \<open>
  A GET of the health endpoint through the router: the status code and the view, which the
  framework renders as JSON.
\<close>

definition health_request :: http_request where
  "health_request =
     \<lparr>hr_method = ''GET'', hr_path = ''/router/health'', hr_path_and_query = Some ''/router/health'',
      hr_headers = [], hr_body = Some (0, Inr [])\<rparr>"

definition oneshot :: "pool_snapshot \<Rightarrow> instant \<Rightarrow> (u16 \<times> router_health_response) option" where
  "oneshot s now =
     (case dispatch health_request of RouterHealth \<Rightarrow> Some (router_health s now) | _ \<Rightarrow> None)"

definition ok_gpu_upstream :: "u8 \<Rightarrow> instant \<Rightarrow> upstream_info" where
  "ok_gpu_upstream n now =
     \<lparr>addr = test_addr n, pool_type = Gpu, status = Ok, queue_depth = 0, live_workers = 8,
      last_seen = now, cooldown_until = None\<rparr>"

definition empty_pool_returns_503_with_degraded_status :: "instant \<Rightarrow> bool" where
  "empty_pool_returns_503_with_degraded_status now \<longleftrightarrow>
     (case oneshot (default_snapshot now) now of
        None \<Rightarrow> False
      | Some (code, body) \<Rightarrow>
          code = 503 \<and> rh_status body = ''degraded'' \<and>
          length (rh_gpu_upstreams body) = 0 \<and> length (rh_cpu_upstreams body) = 0)"

definition loading_upstream_returns_200_not_503 :: "instant \<Rightarrow> bool" where
  "loading_upstream_returns_200_not_503 now \<longleftrightarrow>
     (let snapshot =
        \<lparr>gpu = [],
         cpu = [\<lparr>addr = test_addr 1, pool_type = Cpu, status = Loading, queue_depth = 0,
                 live_workers = 8, last_seen = now, cooldown_until = None\<rparr>],
         updated_at = now\<rparr>
      in case oneshot snapshot now of
           None \<Rightarrow> False
         | Some (code, body) \<Rightarrow> code = 200 \<and> rh_status body = ''degraded'')"

definition ok_gpu_upstream_returns_200_with_ok_status :: "instant \<Rightarrow> bool" where
  "ok_gpu_upstream_returns_200_with_ok_status now \<longleftrightarrow>
     (let snapshot = \<lparr>gpu = [ok_gpu_upstream 1 now], cpu = [], updated_at = now\<rparr>
      in case oneshot snapshot now of
           None \<Rightarrow> False
         | Some (code, body) \<Rightarrow>
             code = 200 \<and> rh_status body = ''ok'' \<and> length (rh_gpu_upstreams body) = 1)"

definition cooled_down_upstream_shows_cooldown_remaining_secs :: "instant \<Rightarrow> bool" where
  "cooled_down_upstream_shows_cooldown_remaining_secs now \<longleftrightarrow>
     (let snapshot =
        \<lparr>gpu = [\<lparr>addr = test_addr 1, pool_type = Gpu, status = Ok, queue_depth = 0,
                 live_workers = 1, last_seen = now, cooldown_until = Some (now + from_secs 10)\<rparr>],
         cpu = [], updated_at = now\<rparr>
      in case oneshot snapshot now of
           None \<Rightarrow> False
         | Some (code, body) \<Rightarrow>
             code = 200 \<and>
             (case v_cooldown_remaining (rh_gpu_upstreams body ! 0) of
                None \<Rightarrow> False
              | Some remaining \<Rightarrow> 0 < remaining \<and> remaining \<le> from_secs 10))"

definition upstream_not_in_cooldown_has_null_cooldown_remaining_secs :: "instant \<Rightarrow> bool" where
  "upstream_not_in_cooldown_has_null_cooldown_remaining_secs now \<longleftrightarrow>
     (let snapshot = \<lparr>gpu = [ok_gpu_upstream 1 now], cpu = [], updated_at = now\<rparr>
      in case oneshot snapshot now of
           None \<Rightarrow> False
         | Some (code, body) \<Rightarrow> v_cooldown_remaining (rh_gpu_upstreams body ! 0) = None)"

definition endpoint_suite :: "instant \<Rightarrow> bool" where
  "endpoint_suite now \<longleftrightarrow>
     empty_pool_returns_503_with_degraded_status now \<and> loading_upstream_returns_200_not_503 now \<and>
     ok_gpu_upstream_returns_200_with_ok_status now \<and>
     cooled_down_upstream_shows_cooldown_remaining_secs now \<and>
     upstream_not_in_cooldown_has_null_cooldown_remaining_secs now"

lemma oneshot_eq: "oneshot s now = Some (router_health s now)"
  by (simp add: oneshot_def dispatch_def health_request_def)

lemma endpoint_suite_holds: "endpoint_suite now"
proof -
  have "0 < from_secs 10" by (simp add: from_secs_def time_defs)
  then show ?thesis
    by (simp add: endpoint_suite_def empty_pool_returns_503_with_degraded_status_def
        loading_upstream_returns_200_not_503_def ok_gpu_upstream_returns_200_with_ok_status_def
        cooled_down_upstream_shows_cooldown_remaining_secs_def
        upstream_not_in_cooldown_has_null_cooldown_remaining_secs_def oneshot_eq router_health_def
        default_snapshot_def ok_gpu_upstream_def from_info_def cooldown_remaining_def
        duration_since_def Let_def)
qed

section \<open>\<open>src/headers.rs\<close>\<close>

definition collects_x_prefix_headers_and_skips_standard :: bool where
  "collects_x_prefix_headers_and_skips_standard \<longleftrightarrow>
     (let headers = hm_insert ''content-type'' ''application/json'' (hm_insert ''x-foo'' ''bar'' []);
          result = collect_x_headers headers
      in \<not> x_headers_is_empty result \<and> map_of result ''x-foo'' = Some ''bar'' \<and> length result = 1)"

definition empty_headers_produces_empty_xheaders :: bool where
  "empty_headers_produces_empty_xheaders \<longleftrightarrow> x_headers_is_empty (collect_x_headers [])"

definition headers_with_no_x_prefix_produces_empty_xheaders :: bool where
  "headers_with_no_x_prefix_produces_empty_xheaders \<longleftrightarrow>
     (let headers = hm_insert ''authorization'' ''Bearer tok'' (hm_insert ''content-type'' ''text/plain'' [])
      in x_headers_is_empty (collect_x_headers headers))"

definition headers_suite :: bool where
  "headers_suite \<longleftrightarrow>
     collects_x_prefix_headers_and_skips_standard \<and> empty_headers_produces_empty_xheaders \<and>
     headers_with_no_x_prefix_produces_empty_xheaders"

lemma headers_suite_holds: "headers_suite"
  by (simp add: headers_suite_def collects_x_prefix_headers_and_skips_standard_def
      empty_headers_produces_empty_xheaders_def headers_with_no_x_prefix_produces_empty_xheaders_def
      collect_x_headers_def collect_step_def hm_insert_def starts_with_def header_value_to_str_def
      is_visible_ascii_def x_headers_is_empty_def Let_def)

section \<open>\<open>src/router/route_policy.rs\<close>\<close>

definition policy_cfg :: "u64 \<Rightarrow> u64 \<Rightarrow> string + config" where
  "policy_cfg hedge_ms ctl_ms =
     from_lookup (\<lambda>key.
       if key = ''BGE_ROUTER_HEDGE_DELAY_MS'' then Some (show_nat (unat hedge_ms))
       else if key = ''BGE_ROUTER_CONTROL_TIMEOUT_MS'' then Some (show_nat (unat ctl_ms))
       else None)"

definition dense_embeddings_is_inference :: bool where
  "dense_embeddings_is_inference \<longleftrightarrow> is_inference_path ''/v1/embeddings''"

definition sparse_embeddings_is_inference :: bool where
  "sparse_embeddings_is_inference \<longleftrightarrow> is_inference_path ''/v1/sparse-embeddings''"

definition embeddings_both_is_inference :: bool where
  "embeddings_both_is_inference \<longleftrightarrow> is_inference_path ''/v1/embeddings:both''"

definition query_string_does_not_break_inference_match :: bool where
  "query_string_does_not_break_inference_match \<longleftrightarrow> is_inference_path ''/v1/embeddings?model=bge-m3''"

definition future_embeddings_variant_is_inference :: bool where
  "future_embeddings_variant_is_inference \<longleftrightarrow>
     is_inference_path ''/v1/colbert-embeddings'' \<and> is_inference_path ''/v1/embeddings-v2''"

definition health_is_control_plane :: bool where
  "health_is_control_plane \<longleftrightarrow> \<not> is_inference_path ''/health''"

definition router_health_is_control_plane :: bool where
  "router_health_is_control_plane \<longleftrightarrow> \<not> is_inference_path ''/router/health''"

definition models_is_control_plane :: bool where
  "models_is_control_plane \<longleftrightarrow> \<not> is_inference_path ''/v1/models''"

definition unknown_path_is_control_plane :: bool where
  "unknown_path_is_control_plane \<longleftrightarrow> \<not> is_inference_path ''/foo/bar'' \<and> \<not> is_inference_path ''/''"

definition for_path_hedges_inference_paths :: bool where
  "for_path_hedges_inference_paths \<longleftrightarrow>
     (case policy_cfg 2000 500 of
        Inl e \<Rightarrow> False
      | Inr c \<Rightarrow> for_path ''/v1/embeddings'' c = Hedged (from_secs 2))"

definition for_path_uses_sequential_for_control_plane :: bool where
  "for_path_uses_sequential_for_control_plane \<longleftrightarrow>
     (case policy_cfg 2000 500 of
        Inl e \<Rightarrow> False
      | Inr c \<Rightarrow>
          for_path ''/health'' c = SequentialTimeout (from_millis 500) \<and>
          for_path ''/v1/models'' c = SequentialTimeout (from_millis 500))"

definition route_policy_suite :: bool where
  "route_policy_suite \<longleftrightarrow>
     dense_embeddings_is_inference \<and> sparse_embeddings_is_inference \<and>
     embeddings_both_is_inference \<and> query_string_does_not_break_inference_match \<and>
     future_embeddings_variant_is_inference \<and> health_is_control_plane \<and>
     router_health_is_control_plane \<and> models_is_control_plane \<and> unknown_path_is_control_plane \<and>
     for_path_hedges_inference_paths \<and> for_path_uses_sequential_for_control_plane"

lemma policy_cfg_eq:
  "policy_cfg 2000 500 =
     Inr (default_config\<lparr>hedge_delay := from_millis 2000, control_timeout := from_millis 500\<rparr>)"
proof -
  have shown: "str_parse_u64 (show_nat 2000) = Some 2000" "str_parse_u64 (show_nat 500) = Some 500"
    using str_parse_u64_show_nat[of 2000] str_parse_u64_show_nat[of 500] by (simp_all add: u64_max_def)
  show ?thesis
    by (simp add: policy_cfg_def from_lookup_def parse_u64_def parse_optional_u64_def default_defs
        unwrap_or_def u32_try_from_def max_retry_count_def bail_if_def default_config_def
        tls_enabled_def Let_def shown del: str_parse_u64.simps)
qed

lemma route_policy_suite_holds: "route_policy_suite"
  by (simp add: route_policy_suite_def dense_embeddings_is_inference_def
      sparse_embeddings_is_inference_def embeddings_both_is_inference_def
      query_string_does_not_break_inference_match_def future_embeddings_variant_is_inference_def
      health_is_control_plane_def router_health_is_control_plane_def models_is_control_plane_def
      unknown_path_is_control_plane_def for_path_hedges_inference_paths_def
      for_path_uses_sequential_for_control_plane_def policy_cfg_eq for_path_def
      is_inference_path_def starts_with_def from_secs_def from_millis_def nanos_per_sec_def
      nanos_per_milli_def)

section \<open>\<open>src/router/proxy.rs\<close>\<close>

definition upstream_url_http_scheme :: bool where
  "upstream_url_http_scheme \<longleftrightarrow>
     upstream_url Http (V4 127 0 0 1 8081) ''/health'' = ''http://127.0.0.1:8081/health''"

definition upstream_url_https_scheme :: bool where
  "upstream_url_https_scheme \<longleftrightarrow>
     upstream_url Https (V4 127 0 0 1 8081) ''/health'' = ''https://127.0.0.1:8081/health''"

definition upstream_url_preserves_path_and_query :: bool where
  "upstream_url_preserves_path_and_query \<longleftrightarrow>
     upstream_url Http (V4 10 0 0 1 8081) ''/v1/embeddings?foo=bar'' =
       ''http://10.0.0.1:8081/v1/embeddings?foo=bar''"

definition url_suite :: bool where
  "url_suite \<longleftrightarrow>
     upstream_url_http_scheme \<and> upstream_url_https_scheme \<and> upstream_url_preserves_path_and_query"

lemma url_suite_holds: "url_suite"
  by (simp add: url_suite_def upstream_url_http_scheme_def upstream_url_https_scheme_def
      upstream_url_preserves_path_and_query_def upstream_url_def fmt_scheme_def show_ipv4_def
      show_nat.simps digit_char_def char_of_def bit_0)

section \<open>\<open>src/error.rs\<close>\<close>

definition no_upstream_available_display :: bool where
  "no_upstream_available_display \<longleftrightarrow> app_error_display NoUpstreamAvailable = ''no upstream available''"

definition internal_error_display :: bool where
  "internal_error_display \<longleftrightarrow>
     (let err = Internal (ExtError ''something broke'' None)
      in str_contains ''something broke'' (app_error_display err))"

definition no_upstream_available_produces_503 :: bool where
  "no_upstream_available_produces_503 \<longleftrightarrow>
     resp_status (app_error_into_response NoUpstreamAvailable) = 503"

definition internal_error_produces_500 :: bool where
  "internal_error_produces_500 \<longleftrightarrow>
     (let err = Internal (ExtError ''internal'' None)
      in resp_status (app_error_into_response err) = 500)"

definition from_anyhow_error_creates_internal_variant :: bool where
  "from_anyhow_error_creates_internal_variant \<longleftrightarrow>
     (let app_err = from_anyhow_error (ExtError ''wrapped'' None)
      in (case app_err of Internal e \<Rightarrow> True | _ \<Rightarrow> False) \<and>
         str_contains ''wrapped'' (app_error_display app_err))"

definition error_suite :: bool where
  "error_suite \<longleftrightarrow>
     no_upstream_available_display \<and> internal_error_display \<and> no_upstream_available_produces_503 \<and>
     internal_error_produces_500 \<and> from_anyhow_error_creates_internal_variant"

lemma error_suite_holds: "error_suite"
  by (simp add: error_suite_def no_upstream_available_display_def internal_error_display_def
      no_upstream_available_produces_503_def internal_error_produces_500_def
      from_anyhow_error_creates_internal_variant_def from_anyhow_error_def
      app_error_into_response_def text_response_def starts_with_def Let_def)

section \<open>All of them\<close>

text \<open>The model passes the unit tests of the repository for the snapshot types, the circuit
  breaker, health updates, discovery, the health endpoint, the header collection, the route
  policy, upstream URLs and errors, whatever the clock reads (for the circuit breaker, as long
  as thirty seconds from then are in its range).\<close>
lemma unit_tests_pass:
  assumes "now + from_secs 30 \<le> instant_max"
  shows "snapshot_suite now \<and> circuit_breaker_suite now \<and> health_suite now \<and> merge_suite now \<and>
    interval_suite \<and> endpoint_suite now \<and> headers_suite \<and> route_policy_suite \<and> url_suite \<and> error_suite"
  using circuit_breaker_suite_holds[OF assms]
  by (simp add: snapshot_suite_holds health_suite_holds merge_suite_holds interval_suite_holds
      endpoint_suite_holds headers_suite_holds route_policy_suite_holds url_suite_holds
      error_suite_holds)

lemma unit_tests_pass_witness: "circuit_breaker_suite 0 \<and> endpoint_suite 0"
  using unit_tests_pass[of 0] by (simp add: from_secs_def time_defs)

end
