(* ===== verification/Policy_Tests.thy ===== *)
theory Policy_Tests
  imports Policy
begin

text \<open>
  The tests of the selectors, \<open>src/router/policy/tests.rs\<close>: one definition per test
  function, the conjunction of its assertions over the model; \<open>now\<close> is what
  \<open>Instant::now()\<close> gives throughout the test.
\<close>

definition make_upstream :: "socket_addr \<Rightarrow> pool_type \<Rightarrow> upstream_status \<Rightarrow> u32 \<Rightarrow> instant \<Rightarrow> upstream_info"
where
  "make_upstream a t st depth now =
     \<lparr>addr = a, pool_type = t, status = st, queue_depth = depth, live_workers = 4,
      last_seen = now, cooldown_until = None\<rparr>"

definition test_snapshot :: "pool \<Rightarrow> pool \<Rightarrow> instant \<Rightarrow> pool_snapshot" where
  "test_snapshot g c now = \<lparr>gpu = g, cpu = c, updated_at = now\<rparr>"

definition empty_snapshot_returns_none :: "instant \<Rightarrow> bool" where
  "empty_snapshot_returns_none now \<longleftrightarrow>
     (let snap = default_snapshot now
      in pick snap now = None \<and> pick_gpu snap now = None \<and> pick_cpu snap now = None)"

definition single_ok_gpu_with_zero_depth_is_picked :: "instant \<Rightarrow> bool" where
  "single_ok_gpu_with_zero_depth_is_picked now \<longleftrightarrow>
     (let snap = test_snapshot
          [make_upstream (V4 10 0 0 1 8081) Gpu Ok 0 now]
          [] now
      in pick snap now = Some (V4 10 0 0 1 8081, Gpu))"

definition single_ok_gpu_with_nonzero_depth_is_still_picked :: "instant \<Rightarrow> bool" where
  "single_ok_gpu_with_nonzero_depth_is_still_picked now \<longleftrightarrow>
     (let snap = test_snapshot
          [make_upstream (V4 10 0 0 1 8081) Gpu Ok 5 now]
          [] now
      in map_option snd (pick snap now) = Some Gpu)"

definition single_ok_cpu_is_picked_when_no_gpu_exists :: "instant \<Rightarrow> bool" where
  "single_ok_cpu_is_picked_when_no_gpu_exists now \<longleftrightarrow>
     (let snap = test_snapshot
          []
          [make_upstream (V4 10 0 1 1 8081) Cpu Ok 0 now] now
      in pick snap now = Some (V4 10 0 1 1 8081, Cpu))"

definition ok_gpu_beats_ok_cpu_with_same_depth :: "instant \<Rightarrow> bool" where
  "ok_gpu_beats_ok_cpu_with_same_depth now \<longleftrightarrow>
     (let snap = test_snapshot
          [make_upstream (V4 10 0 0 1 8081) Gpu Ok 0 now]
          [make_upstream (V4 10 0 1 1 8081) Cpu Ok 0 now] now
      in map_option snd (pick snap now) = Some Gpu)"

definition ok_gpu_with_higher_depth_still_beats_ok_cpu_with_zero_depth :: "instant \<Rightarrow> bool" where
  "ok_gpu_with_higher_depth_still_beats_ok_cpu_with_zero_depth now \<longleftrightarrow>
     (let snap = test_snapshot
          [make_upstream (V4 10 0 0 1 8081) Gpu Ok 3 now]
          [make_upstream (V4 10 0 1 1 8081) Cpu Ok 0 now] now
      in map_option snd (pick snap now) = Some Gpu)"

definition fail_gpu_falls_through_to_ok_cpu :: "instant \<Rightarrow> bool" where
  "fail_gpu_falls_through_to_ok_cpu now \<longleftrightarrow>
     (let snap = test_snapshot
          [make_upstream (V4 10 0 0 1 8081) Gpu Fail 0 now]
          [make_upstream (V4 10 0 1 1 8081) Cpu Ok 0 now] now
      in map_option snd (pick snap now) = Some Cpu)"

definition loading_gpu_falls_through_to_ok_cpu :: "instant \<Rightarrow> bool" where
  "loading_gpu_falls_through_to_ok_cpu now \<longleftrightarrow>
     (let snap = test_snapshot
          [make_upstream (V4 10 0 0 1 8081) Gpu Loading 0 now]
          [make_upstream (V4 10 0 1 1 8081) Cpu Ok 0 now] now
      in map_option snd (pick snap now) = Some Cpu)"

definition unknown_gpu_falls_through_to_ok_cpu :: "instant \<Rightarrow> bool" where
  "unknown_gpu_falls_through_to_ok_cpu now \<longleftrightarrow>
     (let snap = test_snapshot
          [make_upstream (V4 10 0 0 1 8081) Gpu Unknown 0 now]
          [make_upstream (V4 10 0 1 1 8081) Cpu Ok 2 now] now
      in map_option snd (pick snap now) = Some Cpu)"

definition picks_lowest_depth_among_multiple_ok_gpus :: "instant \<Rightarrow> bool" where
  "picks_lowest_depth_among_multiple_ok_gpus now \<longleftrightarrow>
     (let snap = test_snapshot
          [make_upstream (V4 10 0 0 1 8081) Gpu Ok 10 now,
           make_upstream (V4 10 0 0 2 8081) Gpu Ok 1 now,
           make_upstream (V4 10 0 0 3 8081) Gpu Ok 5 now]
          [] now
      in pick snap now = Some (V4 10 0 0 2 8081, Gpu))"

definition picks_lowest_depth_among_multiple_ok_cpus :: "instant \<Rightarrow> bool" where
  "picks_lowest_depth_among_multiple_ok_cpus now \<longleftrightarrow>
     (let snap = test_snapshot
          []
          [make_upstream (V4 10 0 1 1 8081) Cpu Ok 8 now,
           make_upstream (V4 10 0 1 2 8081) Cpu Ok 0 now,
           make_upstream (V4 10 0 1 3 8081) Cpu Ok 4 now] now
      in pick snap now = Some (V4 10 0 1 2 8081, Cpu))"

definition loading_gpu_with_live_workers_is_picked_as_fallback :: "instant \<Rightarrow> bool" where
  "loading_gpu_with_live_workers_is_picked_as_fallback now \<longleftrightarrow>
     (let snap = test_snapshot
          [make_upstream (V4 10 0 0 1 8081) Gpu Loading 0 now]
          [make_upstream (V4 10 0 1 1 8081) Cpu Loading 0 now] now
      in map_option snd (pick snap now) = Some Gpu)"

definition all_loading_cpu_only_is_picked_as_fallback :: "instant \<Rightarrow> bool" where
  "all_loading_cpu_only_is_picked_as_fallback now \<longleftrightarrow>
     (let snap = test_snapshot
          []
          [make_upstream (V4 10 0 1 1 8081) Cpu Loading 0 now] now
      in map_option snd (pick snap now) = Some Cpu)"

definition ok_cpu_beats_loading_gpu_in_fallback :: "instant \<Rightarrow> bool" where
  "ok_cpu_beats_loading_gpu_in_fallback now \<longleftrightarrow>
     (let snap = test_snapshot
          [make_upstream (V4 10 0 0 1 8081) Gpu Loading 0 now]
          [make_upstream (V4 10 0 1 1 8081) Cpu Ok 0 now] now
      in map_option snd (pick snap now) = Some Cpu)"

definition fail_gpu_falls_back_to_loading_cpu :: "instant \<Rightarrow> bool" where
  "fail_gpu_falls_back_to_loading_cpu now \<longleftrightarrow>
     (let snap = test_snapshot
          [make_upstream (V4 10 0 0 1 8081) Gpu Fail 0 now]
          [make_upstream (V4 10 0 1 1 8081) Cpu Loading 0 now] now
      in map_option snd (pick snap now) = Some Cpu)"

definition loading_upstream_with_zero_live_workers_is_skipped :: "instant \<Rightarrow> bool" where
  "loading_upstream_with_zero_live_workers_is_skipped now \<longleftrightarrow>
     (let snap = test_snapshot
          []
          [(make_upstream (V4 10 0 1 1 8081) Cpu Loading 0 now)\<lparr>live_workers := 0\<rparr>] now
      in pick snap now = None)"

definition pick_gpu_includes_loading_fallback :: "instant \<Rightarrow> bool" where
  "pick_gpu_includes_loading_fallback now \<longleftrightarrow>
     (let snap = test_snapshot
          [make_upstream (V4 10 0 0 1 8081) Gpu Loading 0 now]
          [] now
      in map_option snd (pick_gpu snap now) = Some Gpu)"

definition pick_cpu_includes_loading_fallback :: "instant \<Rightarrow> bool" where
  "pick_cpu_includes_loading_fallback now \<longleftrightarrow>
     (let snap = test_snapshot
          []
          [make_upstream (V4 10 0 1 1 8081) Cpu Loading 0 now] now
      in map_option snd (pick_cpu snap now) = Some Cpu)"

definition all_fail_returns_none :: "instant \<Rightarrow> bool" where
  "all_fail_returns_none now \<longleftrightarrow>
     (let snap = test_snapshot
          [make_upstream (V4 10 0 0 1 8081) Gpu Fail 0 now]
          [make_upstream (V4 10 0 1 1 8081) Cpu Fail 0 now] now
      in pick snap now = None)"

definition all_unknown_returns_none :: "instant \<Rightarrow> bool" where
  "all_unknown_returns_none now \<longleftrightarrow>
     (let snap = test_snapshot
          [make_upstream (V4 10 0 0 1 8081) Gpu Unknown 0 now]
          [make_upstream (V4 10 0 1 1 8081) Cpu Unknown 0 now] now
      in pick snap now = None)"

definition pick_gpu_ignores_cpu_pool :: "instant \<Rightarrow> bool" where
  "pick_gpu_ignores_cpu_pool now \<longleftrightarrow>
     (let snap = test_snapshot
          []
          [make_upstream (V4 10 0 1 1 8081) Cpu Ok 0 now] now
      in pick_gpu snap now = None)"

definition pick_cpu_ignores_gpu_pool :: "instant \<Rightarrow> bool" where
  "pick_cpu_ignores_gpu_pool now \<longleftrightarrow>
     (let snap = test_snapshot
          [make_upstream (V4 10 0 0 1 8081) Gpu Ok 0 now]
          [] now
      in pick_cpu snap now = None)"

definition pick_gpu_excluding_set_skips_all_excluded :: "instant \<Rightarrow> bool" where
  "pick_gpu_excluding_set_skips_all_excluded now \<longleftrightarrow>
     (let snap = test_snapshot
          [make_upstream (V4 10 0 0 1 8081) Gpu Ok 0 now,
           make_upstream (V4 10 0 0 2 8081) Gpu Ok 1 now]
          [] now
      in map_option fst (pick_gpu_excluding_set snap [V4 10 0 0 1 8081] now) = Some (V4 10 0 0 2 8081))"

definition pick_gpu_skips_cooled_down_ok_upstream :: "instant \<Rightarrow> bool" where
  "pick_gpu_skips_cooled_down_ok_upstream now \<longleftrightarrow>
     (let snap = test_snapshot
          [(make_upstream (V4 10 0 0 1 8081) Gpu Ok 0 now)\<lparr>cooldown_until := Some (now + from_secs 30)\<rparr>,
           make_upstream (V4 10 0 0 2 8081) Gpu Ok 1 now]
          [] now
      in pick_gpu snap now = Some (V4 10 0 0 2 8081, Gpu))"

definition pick_gpu_returns_none_when_all_in_cooldown :: "instant \<Rightarrow> bool" where
  "pick_gpu_returns_none_when_all_in_cooldown now \<longleftrightarrow>
     (let snap = test_snapshot
          [(make_upstream (V4 10 0 0 1 8081) Gpu Ok 0 now)\<lparr>cooldown_until := Some (now + from_secs 30)\<rparr>]
          [] now
      in pick_gpu snap now = None)"

lemmas policy_test_defs =
  empty_snapshot_returns_none_def
  single_ok_gpu_with_zero_depth_is_picked_def
  single_ok_gpu_with_nonzero_depth_is_still_picked_def
  single_ok_cpu_is_picked_when_no_gpu_exists_def
  ok_gpu_beats_ok_cpu_with_same_depth_def
  ok_gpu_with_higher_depth_still_beats_ok_cpu_with_zero_depth_def
  fail_gpu_falls_through_to_ok_cpu_def
  loading_gpu_falls_through_to_ok_cpu_def
  unknown_gpu_falls_through_to_ok_cpu_def
  picks_lowest_depth_among_multiple_ok_gpus_def
  picks_lowest_depth_among_multiple_ok_cpus_def
  loading_gpu_with_live_workers_is_picked_as_fallback_def
  all_loading_cpu_only_is_picked_as_fallback_def
  ok_cpu_beats_loading_gpu_in_fallback_def
  fail_gpu_falls_back_to_loading_cpu_def
  loading_upstream_with_zero_live_workers_is_skipped_def
  pick_gpu_includes_loading_fallback_def
  pick_cpu_includes_loading_fallback_def
  all_fail_returns_none_def
  all_unknown_returns_none_def
  pick_gpu_ignores_cpu_pool_def
  pick_cpu_ignores_gpu_pool_def
  pick_gpu_excluding_set_skips_all_excluded_def
  pick_gpu_skips_cooled_down_ok_upstream_def
  pick_gpu_returns_none_when_all_in_cooldown_def

definition policy_suite :: "instant \<Rightarrow> bool" where
  "policy_suite now \<longleftrightarrow>
     empty_snapshot_returns_none now \<and>
     single_ok_gpu_with_zero_depth_is_picked now \<and>
     single_ok_gpu_with_nonzero_depth_is_still_picked now \<and>
     single_ok_cpu_is_picked_when_no_gpu_exists now \<and>
     ok_gpu_beats_ok_cpu_with_same_depth now \<and>
     ok_gpu_with_higher_depth_still_beats_ok_cpu_with_zero_depth now \<and>
     fail_gpu_falls_through_to_ok_cpu now \<and>
     loading_gpu_falls_through_to_ok_cpu now \<and>
     unknown_gpu_falls_through_to_ok_cpu now \<and>
     picks_lowest_depth_among_multiple_ok_gpus now \<and>
     picks_lowest_depth_among_multiple_ok_cpus now \<and>
     loading_gpu_with_live_workers_is_picked_as_fallback now \<and>
     all_loading_cpu_only_is_picked_as_fallback now \<and>
     ok_cpu_beats_loading_gpu_in_fallback now \<and>
     fail_gpu_falls_back_to_loading_cpu now \<and>
     loading_upstream_with_zero_live_workers_is_skipped now \<and>
     pick_gpu_includes_loading_fallback now \<and>
     pick_cpu_includes_loading_fallback now \<and>
     all_fail_returns_none now \<and>
     all_unknown_returns_none now \<and>
     pick_gpu_ignores_cpu_pool now \<and>
     pick_cpu_ignores_gpu_pool now \<and>
     pick_gpu_excluding_set_skips_all_excluded now \<and>
     pick_gpu_skips_cooled_down_ok_upstream now \<and>
     pick_gpu_returns_none_when_all_in_cooldown now"

lemma policy_suite_holds: "policy_suite now"
  by (simp add: policy_suite_def policy_test_defs Let_def test_snapshot_def make_upstream_def
      default_snapshot_def pick_def pick_gpu_def pick_cpu_def pick_ok_def pick_loading_def
      pick_gpu_excluding_set_def pick_tier_def is_ok_eligible_def is_loading_eligible_def word_le_nat_alt
      is_in_cooldown_def)

end
