(* ===== verification/Config_Tests.thy ===== *)
theory Config_Tests
  imports Config
begin

text \<open>
  The tests of the configuration, \<open>src/config/tests.rs\<close>: one definition per test function.
  \<open>from_map\<close> and \<open>empty_lookup\<close> are the helpers of the tests; a test that expects an
  accepted or a rejected environment is false when the other happens.
\<close>

definition from_map :: "(string \<times> string) list \<Rightarrow> string + config" where
  "from_map entries = from_lookup (map_of (rev entries))"

definition empty_lookup :: "string + config" where
  "empty_lookup = from_lookup (\<lambda>_. None)"

definition accepts :: "string + config \<Rightarrow> (config \<Rightarrow> bool) \<Rightarrow> bool" where
  "accepts x P \<longleftrightarrow> (case x of Inl msg \<Rightarrow> False | Inr cfg \<Rightarrow> P cfg)"

definition rejects :: "string + config \<Rightarrow> (string \<Rightarrow> bool) \<Rightarrow> bool" where
  "rejects x P \<longleftrightarrow> (case x of Inl msg \<Rightarrow> P msg | Inr cfg \<Rightarrow> False)"

definition from_lookup_succeeds_with_no_vars_set :: bool where
  "from_lookup_succeeds_with_no_vars_set \<longleftrightarrow>
     accepts empty_lookup
       (\<lambda>_. True)"

definition default_bind_address :: bool where
  "default_bind_address \<longleftrightarrow>
     accepts empty_lookup
       (\<lambda>cfg. bind_addr cfg = ''0.0.0.0:8081'')"

definition default_gpu_dns :: bool where
  "default_gpu_dns \<longleftrightarrow>
     accepts empty_lookup
       (\<lambda>cfg. gpu_dns cfg = ''bge-m3-gpu'')"

definition default_cpu_dns :: bool where
  "default_cpu_dns \<longleftrightarrow>
     accepts empty_lookup
       (\<lambda>cfg. cpu_dns cfg = ''bge-m3-cpu'')"

definition default_dns_refresh_is_30s :: bool where
  "default_dns_refresh_is_30s \<longleftrightarrow>
     accepts empty_lookup
       (\<lambda>cfg. dns_refresh cfg = from_secs 30)"

definition default_health_poll_is_5s :: bool where
  "default_health_poll_is_5s \<longleftrightarrow>
     accepts empty_lookup
       (\<lambda>cfg. health_poll cfg = from_secs 5)"

definition default_hedge_delay_is_5000ms :: bool where
  "default_hedge_delay_is_5000ms \<longleftrightarrow>
     accepts empty_lookup
       (\<lambda>cfg. hedge_delay cfg = from_secs 5)"

definition default_control_timeout_is_1000ms :: bool where
  "default_control_timeout_is_1000ms \<longleftrightarrow>
     accepts empty_lookup
       (\<lambda>cfg. control_timeout cfg = from_secs 1)"

definition default_retry_count_is_three :: bool where
  "default_retry_count_is_three \<longleftrightarrow>
     accepts empty_lookup
       (\<lambda>cfg. retry_count cfg = 3)"

definition default_retry_initial_backoff_is_100ms :: bool where
  "default_retry_initial_backoff_is_100ms \<longleftrightarrow>
     accepts empty_lookup
       (\<lambda>cfg. retry_initial_backoff cfg = from_millis 100)"

definition default_retry_max_backoff_is_1000ms :: bool where
  "default_retry_max_backoff_is_1000ms \<longleftrightarrow>
     accepts empty_lookup
       (\<lambda>cfg. retry_max_backoff cfg = from_secs 1)"

definition default_cooldown_is_30s :: bool where
  "default_cooldown_is_30s \<longleftrightarrow>
     accepts empty_lookup
       (\<lambda>cfg. cooldown cfg = from_secs 30)"

definition default_heartbeat_is_60s :: bool where
  "default_heartbeat_is_60s \<longleftrightarrow>
     accepts empty_lookup
       (\<lambda>cfg. heartbeat cfg = from_secs 60)"

definition default_does_not_set_legacy_flag :: bool where
  "default_does_not_set_legacy_flag \<longleftrightarrow>
     accepts empty_lookup
       (\<lambda>cfg. \<not> legacy_fallback_budget_set cfg)"

definition explicit_hedge_delay_overrides_default :: bool where
  "explicit_hedge_delay_overrides_default \<longleftrightarrow>
     accepts (from_map [(''BGE_ROUTER_HEDGE_DELAY_MS'', ''2500'')])
       (\<lambda>cfg. hedge_delay cfg = from_millis 2500 \<and> \<not> legacy_fallback_budget_set cfg)"

definition explicit_control_timeout_overrides_default :: bool where
  "explicit_control_timeout_overrides_default \<longleftrightarrow>
     accepts (from_map [(''BGE_ROUTER_CONTROL_TIMEOUT_MS'', ''300'')])
       (\<lambda>cfg. control_timeout cfg = from_millis 300)"

definition explicit_retry_settings_override_defaults :: bool where
  "explicit_retry_settings_override_defaults \<longleftrightarrow>
     accepts (from_map [(''BGE_ROUTER_RETRY_COUNT'', ''5''),
          (''BGE_ROUTER_RETRY_INITIAL_BACKOFF_MS'', ''50''),
          (''BGE_ROUTER_RETRY_MAX_BACKOFF_MS'', ''500''),
          (''BGE_ROUTER_COOLDOWN_SECS'', ''45'')])
       (\<lambda>cfg. retry_count cfg = 5 \<and> retry_initial_backoff cfg = from_millis 50 \<and>
          retry_max_backoff cfg = from_millis 500 \<and> cooldown cfg = from_secs 45)"

definition legacy_fallback_budget_seeds_hedge_delay_when_new_var_absent :: bool where
  "legacy_fallback_budget_seeds_hedge_delay_when_new_var_absent \<longleftrightarrow>
     accepts (from_map [(''BGE_ROUTER_FALLBACK_BUDGET_MS'', ''1500'')])
       (\<lambda>cfg. hedge_delay cfg = from_millis 1500 \<and> legacy_fallback_budget_set cfg)"

definition legacy_fallback_budget_does_not_affect_control_timeout :: bool where
  "legacy_fallback_budget_does_not_affect_control_timeout \<longleftrightarrow>
     accepts (from_map [(''BGE_ROUTER_FALLBACK_BUDGET_MS'', ''9000'')])
       (\<lambda>cfg. control_timeout cfg = from_secs 1)"

definition explicit_hedge_delay_wins_over_legacy_var :: bool where
  "explicit_hedge_delay_wins_over_legacy_var \<longleftrightarrow>
     accepts (from_map [(''BGE_ROUTER_FALLBACK_BUDGET_MS'', ''9000''),
          (''BGE_ROUTER_HEDGE_DELAY_MS'', ''2000'')])
       (\<lambda>cfg. hedge_delay cfg = from_secs 2 \<and> legacy_fallback_budget_set cfg)"

definition tls_cert_path_set_when_var_present :: bool where
  "tls_cert_path_set_when_var_present \<longleftrightarrow>
     rejects (from_map [(''BGE_ROUTER_TLS_CERT_PATH'', ''/etc/ssl/cert.pem'')])
       (\<lambda>msg. str_contains ''BGE_ROUTER_TLS_CERT_PATH'' msg \<or> str_contains ''TLS misconfiguration'' msg)"

definition tls_cert_and_key_both_set_succeeds :: bool where
  "tls_cert_and_key_both_set_succeeds \<longleftrightarrow>
     accepts (from_map [(''BGE_ROUTER_TLS_CERT_PATH'', ''/etc/ssl/cert.pem''),
          (''BGE_ROUTER_TLS_KEY_PATH'', ''/etc/ssl/key.pem'')])
       (\<lambda>cfg. tls_cert_path cfg = Some ''/etc/ssl/cert.pem'' \<and> tls_key_path cfg = Some ''/etc/ssl/key.pem'')"

definition tls_key_only_is_rejected_by_half_config_guard :: bool where
  "tls_key_only_is_rejected_by_half_config_guard \<longleftrightarrow>
     rejects (from_map [(''BGE_ROUTER_TLS_KEY_PATH'', ''/etc/ssl/key.pem'')])
       (\<lambda>msg. str_contains ''TLS misconfiguration'' msg)"

definition upstream_tls_enabled_by_one :: bool where
  "upstream_tls_enabled_by_one \<longleftrightarrow>
     accepts (from_map [(''BGE_ROUTER_UPSTREAM_TLS'', ''1'')])
       (\<lambda>cfg. upstream_tls cfg)"

definition upstream_tls_enabled_by_true :: bool where
  "upstream_tls_enabled_by_true \<longleftrightarrow>
     accepts (from_map [(''BGE_ROUTER_UPSTREAM_TLS'', ''true'')])
       (\<lambda>cfg. upstream_tls cfg)"

definition upstream_tls_disabled_by_false :: bool where
  "upstream_tls_disabled_by_false \<longleftrightarrow>
     accepts (from_map [(''BGE_ROUTER_UPSTREAM_TLS'', ''false'')])
       (\<lambda>cfg. \<not> upstream_tls cfg)"

definition upstream_tls_disabled_by_zero :: bool where
  "upstream_tls_disabled_by_zero \<longleftrightarrow>
     accepts (from_map [(''BGE_ROUTER_UPSTREAM_TLS'', ''0'')])
       (\<lambda>cfg. \<not> upstream_tls cfg)"

definition upstream_tls_defaults_to_false :: bool where
  "upstream_tls_defaults_to_false \<longleftrightarrow>
     accepts empty_lookup
       (\<lambda>cfg. \<not> upstream_tls cfg)"

definition upstream_scheme_is_https_when_upstream_tls_set :: bool where
  "upstream_scheme_is_https_when_upstream_tls_set \<longleftrightarrow>
     accepts (from_map [(''BGE_ROUTER_UPSTREAM_TLS'', ''1'')])
       (\<lambda>cfg. upstream_scheme_of cfg = Https)"

definition upstream_scheme_is_http_by_default :: bool where
  "upstream_scheme_is_http_by_default \<longleftrightarrow>
     accepts empty_lookup
       (\<lambda>cfg. upstream_scheme_of cfg = Http)"

definition zero_hedge_delay_is_rejected :: bool where
  "zero_hedge_delay_is_rejected \<longleftrightarrow>
     rejects (from_map [(''BGE_ROUTER_HEDGE_DELAY_MS'', ''0'')])
       (\<lambda>msg. str_contains ''BGE_ROUTER_HEDGE_DELAY_MS'' msg)"

definition zero_control_timeout_is_rejected :: bool where
  "zero_control_timeout_is_rejected \<longleftrightarrow>
     rejects (from_map [(''BGE_ROUTER_CONTROL_TIMEOUT_MS'', ''0'')])
       (\<lambda>msg. str_contains ''BGE_ROUTER_CONTROL_TIMEOUT_MS'' msg)"

definition non_numeric_hedge_delay_is_rejected :: bool where
  "non_numeric_hedge_delay_is_rejected \<longleftrightarrow>
     rejects (from_map [(''BGE_ROUTER_HEDGE_DELAY_MS'', ''abc'')])
       (\<lambda>msg. str_contains ''BGE_ROUTER_HEDGE_DELAY_MS'' msg)"

definition cooldown_secs_zero_is_accepted :: bool where
  "cooldown_secs_zero_is_accepted \<longleftrightarrow>
     accepts (from_map [(''BGE_ROUTER_COOLDOWN_SECS'', ''0'')])
       (\<lambda>cfg. cooldown cfg = 0 \<and> rc_cooldown (retry_config_of cfg) = 0)"

definition retry_count_above_max_is_rejected :: bool where
  "retry_count_above_max_is_rejected \<longleftrightarrow>
     rejects (from_map [(''BGE_ROUTER_RETRY_COUNT'', ''21'')])
       (\<lambda>msg. str_contains ''BGE_ROUTER_RETRY_COUNT'' msg \<and> str_contains ''exceeds maximum'' msg)"

definition zero_retry_initial_backoff_is_rejected :: bool where
  "zero_retry_initial_backoff_is_rejected \<longleftrightarrow>
     rejects (from_map [(''BGE_ROUTER_RETRY_INITIAL_BACKOFF_MS'', ''0'')])
       (\<lambda>msg. str_contains ''BGE_ROUTER_RETRY_INITIAL_BACKOFF_MS'' msg)"

definition retry_max_backoff_less_than_initial_is_rejected :: bool where
  "retry_max_backoff_less_than_initial_is_rejected \<longleftrightarrow>
     rejects (from_map [(''BGE_ROUTER_RETRY_INITIAL_BACKOFF_MS'', ''500''),
          (''BGE_ROUTER_RETRY_MAX_BACKOFF_MS'', ''100'')])
       (\<lambda>msg. str_contains ''BGE_ROUTER_RETRY_MAX_BACKOFF_MS'' msg)"

definition config_defaults_suite :: bool where
  "config_defaults_suite \<longleftrightarrow>
     from_lookup_succeeds_with_no_vars_set \<and>
     default_bind_address \<and>
     default_gpu_dns \<and>
     default_cpu_dns \<and>
     default_dns_refresh_is_30s \<and>
     default_health_poll_is_5s \<and>
     default_hedge_delay_is_5000ms \<and>
     default_control_timeout_is_1000ms \<and>
     default_retry_count_is_three \<and>
     default_retry_initial_backoff_is_100ms \<and>
     default_retry_max_backoff_is_1000ms \<and>
     default_cooldown_is_30s \<and>
     default_heartbeat_is_60s \<and>
     default_does_not_set_legacy_flag \<and>
     upstream_tls_defaults_to_false \<and>
     upstream_scheme_is_http_by_default"

lemma config_defaults_suite_holds: "config_defaults_suite"
  by (simp add: config_defaults_suite_def empty_lookup_def from_lookup_empty accepts_def default_config_def
      upstream_scheme_of_def from_secs_def from_millis_def nanos_per_sec_def nanos_per_milli_def
      from_lookup_succeeds_with_no_vars_set_def
      default_bind_address_def
      default_gpu_dns_def
      default_cpu_dns_def
      default_dns_refresh_is_30s_def
      default_health_poll_is_5s_def
      default_hedge_delay_is_5000ms_def
      default_control_timeout_is_1000ms_def
      default_retry_count_is_three_def
      default_retry_initial_backoff_is_100ms_def
      default_retry_max_backoff_is_1000ms_def
      default_cooldown_is_30s_def
      default_heartbeat_is_60s_def
      default_does_not_set_legacy_flag_def
      upstream_tls_defaults_to_false_def
      upstream_scheme_is_http_by_default_def)

lemmas config_eval = from_map_def from_lookup_def parse_u64_def parse_optional_u64_def default_defs
  unwrap_or_def u32_try_from_def max_retry_count_def bail_if_def tls_enabled_def Let_def
  accepts_def rejects_def digit_val_def u64_max_def must_be_positive_def too_many_retries_def
  not_an_integer_def starts_with_def from_secs_def from_millis_def nanos_per_sec_def
  nanos_per_milli_def upstream_scheme_of_def retry_config_of_def ascii_lower_def

lemma explicit_hedge_delay_overrides_default_holds: "explicit_hedge_delay_overrides_default"
  by (simp add: explicit_hedge_delay_overrides_default_def config_eval)

lemma explicit_control_timeout_overrides_default_holds: "explicit_control_timeout_overrides_default"
  by (simp add: explicit_control_timeout_overrides_default_def config_eval)

lemma explicit_retry_settings_override_defaults_holds: "explicit_retry_settings_override_defaults"
  by (simp add: explicit_retry_settings_override_defaults_def config_eval)

lemma legacy_fallback_budget_seeds_hedge_delay_when_new_var_absent_holds: "legacy_fallback_budget_seeds_hedge_delay_when_new_var_absent"
  by (simp add: legacy_fallback_budget_seeds_hedge_delay_when_new_var_absent_def config_eval)

lemma legacy_fallback_budget_does_not_affect_control_timeout_holds: "legacy_fallback_budget_does_not_affect_control_timeout"
  by (simp add: legacy_fallback_budget_does_not_affect_control_timeout_def config_eval)

lemma explicit_hedge_delay_wins_over_legacy_var_holds: "explicit_hedge_delay_wins_over_legacy_var"
  by (simp add: explicit_hedge_delay_wins_over_legacy_var_def config_eval)

lemma tls_cert_path_set_when_var_present_holds: "tls_cert_path_set_when_var_present"
  by (simp add: tls_cert_path_set_when_var_present_def config_eval)

lemma tls_cert_and_key_both_set_succeeds_holds: "tls_cert_and_key_both_set_succeeds"
  by (simp add: tls_cert_and_key_both_set_succeeds_def config_eval)

lemma tls_key_only_is_rejected_by_half_config_guard_holds: "tls_key_only_is_rejected_by_half_config_guard"
  by (simp add: tls_key_only_is_rejected_by_half_config_guard_def config_eval)

lemma upstream_tls_enabled_by_one_holds: "upstream_tls_enabled_by_one"
  by (simp add: upstream_tls_enabled_by_one_def config_eval)

lemma upstream_tls_enabled_by_true_holds: "upstream_tls_enabled_by_true"
  by (simp add: upstream_tls_enabled_by_true_def config_eval)

lemma upstream_tls_disabled_by_false_holds: "upstream_tls_disabled_by_false"
  by (simp add: upstream_tls_disabled_by_false_def config_eval)

lemma upstream_tls_disabled_by_zero_holds: "upstream_tls_disabled_by_zero"
  by (simp add: upstream_tls_disabled_by_zero_def config_eval)

lemma upstream_scheme_is_https_when_upstream_tls_set_holds: "upstream_scheme_is_https_when_upstream_tls_set"
  by (simp add: upstream_scheme_is_https_when_upstream_tls_set_def config_eval)

lemma zero_hedge_delay_is_rejected_holds: "zero_hedge_delay_is_rejected"
  by (simp add: zero_hedge_delay_is_rejected_def config_eval)

lemma zero_control_timeout_is_rejected_holds: "zero_control_timeout_is_rejected"
  by (simp add: zero_control_timeout_is_rejected_def config_eval)

lemma non_numeric_hedge_delay_is_rejected_holds: "non_numeric_hedge_delay_is_rejected"
  by (simp add: non_numeric_hedge_delay_is_rejected_def config_eval)

lemma cooldown_secs_zero_is_accepted_holds: "cooldown_secs_zero_is_accepted"
  by (simp add: cooldown_secs_zero_is_accepted_def config_eval)

lemma retry_count_above_max_is_rejected_holds: "retry_count_above_max_is_rejected"
  by (simp add: retry_count_above_max_is_rejected_def config_eval show_nat.simps digit_char_def char_of_def bit_0)

lemma zero_retry_initial_backoff_is_rejected_holds: "zero_retry_initial_backoff_is_rejected"
  by (simp add: zero_retry_initial_backoff_is_rejected_def config_eval)

lemma retry_max_backoff_less_than_initial_is_rejected_holds: "retry_max_backoff_less_than_initial_is_rejected"
  by (simp add: retry_max_backoff_less_than_initial_is_rejected_def config_eval)

definition config_lookup_suite :: bool where
  "config_lookup_suite \<longleftrightarrow>
     explicit_hedge_delay_overrides_default \<and>
     explicit_control_timeout_overrides_default \<and>
     explicit_retry_settings_override_defaults \<and>
     legacy_fallback_budget_seeds_hedge_delay_when_new_var_absent \<and>
     legacy_fallback_budget_does_not_affect_control_timeout \<and>
     explicit_hedge_delay_wins_over_legacy_var \<and>
     tls_cert_path_set_when_var_present \<and>
     tls_cert_and_key_both_set_succeeds \<and>
     tls_key_only_is_rejected_by_half_config_guard \<and>
     upstream_tls_enabled_by_one \<and>
     upstream_tls_enabled_by_true \<and>
     upstream_tls_disabled_by_false \<and>
     upstream_tls_disabled_by_zero \<and>
     upstream_scheme_is_https_when_upstream_tls_set \<and>
     zero_hedge_delay_is_rejected \<and>
     zero_control_timeout_is_rejected \<and>
     non_numeric_hedge_delay_is_rejected \<and>
     cooldown_secs_zero_is_accepted \<and>
     retry_count_above_max_is_rejected \<and>
     zero_retry_initial_backoff_is_rejected \<and>
     retry_max_backoff_less_than_initial_is_rejected"

lemma config_lookup_suite_holds: "config_lookup_suite"
  by (simp add: config_lookup_suite_def
      explicit_hedge_delay_overrides_default_holds
      explicit_control_timeout_overrides_default_holds
      explicit_retry_settings_override_defaults_holds
      legacy_fallback_budget_seeds_hedge_delay_when_new_var_absent_holds
      legacy_fallback_budget_does_not_affect_control_timeout_holds
      explicit_hedge_delay_wins_over_legacy_var_holds
      tls_cert_path_set_when_var_present_holds
      tls_cert_and_key_both_set_succeeds_holds
      tls_key_only_is_rejected_by_half_config_guard_holds
      upstream_tls_enabled_by_one_holds
      upstream_tls_enabled_by_true_holds
      upstream_tls_disabled_by_false_holds
      upstream_tls_disabled_by_zero_holds
      upstream_scheme_is_https_when_upstream_tls_set_holds
      zero_hedge_delay_is_rejected_holds
      zero_control_timeout_is_rejected_holds
      non_numeric_hedge_delay_is_rejected_holds
      cooldown_secs_zero_is_accepted_holds
      retry_count_above_max_is_rejected_holds
      zero_retry_initial_backoff_is_rejected_holds
      retry_max_backoff_less_than_initial_is_rejected_holds)

end
