(* ===== verification/Fallback_Tests.thy ===== *)
theory Fallback_Tests
  imports Fallback Config_Tests
begin

text \<open>
  The integration tests of the two strategies, \<open>src/router/fallback/tests.rs\<close>: one definition
  per test function, run on the model. The mock upstreams of the tests are the network: a mock
  answers every request that reaches its address after its delay, with its status and the
  body \<open>ok\<close>. Its counters are functions of the effects of the run and of the instant at which
  the run returns: a request is completed when its delay is over by then, and cancelled
  otherwise, because a returning run drops what is left of its futures. The ports stand for
  those that the operating system hands out.
\<close>

section \<open>Mock upstreams\<close>

record mock =
  mock_port :: u16
  response_status :: u16
  mock_delay :: duration

definition spawn_mock :: "u16 \<Rightarrow> u16 \<Rightarrow> duration \<Rightarrow> mock" where
  "spawn_mock port st d = \<lparr>mock_port = port, response_status = st, mock_delay = d\<rparr>"

definition mock_addr :: "mock \<Rightarrow> socket_addr" where
  "mock_addr m = V4 127 0 0 1 (mock_port m)"

definition reaches :: "request \<Rightarrow> mock \<Rightarrow> bool" where
  "reaches rq m \<longleftrightarrow> starts_with (''http://'' @ show_addr (mock_addr m) @ ''/'') (req_url rq)"

definition mock_net :: "mock list \<Rightarrow> network" where
  "mock_net mocks t k rq now =
     map_option (\<lambda>m. (mock_delay m, Answered (response_status m) [] ''ok'')) (find (reaches rq) mocks)"

text \<open>The instants at which a mock received a request.\<close>

fun received_at :: "mock \<Rightarrow> instant \<times> effect \<Rightarrow> instant option" where
  "received_at m (s, SendRequest t k rq) = (if reaches rq m then Some s else None)"
| "received_at m _ = None"

definition arrivals :: "mock \<Rightarrow> (instant \<times> effect) list \<Rightarrow> instant list" where
  "arrivals m es = List.map_filter (received_at m) es"

definition received :: "mock \<Rightarrow> (instant \<times> effect) list \<Rightarrow> nat" where
  "received m es = length (arrivals m es)"

definition completed :: "mock \<Rightarrow> (instant \<times> effect) list \<Rightarrow> instant \<Rightarrow> nat" where
  "completed m es returned = length (filter (\<lambda>s. s + mock_delay m \<le> returned) (arrivals m es))"

definition cancelled :: "mock \<Rightarrow> (instant \<times> effect) list \<Rightarrow> instant \<Rightarrow> nat" where
  "cancelled m es returned = length (filter (\<lambda>s. \<not> s + mock_delay m \<le> returned) (arrivals m es))"

section \<open>State\<close>

definition config_with :: "duration \<Rightarrow> duration \<Rightarrow> string + config" where
  "config_with delay ctl =
     from_lookup (\<lambda>key.
       if key = ''BGE_ROUTER_HEDGE_DELAY_MS'' then Some (show_nat (as_millis delay))
       else if key = ''BGE_ROUTER_CONTROL_TIMEOUT_MS'' then Some (show_nat (as_millis ctl))
       else if key = ''BGE_ROUTER_RETRY_INITIAL_BACKOFF_MS'' then Some ''1''
       else if key = ''BGE_ROUTER_RETRY_MAX_BACKOFF_MS'' then Some ''2''
       else if key = ''BGE_ROUTER_COOLDOWN_SECS'' then Some ''30''
       else None)"

definition ok_upstream :: "socket_addr \<Rightarrow> pool_type \<Rightarrow> upstream_info" where
  "ok_upstream a t =
     \<lparr>addr = a, pool_type = t, status = Ok, queue_depth = 0, live_workers = 1,
      last_seen = 0, cooldown_until = None\<rparr>"

text \<open>The cell of a test that starts at instant 0, and the runtime with nobody else in it.\<close>

definition state_with :: "mock list \<Rightarrow> mock list \<Rightarrow> unit world" where
  "state_with gs cs =
     \<lparr>w_now = 0,
      w_pool = \<lparr>gpu = map (\<lambda>m. ok_upstream (mock_addr m) Gpu) gs,
                cpu = map (\<lambda>m. ok_upstream (mock_addr m) Cpu) cs, updated_at = 0\<rparr>,
      w_env = ()\<rparr>"

definition mock_runtime :: "mock list \<Rightarrow> unit runtime" where
  "mock_runtime mocks = \<lparr>net = mock_net mocks, drift = (\<lambda>_ _ x. x), to_json = (\<lambda>_. None)\<rparr>"

definition returns :: "(unit, outcome) run \<Rightarrow> ((instant \<times> effect) list \<Rightarrow> outcome \<Rightarrow> unit world \<Rightarrow> bool) \<Rightarrow> bool"
where
  "returns x P \<longleftrightarrow> (case x of Returned es r w \<Rightarrow> P es r w | _ \<Rightarrow> False)"

definition expect :: "outcome \<Rightarrow> (response \<Rightarrow> bool) \<Rightarrow> bool" where
  "expect x P \<longleftrightarrow> (case x of Inr resp \<Rightarrow> P resp | Inl e \<Rightarrow> False)"

definition test_header :: "response \<Rightarrow> string \<Rightarrow> string option" where
  "test_header resp name = (case hm_values (resp_headers resp) name of [] \<Rightarrow> None | v # _ \<Rightarrow> Some v)"

definition embed :: "mock list \<Rightarrow> config \<Rightarrow> unit world \<Rightarrow> (unit, outcome) run" where
  "embed mocks cfg w = route (mock_runtime mocks) cfg ''POST'' ''/v1/embeddings'' [] ''{}'' w"

definition get_health :: "mock list \<Rightarrow> config \<Rightarrow> unit world \<Rightarrow> (unit, outcome) run" where
  "get_health mocks cfg w = route (mock_runtime mocks) cfg ''GET'' ''/health'' [] [] w"

section \<open>Hedged race\<close>

definition hedged_race_fast_cpu_wins_and_gpu_is_cancelled :: "u16 \<Rightarrow> u16 \<Rightarrow> bool" where
  "hedged_race_fast_cpu_wins_and_gpu_is_cancelled p q \<longleftrightarrow>
     (let g = spawn_mock p 200 (from_millis 200); c = spawn_mock q 200 (from_millis 50)
      in accepts (config_with (from_millis 20) (from_secs 1)) (\<lambda>cfg.
         returns (embed [g, c] cfg (state_with [g] [c])) (\<lambda>es r w.
           expect r (\<lambda>resp. resp_status resp = 200) \<and>
           received g es = 1 \<and> received c es = 1 \<and> completed g es (w_now w) = 0 \<and>
           cancelled g es (w_now w) = 1 \<and> completed c es (w_now w) = 1)))"

definition hedge_delay_not_elapsed_means_cpu_is_never_fired :: "u16 \<Rightarrow> u16 \<Rightarrow> bool" where
  "hedge_delay_not_elapsed_means_cpu_is_never_fired p q \<longleftrightarrow>
     (let g = spawn_mock p 200 (from_millis 30); c = spawn_mock q 200 (from_millis 10)
      in accepts (config_with (from_millis 500) (from_secs 1)) (\<lambda>cfg.
         returns (embed [g, c] cfg (state_with [g] [c])) (\<lambda>es r w.
           expect r (\<lambda>resp. resp_status resp = 200) \<and> received g es = 1 \<and> received c es = 0)))"

definition hedged_race_gpu_5xx_cpu_wins :: "u16 \<Rightarrow> u16 \<Rightarrow> bool" where
  "hedged_race_gpu_5xx_cpu_wins p q \<longleftrightarrow>
     (let g = spawn_mock p 500 (from_millis 5); c = spawn_mock q 200 (from_millis 5)
      in accepts (config_with (from_millis 20) (from_secs 1)) (\<lambda>cfg.
         returns (embed [g, c] cfg (state_with [g] [c])) (\<lambda>es r w.
           expect r (\<lambda>resp. resp_status resp = 200 \<and>
             test_header resp ''x-bge-router-pool'' = Some ''cpu''))))"

definition hedged_race_both_fail_returns_gpu_error :: "u16 \<Rightarrow> u16 \<Rightarrow> bool" where
  "hedged_race_both_fail_returns_gpu_error p q \<longleftrightarrow>
     (let g = spawn_mock p 500 (from_millis 20); c = spawn_mock q 500 (from_millis 40)
      in accepts (config_with (from_millis 10) (from_secs 1)) (\<lambda>cfg.
         returns (embed [g, c] cfg (state_with [g] [c])) (\<lambda>es r w.
           expect r (\<lambda>resp. resp_status resp = 500 \<and>
             test_header resp ''x-bge-router-pool'' = Some ''gpu'') \<and>
           received g es = 4 \<and> received c es = 4)))"

definition inference_prefers_second_gpu_before_cpu :: "u16 \<Rightarrow> u16 \<Rightarrow> u16 \<Rightarrow> bool" where
  "inference_prefers_second_gpu_before_cpu p q r \<longleftrightarrow>
     (let ga = spawn_mock p 500 (from_millis 5); gb = spawn_mock q 200 (from_millis 5);
          c = spawn_mock r 200 (from_millis 5)
      in accepts (config_with (from_millis 20) (from_secs 1)) (\<lambda>cfg.
         returns (embed [ga, gb, c] cfg (state_with [ga, gb] [c])) (\<lambda>es out w.
           expect out (\<lambda>resp. resp_status resp = 200 \<and>
             test_header resp ''x-bge-router-pool'' = Some ''gpu'' \<and>
             test_header resp ''x-bge-router-upstream'' = Some (show_addr (mock_addr gb))) \<and>
           received c es = 0)))"

section \<open>Sequential timeout\<close>

definition control_plane_uses_per_upstream_timeout_and_falls_back_to_cpu :: "u16 \<Rightarrow> u16 \<Rightarrow> bool" where
  "control_plane_uses_per_upstream_timeout_and_falls_back_to_cpu p q \<longleftrightarrow>
     (let g = spawn_mock p 200 (from_secs 5); c = spawn_mock q 200 (from_millis 20)
      in accepts (config_with (from_secs 60) (from_millis 100)) (\<lambda>cfg.
         returns (get_health [g, c] cfg (state_with [g] [c])) (\<lambda>es r w.
           expect r (\<lambda>resp. resp_status resp = 200 \<and>
             test_header resp ''x-bge-router-pool'' = Some ''cpu'') \<and>
           w_now w < from_millis 800 \<and> from_millis 100 \<le> w_now w)))"

definition control_plane_prefers_second_gpu_before_cpu :: "u16 \<Rightarrow> u16 \<Rightarrow> u16 \<Rightarrow> bool" where
  "control_plane_prefers_second_gpu_before_cpu p q r \<longleftrightarrow>
     (let ga = spawn_mock p 500 (from_millis 5); gb = spawn_mock q 200 (from_millis 5);
          c = spawn_mock r 200 (from_millis 5)
      in accepts (config_with (from_secs 1) (from_secs 1)) (\<lambda>cfg.
         returns (get_health [ga, gb, c] cfg (state_with [ga, gb] [c])) (\<lambda>es out w.
           expect out (\<lambda>resp. resp_status resp = 200 \<and>
             test_header resp ''x-bge-router-pool'' = Some ''gpu'' \<and>
             test_header resp ''x-bge-router-upstream'' = Some (show_addr (mock_addr gb))) \<and>
           received c es = 0)))"

text \<open>Two requests in a row; the second one starts where the first one returned.\<close>

definition upstream_is_cooled_down_after_retry_exhaustion :: "u16 \<Rightarrow> bool" where
  "upstream_is_cooled_down_after_retry_exhaustion p \<longleftrightarrow>
     (let g = spawn_mock p 500 (from_millis 5)
      in accepts (config_with (from_millis 20) (from_secs 1)) (\<lambda>cfg.
         returns (embed [g] cfg (state_with [g] [])) (\<lambda>es r w.
           expect r (\<lambda>resp. resp_status resp = 500) \<and> received g es = 4 \<and>
           (case gpu (w_pool w) of [] \<Rightarrow> False | u # _ \<Rightarrow> cooldown_until u \<noteq> None) \<and>
           returns (embed [g] cfg w) (\<lambda>es' r' w'.
             r' = Inl NoUpstreamAvailable \<and> received g (es @ es') = 4))))"

section \<open>The legacy variable\<close>

definition legacy_fallback_budget_seeds_hedge_delay :: bool where
  "legacy_fallback_budget_seeds_hedge_delay \<longleftrightarrow>
     accepts (from_lookup (\<lambda>key. if key = ''BGE_ROUTER_FALLBACK_BUDGET_MS'' then Some ''2750'' else None))
       (\<lambda>cfg. hedge_delay cfg = from_millis 2750 \<and> legacy_fallback_budget_set cfg \<and>
         control_timeout cfg = from_secs 1)"

definition fallback_suite :: "u16 \<Rightarrow> u16 \<Rightarrow> u16 \<Rightarrow> bool" where
  "fallback_suite p q r \<longleftrightarrow>
     hedged_race_fast_cpu_wins_and_gpu_is_cancelled p q \<and>
     hedge_delay_not_elapsed_means_cpu_is_never_fired p q \<and>
     hedged_race_gpu_5xx_cpu_wins p q \<and> hedged_race_both_fail_returns_gpu_error p q \<and>
     inference_prefers_second_gpu_before_cpu p q r \<and>
     control_plane_uses_per_upstream_timeout_and_falls_back_to_cpu p q \<and>
     control_plane_prefers_second_gpu_before_cpu p q r \<and>
     upstream_is_cooled_down_after_retry_exhaustion p \<and> legacy_fallback_budget_seeds_hedge_delay"

section \<open>Evaluation\<close>

lemma show_addr_no_slash: "CHR ''/'' \<notin> set (show_addr (mock_addr m))"
proof -
  have "CHR ''/'' \<notin> set (show_nat n)" for n
  proof (induction n rule: show_nat.induct)
    case (1 n)
    have ns: "CHR ''/'' \<noteq> digit_char d" if "d < 10" for d
    proof
      assume "CHR ''/'' = digit_char d"
      then have "digit_val (CHR ''/'') = Some d" using that by (metis digit_val_digit_char)
      then show False by (simp add: digit_val_def)
    qed
    show ?case using 1 by (subst show_nat.simps) (auto simp: ns)
  qed
  then show ?thesis by (simp add: mock_addr_def show_ipv4_def)
qed

lemma reaches_forward:
  assumes "fc_scheme fc = Http" and "fc_path_and_query fc = CHR ''/'' # rest"
  shows "reaches (forward_request fc (mock_addr m)) m' \<longleftrightarrow> mock_port m = mock_port m'"
proof -
  have "reaches (forward_request fc (mock_addr m)) m' \<longleftrightarrow>
      (\<exists>r. show_addr (mock_addr m) @ CHR ''/'' # rest = show_addr (mock_addr m') @ CHR ''/'' # r)"
    using assms by (simp add: reaches_def forward_request_def upstream_url_def fmt_scheme_def starts_with_iff del: show_addr.simps)
  also have "\<dots> \<longleftrightarrow> show_addr (mock_addr m) = show_addr (mock_addr m')"
    using split_at_sep[OF show_addr_no_slash show_addr_no_slash] by metis
  also have "\<dots> \<longleftrightarrow> mock_port m = mock_port m'"
    using show_addr_V4_inj by (auto simp: mock_addr_def simp del: show_addr.simps)
  finally show ?thesis .
qed

lemma from_secs_millis: "from_secs 1 = from_millis 1000" "from_secs 60 = from_millis 60000"
  by (simp_all add: from_secs_def from_millis_def time_defs)

lemma config_with_eq:
  assumes "h \<noteq> 0" and "c \<noteq> 0"
  shows "config_with (from_millis h) (from_millis c) =
    Inr (default_config\<lparr>hedge_delay := from_millis h, control_timeout := from_millis c,
      retry_initial_backoff := from_millis 1, retry_max_backoff := from_millis 2\<rparr>)"
proof -
  have shown: "str_parse_u64 (show_nat (unat w)) = Some w" for w :: u64
  proof -
    have "unat w < 2 ^ LENGTH(64)" by (rule unsigned_less)
    then show ?thesis using str_parse_u64_show_nat[of "unat w"] by (simp add: u64_max_def)
  qed
  show ?thesis
    using assms
    by (simp add: config_with_def from_lookup_def parse_u64_def parse_optional_u64_def default_defs
        unwrap_or_def u32_try_from_def max_retry_count_def bail_if_def default_config_def
        tls_enabled_def Let_def shown digit_val_def u64_max_def
        del: str_parse_u64.simps(2)) (simp add: digit_val_def u64_max_def)
qed

lemma mock_addr_eq [simp]: "mock_addr m = mock_addr m' \<longleftrightarrow> mock_port m = mock_port m'"
  by (simp add: mock_addr_def)

text \<open>An upstream that fails every attempt, with three retries.\<close>

lemma forward_with_retry_failing:
  fixes N :: network
  assumes "\<And>k now. N t k (forward_request fc a) now = Some (d, ans)"
    and "is_retryable (forward_answer a t ans)" and "max_retries rc = 3"
  shows "forward_with_retry N rc fc a t now =
    (let b0 = initial_backoff rc; b1 = next_backoff rc b0; b2 = next_backoff rc b1;
         send = (\<lambda>k s. (s, SendRequest t k (forward_request fc a)));
         retry = (\<lambda>k b s. (s, Log (Retrying a t (of_nat k + 1) 3 (as_millis b))));
         s0 = now; s1 = s0 + d + b0; s2 = s1 + d + b1; s3 = s2 + d + b2
     in ([send 0 s0, retry 0 b0 (s0 + d), send 1 s1, retry 1 b1 (s1 + d), send 2 s2, retry 2 b2 (s2 + d),
          send 3 s3, (s3 + d, Trip a (rc_cooldown rc)),
          (s3 + d, Log (RetriesExhausted a t 4 (as_secs (rc_cooldown rc))))],
         Some (s3 + d, forward_answer a t ans)))"
proof -
  have "[0..<Suc (unat (max_retries rc))] = [0, 1, 2, 3]"
    using assms(3) by (simp add: upt_rec)
  then show ?thesis
    using assms by (simp add: forward_with_retry_def retry_loop_again retry_loop_exhausted Let_def
        del: retry_loop.simps(2))
qed

lemma mock_net_answer:
  assumes "fc_scheme fc = Http" and "fc_path_and_query fc = CHR ''/'' # rest"
    and "find (\<lambda>m'. mock_port m = mock_port m') mocks = Some m"
  shows "mock_net mocks t k (forward_request fc (mock_addr m)) now =
    Some (mock_delay m, Answered (response_status m) [] ''ok'')"
proof -
  have "reaches (forward_request fc (mock_addr m)) = (\<lambda>m'. mock_port m = mock_port m')"
    using reaches_forward[OF assms(1,2)] by blast
  then show ?thesis using assms(3) by (simp add: mock_net_def)
qed

definition mock_response :: "mock \<Rightarrow> pool_type \<Rightarrow> response" where
  "mock_response m t =
     \<lparr>resp_status = response_status m,
      resp_headers = [(''x-bge-router-upstream'', show_addr (mock_addr m)), (''x-bge-router-pool'', pool_as_str t)],
      resp_body = ''ok''\<rparr>"

lemma mock_forward_answer:
  assumes "response_status m \<in> {200, 500}"
  shows "forward_answer (mock_addr m) t (Answered (response_status m) [] ''ok'') = Inr (mock_response m t)"
  using assms
  by (auto simp: mock_response_def insert_parsed_def copy_headers_def hm_insert_def status_from_u16_def unwrap_or_def)

lemma mock_forward_ok:
  assumes "fc_scheme fc = Http" and "fc_path_and_query fc = CHR ''/'' # rest"
    and "find (\<lambda>m'. mock_port m = mock_port m') mocks = Some m" and "response_status m = 200"
  shows "forward_with_retry (mock_net mocks) rc fc (mock_addr m) t now =
    ([(now, SendRequest t 0 (forward_request fc (mock_addr m)))], Some (now + mock_delay m, Inr (mock_response m t)))"
  using forward_with_retry_final[of "mock_net mocks" t fc "mock_addr m" now "mock_delay m" "Answered 200 [] ''ok''"]
    mock_forward_answer[of m t] mock_net_answer[OF assms(1-3), of t 0 now] assms(4)
  by (simp add: mock_response_def is_server_error_def del: forward_answer.simps)

lemma mock_forward_failing:
  assumes "fc_scheme fc = Http" and "fc_path_and_query fc = CHR ''/'' # rest"
    and "find (\<lambda>m'. mock_port m = mock_port m') mocks = Some m" and "response_status m = 500"
    and "max_retries rc = 3" and "initial_backoff rc = 1000000" and "max_backoff rc = 2000000"
    and "rc_cooldown rc = 30000000000"
  shows "forward_with_retry (mock_net mocks) rc fc (mock_addr m) t now =
    (let d = mock_delay m; send = (\<lambda>k s. (s, SendRequest t k (forward_request fc (mock_addr m))));
         retry = (\<lambda>k b s. (s, Log (Retrying (mock_addr m) t (of_nat k + 1) 3 b)));
         s1 = now + d + 1000000; s2 = s1 + d + 2000000; s3 = s2 + d + 2000000
     in ([send 0 now, retry 0 1 (now + d), send 1 s1, retry 1 2 (s1 + d), send 2 s2, retry 2 2 (s2 + d),
          send 3 s3, (s3 + d, Trip (mock_addr m) 30000000000),
          (s3 + d, Log (RetriesExhausted (mock_addr m) t 4 30))],
         Some (s3 + d, Inr (mock_response m t))))"
proof -
  have "next_backoff rc 1000000 = 2000000" "next_backoff rc 2000000 = 2000000"
    using assms(7) by (simp_all add: next_backoff_def saturating_mul_def time_defs)
  moreover have "is_retryable (forward_answer (mock_addr m) t (Answered (response_status m) [] ''ok''))"
    using assms(4) mock_forward_answer[of m t] by (simp add: mock_response_def is_server_error_def del: forward_answer.simps)
  ultimately show ?thesis
    using forward_with_retry_failing[of "mock_net mocks" t fc "mock_addr m" "mock_delay m"
        "Answered (response_status m) [] ''ok''" rc now]
      mock_forward_answer[of m t] mock_net_answer[OF assms(1-3), of t] assms(4-8)
    by (simp add: Let_def as_millis_def as_secs_def nanos_per_milli_def nanos_per_sec_def del: forward_answer.simps)
qed

definition test_config :: "u64 \<Rightarrow> u64 \<Rightarrow> config" where
  "test_config h c = default_config\<lparr>hedge_delay := from_millis h, control_timeout := from_millis c,
      retry_initial_backoff := from_millis 1, retry_max_backoff := from_millis 2\<rparr>"

lemma accepts_config:
  "h \<noteq> 0 \<Longrightarrow> c \<noteq> 0 \<Longrightarrow>
     accepts (config_with (from_millis h) (from_millis c)) P \<longleftrightarrow> P (test_config h c)"
  by (simp add: accepts_def test_config_def config_with_eq)

lemmas test_eval = returns_def test_config_def expect_def Let_def embed_def get_health_def route_def
  for_path_def is_inference_path_def starts_with_def state_with_def spawn_mock_def
  mock_runtime_def hedged_race_def secondary_candidate_def
  pick_gpu_def pick_cpu_def pick_ok_def pick_loading_def pick_gpu_excluding_set_def pick_tier_def
  is_ok_eligible_def is_loading_eligible_def is_in_cooldown_def ok_upstream_def
  x_headers_json_def collect_x_headers_def x_headers_is_empty_def
  run_async_def run_race_def fwd_def secondary_fut_def upstream_scheme_of_def default_config_def
  retry_config_of_def mock_forward_ok mock_forward_failing from_millis_def nanos_per_milli_def
  from_secs_def nanos_per_sec_def

lemmas race_eval = select_winner.simps enabled_def effects_before_def effects_until_def
  effects_after_def effects_from_def mock_response_def is_server_error_def log_winner_def
  log_loser_attempt_def log_both_failed_def unwrap_or_def advance_def trip_at_def clock_at_def
  trip_def already_cooled_def instant_add_def instant_max_def u64_max_def trip_next_def

lemmas count_eval = received_def completed_def cancelled_def arrivals_def List.map_filter_def
  reaches_forward test_header_def

lemma hedged_race_fast_cpu_wins_and_gpu_is_cancelled_holds: "p \<noteq> q \<Longrightarrow> hedged_race_fast_cpu_wins_and_gpu_is_cancelled p q"
  by (simp add: hedged_race_fast_cpu_wins_and_gpu_is_cancelled_def from_secs_millis accepts_config)
    (simp add: test_eval race_eval count_eval)

lemma hedge_delay_not_elapsed_means_cpu_is_never_fired_holds: "p \<noteq> q \<Longrightarrow> hedge_delay_not_elapsed_means_cpu_is_never_fired p q"
  by (simp add: hedge_delay_not_elapsed_means_cpu_is_never_fired_def from_secs_millis accepts_config)
    (simp add: test_eval race_eval count_eval)

lemma hedged_race_gpu_5xx_cpu_wins_holds: "p \<noteq> q \<Longrightarrow> hedged_race_gpu_5xx_cpu_wins p q"
  by (simp add: hedged_race_gpu_5xx_cpu_wins_def from_secs_millis accepts_config)
    (simp add: test_eval race_eval count_eval)

lemma hedged_race_both_fail_returns_gpu_error_holds: "p \<noteq> q \<Longrightarrow> hedged_race_both_fail_returns_gpu_error p q"
  by (simp add: hedged_race_both_fail_returns_gpu_error_def from_secs_millis accepts_config)
    (simp add: test_eval race_eval count_eval)

lemma inference_prefers_second_gpu_before_cpu_holds:
  assumes "distinct [p, q, r]"
  shows "inference_prefers_second_gpu_before_cpu p q r"
proof -
  have "p \<noteq> q" "q \<noteq> p" "p \<noteq> r" "r \<noteq> p" "q \<noteq> r" "r \<noteq> q" using assms by auto
  then show ?thesis
    by (simp add: inference_prefers_second_gpu_before_cpu_def from_secs_millis accepts_config)
      (simp add: test_eval race_eval count_eval)
qed

lemmas sequential_eval = sequential_timeout_def max_gpu_attempts_def gpu_attempt_def forward_cpu_with_timeout_def
  await_def[of "timeout _ _"] timeout_def attempt_cfg_def ready_def

lemma control_plane_uses_per_upstream_timeout_and_falls_back_to_cpu_holds:
  "p \<noteq> q \<Longrightarrow> control_plane_uses_per_upstream_timeout_and_falls_back_to_cpu p q"
  by (simp add: control_plane_uses_per_upstream_timeout_and_falls_back_to_cpu_def from_secs_millis accepts_config)
    (simp add: test_eval sequential_eval race_eval count_eval)

lemma control_plane_prefers_second_gpu_before_cpu_holds:
  assumes "distinct [p, q, r]"
  shows "control_plane_prefers_second_gpu_before_cpu p q r"
proof -
  have "p \<noteq> q" "q \<noteq> p" "p \<noteq> r" "r \<noteq> p" "q \<noteq> r" "r \<noteq> q" using assms by auto
  then show ?thesis
    by (simp add: control_plane_prefers_second_gpu_before_cpu_def from_secs_millis accepts_config)
      (simp add: test_eval sequential_eval race_eval count_eval)
qed

lemma upstream_is_cooled_down_after_retry_exhaustion_holds:
  "upstream_is_cooled_down_after_retry_exhaustion p"
  by (simp add: upstream_is_cooled_down_after_retry_exhaustion_def from_secs_millis accepts_config)
    (simp add: test_eval race_eval count_eval direct_def log_direct_def ready_def
      await_def[of "forward_with_retry _ _ _ _ _"])

lemma legacy_fallback_budget_seeds_hedge_delay_holds: "legacy_fallback_budget_seeds_hedge_delay"
  by (simp add: legacy_fallback_budget_seeds_hedge_delay_def config_eval)

lemma fallback_suite_holds: "distinct [p, q, r] \<Longrightarrow> fallback_suite p q r"
  by (simp add: fallback_suite_def hedged_race_fast_cpu_wins_and_gpu_is_cancelled_holds
      hedge_delay_not_elapsed_means_cpu_is_never_fired_holds hedged_race_gpu_5xx_cpu_wins_holds
      hedged_race_both_fail_returns_gpu_error_holds inference_prefers_second_gpu_before_cpu_holds
      control_plane_uses_per_upstream_timeout_and_falls_back_to_cpu_holds
      control_plane_prefers_second_gpu_before_cpu_holds
      upstream_is_cooled_down_after_retry_exhaustion_holds
      legacy_fallback_budget_seeds_hedge_delay_holds)

end
