(* ===== verification/Test_Files.thy ===== *)
theory Test_Files
  imports Unit_Tests Policy_Tests Fallback_Tests Logging
begin

text \<open>
  The tests of the repository together: the unit tests in the modules (Unit_Tests) and the test
  files \<open>tests.rs\<close>: the selectors (Policy_Tests),
  the configuration (Config_Tests), the two strategies against mock servers (Fallback_Tests)
  and, here, the log wrapper. Left out are the tests that look at what serde decodes or renders,
  at \<open>Copy\<close> and \<open>Clone\<close>, and at lines that the formatter of \<open>tracing\<close> renders.
\<close>

definition bge_module_constant_is_router :: bool where
  "bge_module_constant_is_router \<longleftrightarrow> bge_module = ''router''"

section \<open>Properties\<close>

text \<open>The model passes the tests of the repository that look at modelled functions: those of
  the modules hold whatever
  the clock reads (for the circuit breaker, as long as thirty seconds from then are in its
  range); so do the test files: the tests of the selectors, of the configuration and of the
  log wrapper's constant, and the integration tests of the hedged race and of the sequential
  strategy against mock servers on any distinct ports, with their counts of received,
  completed and cancelled requests.\<close>
lemma repository_tests_pass:
  assumes "now + from_secs 30 \<le> instant_max" and "distinct [p, q, r]"
  shows "snapshot_suite now \<and> circuit_breaker_suite now \<and> health_suite now \<and> merge_suite now \<and>
    interval_suite \<and> endpoint_suite now \<and> headers_suite \<and> route_policy_suite \<and> url_suite \<and> error_suite \<and>
    policy_suite now \<and> config_defaults_suite \<and> config_lookup_suite \<and> fallback_suite p q r \<and>
    bge_module_constant_is_router"
  using unit_tests_pass[OF assms(1)] fallback_suite_holds[OF assms(2)]
  by (simp add: policy_suite_holds config_defaults_suite_holds config_lookup_suite_holds
      bge_module_constant_is_router_def bge_module_def)

lemma repository_tests_pass_witness: "circuit_breaker_suite 0 \<and> fallback_suite 9001 9002 9003"
  using repository_tests_pass[of 0 9001 9002 9003] by (simp add: from_secs_def time_defs)

end
