(* ===== verification/Spec2Isabelle.thy ===== *)
theory Spec2Isabelle
  imports Startup Breaker_System Readiness Inference Provenance Aftermath Test_Files
begin

text \<open>
  A verification development for bge-router, an HTTP reverse proxy in Rust that routes
  embedding requests between a GPU pool and a CPU pool of upstream servers.

  \<^bold>\<open>The program.\<close> \<open>src/lib.rs\<close> (\<open>run\<close>) reads the configuration, starts three background
  tasks and serves HTTP. The tasks and all request handlers share one cell, an
  \<open>ArcSwap<PoolSnapshot>\<close>: DNS discovery (\<open>upstream/discovery.rs\<close>) replaces its two upstream
  vectors, health polling (\<open>upstream/health.rs\<close>) replaces their health state, and a request
  whose retries against an upstream are exhausted sets a cooldown on it
  (\<open>upstream/circuit_breaker.rs\<close>). A request (\<open>handler/proxy.rs\<close>) is buffered and
  dispatched by its path (\<open>router/route_policy.rs\<close>): inference paths run a hedged race,
  all others a sequential strategy (\<open>router/fallback.rs\<close>); both choose upstreams from the
  snapshot (\<open>router/policy.rs\<close>) and forward with retries (\<open>router/proxy.rs\<close>).

  \<^bold>\<open>The theories.\<close> In the order in which they build on each other:
  \<^item> Prelude: machine integers, durations and instants in nanoseconds (saturating and
    overflowing where Rust does), \<open>min_by_key\<close>, option and result chaining, decimal parsing.
  \<^item> Net, Net_Text: socket addresses and their text (\<open>Display\<close> of \<open>std::net\<close>); two addresses have
    the same text exactly when they are equal but for the flow information of IPv6, which is what
    lets the theorems on requests speak of upstreams by their URLs.
  \<^item> Snapshot: \<open>upstream/snapshot.rs\<close>; the interfaces \<open>snapshot_writer\<close> and
    \<open>membership_writer\<close> of whatever replaces a snapshot.
  \<^item> Circuit_Breaker: \<open>trip\<close> and \<open>trip_pool\<close>, with every clock reading an argument.
  \<^item> Policy: the selectors; their contract \<open>upstream_selector\<close>; the documented priority order
    as a specification.
  \<^item> Health_Poll, Discovery: one polling round; DNS merge, adaptive interval and loop.
  \<^item> Schedule, Health_Loop: \<open>tokio::time::interval\<close> with \<open>MissedTickBehavior::Skip\<close>; the
    concurrent tasks of a polling round with their timeouts, and the polling loop in time.
  \<^item> Config, Http, X_Headers, Route_Policy: \<open>config.rs\<close>, the HTTP vocabulary with
    \<open>error.rs\<close>, \<open>headers.rs\<close>, \<open>route_policy.rs\<close>.
  \<^item> Async: futures as timelines of timed effects with \<open>await\<close>, \<open>sleep\<close>, \<open>timeout\<close>; the
    interface \<open>bounded_task\<close> of a computation on a budget.
  \<^item> Proxy: one forward and the retry loop, and the specification of the loop.
  \<^item> Fallback: the hedged race, the sequential strategy, the dispatch, as timelines run in a
    world (clock and cell) that other tasks change arbitrarily.
  \<^item> Race, Sequential: the theorems on the two strategies.
  \<^item> Handlers, Metrics, Logging, Startup: the handlers and the HTTP router, the heartbeat, the
    log line rewriting, the start and the shutdown of the process.
  \<^item> Pool_System: the interleaving of discovery, polling and trips over the shared cell as a
    step relation (with an executable step function), with invariants of all reachable states.
  \<^item> Cooldown: what those tasks do to the entries of a cooled upstream.
  \<^item> Inference, Provenance, Aftermath: when an inference request is answered; which answer of
    which upstream a response is made from, and why there is none; the cooldowns that a failed
    control-plane request leaves behind.
  \<^item> Request_System: a proxied request inside that system. The environment of its world is a
    script of steps of the other tasks, every choice of which is an interleaving.
  \<^item> Breaker_System: what a trip achieves for the requests that follow it in that system, and the
    DNS answers under which it does.
  \<^item> Readiness: how soon an upstream that answers its polls is routable, from the polling loop in
    time and the policy.
  \<^item> Unit_Tests, Policy_Tests, Config_Tests, Fallback_Tests, Test_Files: the repository's own tests
    of modelled functions, one definition per test: those in the modules, those of the selectors
    and of the configuration, and the integration tests of the two strategies, whose mock servers
    are the network of the model and whose counters of received, completed and cancelled requests
    are functions of the effects of the run.

  \<^bold>\<open>What is shown.\<close> A hedged request gives exactly the outcome and the completion instant of
  the specified race, and aborts only where one of its retry loops fails at the end of the
  clock's range; nothing happens after its return, no request precedes the hedge delay,
  and only failed upstreams are tripped. A sequential request always returns within three
  budgets, contacts at most two GPUs and one CPU, and fails only after tripping every GPU it
  contacted, which keeps the dispatch of later requests away from them when no other task
  writes meanwhile; each of its stages is specified by outcome and instant. The retry loop meets its
  specification, trips exactly on exhaustion and has the closed-form backoff. The policy
  implements the documented order and never picks a cooled upstream.
  In Request_System a request is by construction a run of the system of tasks whose trips are
  steps of it, so the invariants of the cell reach the requests. In every interleaving a request contacts only upstreams that
  were discovered for their pool and successfully polled, and none whose cooldown has not
  ended, provided the cooldown is in the cell and in all snapshots about to be stored; a
  concrete run shows that a cooldown is lost otherwise. As long as no DNS answer repeats an
  endpoint, every upstream is once in its vector, and a trip that no load-compute-store of a
  task straddles keeps all later requests away from the upstream for its whole window and no
  longer, however many requests trip it meanwhile, while every DNS answer still has it; a
  repeated address defeats the breaker.
  Every response is made from the answer to one of the requests sent for it, to the upstream
  that its headers name, but for the 400 of an unreadable body and the 503 of a request that
  found no upstream left to ask or whose CPU did not answer in time. An inference request is answered within the hedge delay and a retry
  loop when the upstreams answer in time, and within the hedge delay and the secondary's
  answer whatever the primary GPU does, unless a cooldown set by then leaves the clock's
  range; when the GPU is silent and the secondary fails it is
  never answered. Polling rounds are never longer than
  four seconds and never further apart than the larger of that and the interval, so that a
  discovered upstream that answers its polls is routable within that gap and four seconds,
  unless it is cooling down.
  Accepted configurations are in bounds and survive being written to the environment and read
  back; a wrapped log line gives back the line it was made from. Only SIGINT, not SIGTERM,
  starts the graceful shutdown. Merging, headers and the health view have their functional
  properties, and the model passes the tests that are translated.

  \<^bold>\<open>Time and bounds.\<close> Instants and durations are natural numbers of nanoseconds; additions to
  an instant that Rust would panic on are \<open>None\<close> and end a request as \<open>Aborted\<close> with the
  effects before the panic (the release profile aborts on panic). No fuel is used: the loops
  are structurally recursive or have a measure (two branches of \<open>select!\<close>, two GPU attempts), a
  request that is never answered is a timeline without completion, and the endless loops of
  the background tasks are given by the rounds of any finite number of turns.

  \<^bold>\<open>Parameters.\<close> What is not under \<open>src/\<close> is an argument: the network (\<open>net\<close>), the DNS
  resolver, the JSON serializer and decoder, what other tasks do to the cell during a request
  (\<open>drift\<close>; instantiated by the steps of the system in Request_System), the middleware layers,
  the formatter and filter of \<open>tracing\<close>, files, sockets, TLS and the signals sent to the
  process. Futures are polled at the very instant they can make progress.

  \<^bold>\<open>Not modelled.\<close> Streaming of bodies (a body is its byte string), spans and the rendering of
  log fields (a log event is a value of a datatype), floating-point seconds (durations are
  kept exact), the module files, which hold no code, and the tests that look at what serde
  decodes, what it or the formatter of \<open>tracing\<close> renders, or at \<open>Copy\<close> and \<open>Clone\<close>.

  Other requests that run at the same time appear in a run as the trips they make, any number
  of them at any time; there is no joint transition system of several requests.
\<close>

end
